(* ===== verification/Ipc_Prelude.thy ===== *)
theory Ipc_Prelude
  imports Main "HOL-Library.Word" "HOL-Library.Monad_Syntax" "HOL-Library.Multiset"
begin

text \<open>
  The prelude of the Mach IPC development: the machine types of the 32-bit kernel, the
  collections of facts the component proofs pass to the simplifier, and the generic lemmas
  on words, lists and cyclic positions that several components share.

  The kernel is an ILP32 program: \<open>natural_t\<close> is a 32-bit unsigned integer, \<open>integer_t\<close> a
  32-bit signed one, and an object pointer fits in \<open>natural_t\<close> (the hash functions of
  \<open>ipc_hash.c\<close> cast pointers to it).
\<close>

unbundle bit_operations_syntax

type_synonym u32 = "32 word"

text \<open>\<open>mach_port_name_t\<close>, \<open>mach_port_gen_t\<close> and \<open>ipc_entry_bits_t\<close> are all \<open>natural_t\<close>.\<close>

type_synonym mach_port_name_t = u32
type_synonym mach_port_gen_t = u32
type_synonym ipc_entry_bits_t = u32

text \<open>Addresses of \<open>struct ipc_object\<close> (ports and port sets); zero is the null pointer.\<close>

type_synonym ipc_object_t = u32

named_theorems bits_defs
named_theorems bit_facts

subsection \<open>Words\<close>

text \<open>
  The masks of the entry bits as sets of bit positions.  The simplifier moves \<open>bit\<close> of a word
  numeral to \<open>bit\<close> of an integer numeral, so the facts are about integers; with them an equation
  between words built from masks and shifts is decided bit by bit (\<open>bit_eqI\<close>).
\<close>

lemma bit_mask_from_to:
  fixes w :: int
  assumes "w = push_bit k (mask n)"
  shows "bit w i \<longleftrightarrow> k \<le> i \<and> i < k + n"
  using assms by (auto simp: bit_simps)

lemma bit_ff [bit_facts]: "bit (0xff :: int) i \<longleftrightarrow> i < 8"
  by (subst bit_mask_from_to [where k = 0 and n = 8]) (auto simp: mask_eq_exp_minus_1)

lemma bit_ffff [bit_facts]: "bit (0xffff :: int) i \<longleftrightarrow> i < 16"
  by (subst bit_mask_from_to [where k = 0 and n = 16]) (auto simp: mask_eq_exp_minus_1)

lemma bit_1f0000 [bit_facts]: "bit (0x001f0000 :: int) i \<longleftrightarrow> 16 \<le> i \<and> i < 21"
  by (subst bit_mask_from_to [where k = 16 and n = 5]) (auto simp: mask_eq_exp_minus_1)

lemma bit_800000 [bit_facts]: "bit (0x00800000 :: int) i \<longleftrightarrow> i = 23"
  by (subst bit_mask_from_to [where k = 23 and n = 1]) (auto simp: mask_eq_exp_minus_1)

lemma bit_ff000000 [bit_facts]: "bit (0xff000000 :: int) i \<longleftrightarrow> 24 \<le> i \<and> i < 32"
  by (subst bit_mask_from_to [where k = 24 and n = 8]) (auto simp: mask_eq_exp_minus_1)

lemma bit_7fffff [bit_facts]: "bit (0x007fffff :: int) i \<longleftrightarrow> i < 23"
  by (subst bit_mask_from_to [where k = 0 and n = 23]) (auto simp: mask_eq_exp_minus_1)

lemma bit_4000000 [bit_facts]: "bit (0x04000000 :: int) i \<longleftrightarrow> i = 26"
  by (subst bit_mask_from_to [where k = 26 and n = 1]) (auto simp: mask_eq_exp_minus_1)

lemma bit_1_16 [bit_facts]: "bit (0x10000 :: int) i \<longleftrightarrow> i = 16"
  by (subst bit_mask_from_to [where k = 16 and n = 1]) (auto simp: mask_eq_exp_minus_1)

lemma bit_1_17 [bit_facts]: "bit (0x20000 :: int) i \<longleftrightarrow> i = 17"
  by (subst bit_mask_from_to [where k = 17 and n = 1]) (auto simp: mask_eq_exp_minus_1)

lemma bit_1_18 [bit_facts]: "bit (0x40000 :: int) i \<longleftrightarrow> i = 18"
  by (subst bit_mask_from_to [where k = 18 and n = 1]) (auto simp: mask_eq_exp_minus_1)

lemma bit_1_19 [bit_facts]: "bit (0x80000 :: int) i \<longleftrightarrow> i = 19"
  by (subst bit_mask_from_to [where k = 19 and n = 1]) (auto simp: mask_eq_exp_minus_1)

lemma bit_1_20 [bit_facts]: "bit (0x100000 :: int) i \<longleftrightarrow> i = 20"
  by (subst bit_mask_from_to [where k = 20 and n = 1]) (auto simp: mask_eq_exp_minus_1)

lemma add_diff_if [bit_facts]: "k + (n - k) = (if k \<le> n then n else (k::nat))"
  by simp

lemma u32_bit_lt: "bit (w :: u32) i \<Longrightarrow> i < 32"
  using bit_imp_le_length [of w i] by simp

lemma unat_u32_lt: "unat (w :: u32) < 2 ^ 32"
  using unsigned_less [where ?'a = nat, of w] by simp

lemma word_lt_not_bit:
  fixes w :: "'a::len word"
  assumes "unat w < 2 ^ n" and "n \<le> i"
  shows "\<not> bit w i"
proof -
  have "unat w < 2 ^ i"
    using assms by (meson less_le_trans one_le_numeral power_increasing)
  then have "\<not> bit (unat w) i" by (simp add: bit_iff_odd)
  then show ?thesis by (simp add: bit_unsigned_iff)
qed

lemma uint_sint_cases:
  fixes d :: u32
  shows "uint d = (if sint d < 0 then sint d + 2 ^ 32 else sint d)"
proof -
  have "uint d = sint d mod 2 ^ 32" by (simp add: uint_sint take_bit_eq_mod)
  moreover have "- (2 ^ 31) \<le> sint d" "sint d < 2 ^ 31"
    using sint_ge [of d] sint_lt [of d] by simp_all
  ultimately show ?thesis
    using mod_pos_pos_trivial [of "sint d + 2 ^ 32" "2 ^ 32"]
    by (auto simp: mod_pos_pos_trivial)
qed

subsection \<open>Arrays\<close>

text \<open>A read of an array; out of range it has no value.\<close>

definition nth_opt :: "'a list \<Rightarrow> nat \<Rightarrow> 'a option" where
  "nth_opt xs i = (if i < length xs then Some (xs ! i) else None)"

lemma nth_opt_Some [simp]: "nth_opt xs i = Some x \<longleftrightarrow> i < length xs \<and> xs ! i = x"
  by (auto simp: nth_opt_def)

lemma nth_opt_in_range [simp]: "i < length xs \<Longrightarrow> nth_opt xs i = Some (xs ! i)"
  by (simp add: nth_opt_def)

subsection \<open>Positions on a cycle\<close>

text \<open>
  Positions \<open>0 .. n - 1\<close> on a cycle: the next one, and the number of steps from one to another.
\<close>

definition next_on :: "nat \<Rightarrow> nat \<Rightarrow> nat" where
  "next_on n h = (if Suc h = n then 0 else Suc h)"

definition steps_on :: "nat \<Rightarrow> nat \<Rightarrow> nat \<Rightarrow> nat" where
  "steps_on n a b = (if a \<le> b then b - a else b + n - a)"

lemma next_on_less [simp]: "h < n \<Longrightarrow> next_on n h < n"
  by (simp add: next_on_def)

lemma steps_on_self [simp]: "steps_on n a a = 0"
  by (simp add: steps_on_def)

lemma steps_on_less: "a < n \<Longrightarrow> b < n \<Longrightarrow> steps_on n a b < n"
  by (auto simp: steps_on_def)

lemma steps_on_eq_0: "a < n \<Longrightarrow> b < n \<Longrightarrow> steps_on n a b = 0 \<longleftrightarrow> a = b"
  by (auto simp: steps_on_def)

lemma steps_on_inj: "x < n \<Longrightarrow> y < n \<Longrightarrow> a < n \<Longrightarrow> steps_on n a x = steps_on n a y \<longleftrightarrow> x = y"
  by (auto simp: steps_on_def)

lemma steps_on_next:
  "h < n \<Longrightarrow> x < n \<Longrightarrow> x \<noteq> h \<Longrightarrow> steps_on n h x = Suc (steps_on n (next_on n h) x)"
  by (auto simp: steps_on_def next_on_def)

lemma steps_on_next_right:
  "h < n \<Longrightarrow> a < n \<Longrightarrow> next_on n h \<noteq> a \<Longrightarrow> steps_on n a (next_on n h) = Suc (steps_on n a h)"
  by (auto simp: steps_on_def next_on_def)

lemma steps_on_add:
  "a < n \<Longrightarrow> g < n \<Longrightarrow> h < n \<Longrightarrow> steps_on n a g \<le> steps_on n a h \<Longrightarrow>
     steps_on n a h = steps_on n a g + steps_on n g h"
  by (auto simp: steps_on_def split: if_splits)

lemma steps_on_between:
  "a < n \<Longrightarrow> g < n \<Longrightarrow> h < n \<Longrightarrow> y < n \<Longrightarrow> steps_on n a g \<le> steps_on n a h \<Longrightarrow>
     steps_on n g y < steps_on n g h \<Longrightarrow> steps_on n a y < steps_on n a h"
  by (cases "a \<le> g"; cases "a \<le> h"; cases "g \<le> y"; cases "g \<le> h"; cases "a \<le> y";
      simp add: steps_on_def)

end
