(* ===== verification/Ipc_Names.thy ===== *)
theory Ipc_Names
  imports Ipc_Prelude
begin

text \<open>
  Port names and the bits of a capability entry: the macros of \<open>osfmk/mach/port.h\<close>,
  \<open>osfmk/ipc/port.h\<close> and \<open>osfmk/ipc/ipc_entry.h\<close>.  A name is a 24-bit table index and an
  8-bit generation; an entry's \<open>ie_bits\<close> word packs 16 bits of user references, 5 bits of
  right types, the collision bit and the generation.
\<close>

section \<open>Names\<close>

definition MACH_PORT_NULL :: mach_port_name_t where
  "MACH_PORT_NULL = 0"

definition MACH_PORT_DEAD :: mach_port_name_t where
  "MACH_PORT_DEAD = NOT 0"

definition MACH_PORT_VALID :: "mach_port_name_t \<Rightarrow> bool" where
  "MACH_PORT_VALID name \<longleftrightarrow> name \<noteq> MACH_PORT_NULL \<and> name \<noteq> MACH_PORT_DEAD"

definition MACH_PORT_INDEX :: "mach_port_name_t \<Rightarrow> u32" where
  "MACH_PORT_INDEX name = drop_bit 8 name"

definition MACH_PORT_GEN :: "mach_port_name_t \<Rightarrow> mach_port_gen_t" where
  "MACH_PORT_GEN name = push_bit 24 (name AND 0xff)"

definition MACH_PORT_MAKE :: "u32 \<Rightarrow> mach_port_gen_t \<Rightarrow> mach_port_name_t" where
  "MACH_PORT_MAKE index gen = push_bit 8 index OR drop_bit 24 gen"

lemmas [bits_defs] = MACH_PORT_INDEX_def MACH_PORT_GEN_def MACH_PORT_MAKE_def

lemma make_index_gen: "MACH_PORT_MAKE (MACH_PORT_INDEX name) (MACH_PORT_GEN name) = name"
  by (rule bit_eqI) (auto simp: bits_defs bit_simps bit_facts)

text \<open>
  The arithmetic reading of the two macros: the index is the name divided by 256, and making a
  name multiplies the index by 256 and adds the generation's byte.
\<close>

lemma unat_MACH_PORT_INDEX: "unat (MACH_PORT_INDEX name) = unat name div 256"
  by (simp add: MACH_PORT_INDEX_def drop_bit_eq_div unat_div)

lemma unat_MACH_PORT_INDEX_lt: "unat (MACH_PORT_INDEX name) < 2 ^ 24"
  using unat_u32_lt [of name] by (simp add: unat_MACH_PORT_INDEX)

lemma unat_gen_byte_lt: "unat (drop_bit 24 (g :: u32)) < 256"
  using unat_u32_lt [of g] by (simp add: drop_bit_eq_div unat_div)

lemma unat_MACH_PORT_MAKE:
  assumes "unat i < 2 ^ 24"
  shows "unat (MACH_PORT_MAKE i gen) = unat i * 256 + unat (drop_bit 24 gen)"
proof -
  have "push_bit 8 i OR drop_bit 24 gen = push_bit 8 i + drop_bit 24 gen"
    by (rule disjunctive_add [symmetric]) (auto simp: bit_simps dest: u32_bit_lt)
  moreover have "unat (push_bit 8 i) = unat i * 256"
    using assms by (simp add: push_bit_eq_mult unat_word_ariths)
  ultimately show ?thesis
    using assms unat_gen_byte_lt [of gen]
    by (simp add: MACH_PORT_MAKE_def unat_word_ariths)
qed

lemma index_make:
  assumes "unat i < 2 ^ 24"
  shows "MACH_PORT_INDEX (MACH_PORT_MAKE i gen) = i"
  using unat_gen_byte_lt [of gen]
  by (simp add: word_eq_iff_unsigned [where ?'a = nat] unat_MACH_PORT_INDEX
      unat_MACH_PORT_MAKE [OF assms])

lemma gen_make: "MACH_PORT_GEN (MACH_PORT_MAKE i gen) = gen AND 0xff000000"
  by (rule bit_eqI) (auto simp: bits_defs bit_simps bit_facts)

text \<open>
  Names are ordered by their index first, so a bound \<open>MACH_PORT_MAKE i 0\<close> separates the names
  below index \<open>i\<close> from the others: \<open>ipc_entry.c\<close> splits its splay tree at such bounds.
\<close>

lemma make_le_iff:
  assumes "unat i < 2 ^ 24"
  shows "MACH_PORT_MAKE i 0 \<le> name \<longleftrightarrow> i \<le> MACH_PORT_INDEX name"
  by (simp add: word_le_nat_alt unat_MACH_PORT_MAKE [OF assms] unat_MACH_PORT_INDEX
      less_eq_div_iff_mult_less_eq)

lemma name_eq_iff:
  "a = b \<longleftrightarrow> MACH_PORT_INDEX a = MACH_PORT_INDEX b \<and> MACH_PORT_GEN a = MACH_PORT_GEN b"
  by (metis make_index_gen)

section \<open>Rights\<close>

text \<open>A right number is \<open>mach_port_right_t\<close>; the type mask of a right is one bit above bit 15.\<close>

definition MACH_PORT_RIGHT_SEND :: u32 where "MACH_PORT_RIGHT_SEND = 0"
definition MACH_PORT_RIGHT_RECEIVE :: u32 where "MACH_PORT_RIGHT_RECEIVE = 1"
definition MACH_PORT_RIGHT_SEND_ONCE :: u32 where "MACH_PORT_RIGHT_SEND_ONCE = 2"
definition MACH_PORT_RIGHT_PORT_SET :: u32 where "MACH_PORT_RIGHT_PORT_SET = 3"
definition MACH_PORT_RIGHT_DEAD_NAME :: u32 where "MACH_PORT_RIGHT_DEAD_NAME = 4"
definition MACH_PORT_RIGHT_NUMBER :: u32 where "MACH_PORT_RIGHT_NUMBER = 5"

definition MACH_PORT_TYPE :: "u32 \<Rightarrow> u32" where
  "MACH_PORT_TYPE right = push_bit (unat (right + 16)) 1"

definition MACH_PORT_TYPE_NONE :: u32 where "MACH_PORT_TYPE_NONE = 0"
definition MACH_PORT_TYPE_SEND :: u32 where
  "MACH_PORT_TYPE_SEND = MACH_PORT_TYPE MACH_PORT_RIGHT_SEND"
definition MACH_PORT_TYPE_RECEIVE :: u32 where
  "MACH_PORT_TYPE_RECEIVE = MACH_PORT_TYPE MACH_PORT_RIGHT_RECEIVE"
definition MACH_PORT_TYPE_SEND_ONCE :: u32 where
  "MACH_PORT_TYPE_SEND_ONCE = MACH_PORT_TYPE MACH_PORT_RIGHT_SEND_ONCE"
definition MACH_PORT_TYPE_PORT_SET :: u32 where
  "MACH_PORT_TYPE_PORT_SET = MACH_PORT_TYPE MACH_PORT_RIGHT_PORT_SET"
definition MACH_PORT_TYPE_DEAD_NAME :: u32 where
  "MACH_PORT_TYPE_DEAD_NAME = MACH_PORT_TYPE MACH_PORT_RIGHT_DEAD_NAME"

definition MACH_PORT_TYPE_SEND_RECEIVE :: u32 where
  "MACH_PORT_TYPE_SEND_RECEIVE = MACH_PORT_TYPE_SEND OR MACH_PORT_TYPE_RECEIVE"
definition MACH_PORT_TYPE_SEND_RIGHTS :: u32 where
  "MACH_PORT_TYPE_SEND_RIGHTS = MACH_PORT_TYPE_SEND OR MACH_PORT_TYPE_SEND_ONCE"
definition MACH_PORT_TYPE_PORT_RIGHTS :: u32 where
  "MACH_PORT_TYPE_PORT_RIGHTS = MACH_PORT_TYPE_SEND_RIGHTS OR MACH_PORT_TYPE_RECEIVE"
definition MACH_PORT_TYPE_PORT_OR_DEAD :: u32 where
  "MACH_PORT_TYPE_PORT_OR_DEAD = MACH_PORT_TYPE_PORT_RIGHTS OR MACH_PORT_TYPE_DEAD_NAME"

definition MACH_PORT_TYPE_DNREQUEST :: u32 where "MACH_PORT_TYPE_DNREQUEST = 0x80000000"

lemma type_values [bits_defs]:
  "MACH_PORT_TYPE_NONE = 0"
  "MACH_PORT_TYPE_SEND = 0x10000"
  "MACH_PORT_TYPE_RECEIVE = 0x20000"
  "MACH_PORT_TYPE_SEND_ONCE = 0x40000"
  "MACH_PORT_TYPE_PORT_SET = 0x80000"
  "MACH_PORT_TYPE_DEAD_NAME = 0x100000"
  "MACH_PORT_TYPE_SEND_RECEIVE = 0x30000"
  "MACH_PORT_TYPE_SEND_RIGHTS = 0x50000"
  "MACH_PORT_TYPE_PORT_RIGHTS = 0x70000"
  "MACH_PORT_TYPE_PORT_OR_DEAD = 0x170000"
  by (simp_all add: MACH_PORT_TYPE_NONE_def MACH_PORT_TYPE_SEND_def MACH_PORT_TYPE_RECEIVE_def
      MACH_PORT_TYPE_SEND_ONCE_def MACH_PORT_TYPE_PORT_SET_def MACH_PORT_TYPE_DEAD_NAME_def
      MACH_PORT_TYPE_SEND_RECEIVE_def MACH_PORT_TYPE_SEND_RIGHTS_def
      MACH_PORT_TYPE_PORT_RIGHTS_def MACH_PORT_TYPE_PORT_OR_DEAD_def MACH_PORT_TYPE_def
      MACH_PORT_RIGHT_SEND_def MACH_PORT_RIGHT_RECEIVE_def MACH_PORT_RIGHT_SEND_ONCE_def
      MACH_PORT_RIGHT_PORT_SET_def MACH_PORT_RIGHT_DEAD_NAME_def)

section \<open>Entry bits\<close>

definition IE_BITS_UREFS_MASK :: u32 where "IE_BITS_UREFS_MASK = 0x0000ffff"
definition IE_BITS_UREFS :: "ipc_entry_bits_t \<Rightarrow> u32" where
  "IE_BITS_UREFS bits = bits AND IE_BITS_UREFS_MASK"

definition IE_BITS_TYPE_MASK :: u32 where "IE_BITS_TYPE_MASK = 0x001f0000"
definition IE_BITS_TYPE :: "ipc_entry_bits_t \<Rightarrow> u32" where
  "IE_BITS_TYPE bits = bits AND IE_BITS_TYPE_MASK"

definition IE_BITS_COLLISION :: u32 where "IE_BITS_COLLISION = 0x00800000"

definition IE_BITS_GEN_MASK :: u32 where "IE_BITS_GEN_MASK = 0xff000000"
definition IE_BITS_GEN :: "ipc_entry_bits_t \<Rightarrow> mach_port_gen_t" where
  "IE_BITS_GEN bits = bits AND IE_BITS_GEN_MASK"

definition IE_BITS_GEN_ONE :: u32 where "IE_BITS_GEN_ONE = 0x04000000"
definition IE_BITS_NEW_GEN :: "ipc_entry_bits_t \<Rightarrow> mach_port_gen_t" where
  "IE_BITS_NEW_GEN old = (old + IE_BITS_GEN_ONE) AND IE_BITS_GEN_MASK"

definition IE_BITS_RIGHT_MASK :: u32 where "IE_BITS_RIGHT_MASK = 0x007fffff"

lemmas [bits_defs] = IE_BITS_UREFS_MASK_def IE_BITS_UREFS_def IE_BITS_TYPE_MASK_def
  IE_BITS_TYPE_def IE_BITS_COLLISION_def IE_BITS_GEN_MASK_def IE_BITS_GEN_def
  IE_BITS_GEN_ONE_def IE_BITS_NEW_GEN_def IE_BITS_RIGHT_MASK_def

definition MACH_PORT_UREFS_MAX :: u32 where "MACH_PORT_UREFS_MAX = (push_bit 16 1) - 1"

text \<open>
  The two guards on a change of the user-reference count.  \<open>urefs\<close> is unsigned, \<open>delta\<close> a
  signed \<open>integer_t\<close>; the sum is computed unsigned, as C's usual conversions do.
\<close>

definition MACH_PORT_UREFS_OVERFLOW :: "u32 \<Rightarrow> u32 \<Rightarrow> bool" where
  "MACH_PORT_UREFS_OVERFLOW urefs delta \<longleftrightarrow>
     0 < sint delta \<and> (urefs + delta \<le> urefs \<or> urefs + delta > MACH_PORT_UREFS_MAX)"

definition MACH_PORT_UREFS_UNDERFLOW :: "u32 \<Rightarrow> u32 \<Rightarrow> bool" where
  "MACH_PORT_UREFS_UNDERFLOW urefs delta \<longleftrightarrow> sint delta < 0 \<and> - delta > urefs"

text \<open>
  The guards are exact: where neither fires, the unsigned sum is the mathematical one and stays
  within 16 bits, so adding \<open>delta\<close> to the whole \<open>ie_bits\<close> word (as \<open>ipc_right_delta\<close> does) carries
  nothing into the type, collision and generation bits.
\<close>

lemma urefs_delta_in_range:
  assumes "urefs \<le> MACH_PORT_UREFS_MAX"
    and "\<not> MACH_PORT_UREFS_UNDERFLOW urefs delta" and "\<not> MACH_PORT_UREFS_OVERFLOW urefs delta"
  shows "uint (urefs + delta) = uint urefs + sint delta \<and> urefs + delta \<le> MACH_PORT_UREFS_MAX"
proof -
  have max: "uint MACH_PORT_UREFS_MAX = 65535" by (simp add: MACH_PORT_UREFS_MAX_def)
  have u: "uint urefs \<le> 65535" "0 \<le> uint urefs" using assms(1) max by (simp_all add: word_le_def)
  have r: "- (2 ^ 31) \<le> sint delta" "sint delta < 2 ^ 31"
    using sint_ge [of delta] sint_lt [of delta] by simp_all
  have add: "uint (urefs + delta) = (uint urefs + uint delta) mod 2 ^ 32"
    by (simp add: uint_word_ariths)
  consider "sint delta < 0" | "sint delta = 0" | "0 < sint delta" by linarith
  then show ?thesis
  proof cases
    case 1
    then have d: "uint delta = sint delta + 2 ^ 32" by (simp add: uint_sint_cases)
    have "- sint delta \<le> uint urefs"
      using 1 assms(2) d r
      by (simp add: MACH_PORT_UREFS_UNDERFLOW_def word_less_def uint_word_ariths not_less)
    then have "(uint urefs + uint delta) mod 2 ^ 32 = uint urefs + sint delta"
      using d u r 1 by (simp add: mod_pos_pos_trivial add.assoc [symmetric])
    then show ?thesis using add u 1 max by (simp add: word_le_def)
  next
    case 2
    then have "uint delta = 0" by (simp add: uint_sint_cases)
    then show ?thesis using add u max 2 by (simp add: word_le_def)
  next
    case 3
    then have d: "uint delta = sint delta" by (simp add: uint_sint_cases)
    then have "uint (urefs + delta) = uint urefs + sint delta"
      using add u r 3 by (simp add: mod_pos_pos_trivial)
    then show ?thesis using assms(3) 3 by (simp add: MACH_PORT_UREFS_OVERFLOW_def not_less)
  qed
qed

lemma add_urefs_no_carry:
  assumes "IE_BITS_UREFS bits + delta \<le> MACH_PORT_UREFS_MAX"
  shows "bits + delta = (bits AND NOT IE_BITS_UREFS_MASK) OR (IE_BITS_UREFS bits + delta)"
proof -
  have *: "bits = (bits AND NOT IE_BITS_UREFS_MASK) + IE_BITS_UREFS bits"
    by (subst disjunctive_add) (auto simp: IE_BITS_UREFS_def bit_simps bit_eq_iff)
  have "\<not> bit (IE_BITS_UREFS bits + delta) i" if "16 \<le> i" for i
    using that assms
    by (intro word_lt_not_bit [of _ 16]) (simp_all add: word_le_nat_alt MACH_PORT_UREFS_MAX_def)
  then show ?thesis
    by (subst *, subst add.assoc, subst disjunctive_add) (auto simp: bits_defs bit_simps bit_facts)
qed

lemma add_urefs_fields:
  assumes "IE_BITS_UREFS bits + delta \<le> MACH_PORT_UREFS_MAX"
  shows "IE_BITS_UREFS (bits + delta) = IE_BITS_UREFS bits + delta"
    and "(bits + delta) AND NOT IE_BITS_UREFS_MASK = bits AND NOT IE_BITS_UREFS_MASK"
proof -
  have hi: "i < 16" if "bit (IE_BITS_UREFS bits + delta) i" for i
    using that assms word_lt_not_bit [of "IE_BITS_UREFS bits + delta" 16 i]
    by (simp add: word_le_nat_alt MACH_PORT_UREFS_MAX_def not_less [symmetric])
      (meson not_less)
  note eq = add_urefs_no_carry [OF assms]
  show "IE_BITS_UREFS (bits + delta) = IE_BITS_UREFS bits + delta"
    by (subst eq, rule bit_eqI)
      (use hi in \<open>auto simp: IE_BITS_UREFS_def [of "_ OR _"] IE_BITS_UREFS_MASK_def bit_simps bit_facts not_less\<close>)
  show "(bits + delta) AND NOT IE_BITS_UREFS_MASK = bits AND NOT IE_BITS_UREFS_MASK"
    by (subst eq, rule bit_eqI)
      (use hi in \<open>fastforce simp: IE_BITS_UREFS_MASK_def bit_simps bit_facts not_less\<close>)
qed

section \<open>Generations\<close>





section \<open>Properties of names and user references\<close>

text \<open>
  Claim C30. A name is its index and its generation: \<open>MACH_PORT_MAKE\<close> puts back together what
  \<open>MACH_PORT_INDEX\<close> and \<open>MACH_PORT_GEN\<close> take apart, and takes the index and the generation of an
  entry apart again, for every index that fits in 24 bits.
\<close>

theorem name_make_roundtrip:
  assumes "unat index < 2 ^ 24"
  shows "MACH_PORT_MAKE (MACH_PORT_INDEX name) (MACH_PORT_GEN name) = name \<and>
         MACH_PORT_INDEX (MACH_PORT_MAKE index gen) = index \<and>
         MACH_PORT_GEN (MACH_PORT_MAKE index gen) = IE_BITS_GEN gen"
  using make_index_gen [of name] index_make [OF assms] gen_make [of index gen]
  by (simp add: IE_BITS_GEN_def IE_BITS_GEN_MASK_def)

theorem name_make_roundtrip_witness:
  "unat (0x103 :: u32) < 2 ^ 24 \<and>
   MACH_PORT_INDEX (MACH_PORT_MAKE 0x103 0x0c000000) = 0x103 \<and>
   MACH_PORT_GEN (MACH_PORT_MAKE 0x103 0x0c000000) = IE_BITS_GEN 0x0c000000"
  using name_make_roundtrip [of "0x103" 0 "0x0c000000"] by simp

text \<open>
  Claim C29. The guards on a change of the user-reference count are exact: where neither
  \<open>MACH_PORT_UREFS_UNDERFLOW\<close> nor \<open>MACH_PORT_UREFS_OVERFLOW\<close> fires, adding the signed delta to the
  whole \<open>ie_bits\<close> word adds it to the count, which stays within 16 bits, and changes none of the
  type, collision and generation bits.
\<close>

theorem urefs_guard_exact:
  assumes "\<not> MACH_PORT_UREFS_UNDERFLOW (IE_BITS_UREFS bits) delta"
    and "\<not> MACH_PORT_UREFS_OVERFLOW (IE_BITS_UREFS bits) delta"
  shows "uint (IE_BITS_UREFS (bits + delta)) = uint (IE_BITS_UREFS bits) + sint delta \<and>
         IE_BITS_TYPE (bits + delta) = IE_BITS_TYPE bits \<and>
         IE_BITS_GEN (bits + delta) = IE_BITS_GEN bits \<and>
         (bits + delta) AND IE_BITS_COLLISION = bits AND IE_BITS_COLLISION"
proof -
  have le: "IE_BITS_UREFS bits \<le> MACH_PORT_UREFS_MAX"
    by (simp add: bits_defs MACH_PORT_UREFS_MAX_def word_and_le1)
  note r = urefs_delta_in_range [OF le assms]
  note f = add_urefs_fields [OF conjunct2 [OF r]]
  have eqb: "bit (bits + delta) n \<longleftrightarrow> bit bits n" if "\<not> bit IE_BITS_UREFS_MASK n" "n < 32" for n
    using arg_cong [OF f(2), of "\<lambda>w. bit w n"] that by (simp add: bit_simps)
  have m: "(bits + delta) AND x = bits AND x" if "x AND IE_BITS_UREFS_MASK = 0" for x
  proof (rule bit_word_eqI)
    fix n assume "n < LENGTH(32)"
    moreover have "\<not> (bit x n \<and> bit IE_BITS_UREFS_MASK n)"
      using arg_cong [OF that, of "\<lambda>w. bit w n"] by (simp add: bit_simps)
    ultimately show "bit ((bits + delta) AND x) n \<longleftrightarrow> bit (bits AND x) n"
      using eqb [of n] by (auto simp: bit_and_iff)
  qed
  show ?thesis
    using r f(1) m [of IE_BITS_TYPE_MASK] m [of IE_BITS_GEN_MASK] m [of IE_BITS_COLLISION]
    by (simp add: IE_BITS_TYPE_def IE_BITS_GEN_def IE_BITS_TYPE_MASK_def IE_BITS_GEN_MASK_def
        IE_BITS_COLLISION_def IE_BITS_UREFS_MASK_def)
qed

theorem urefs_guard_exact_witness:
  "\<not> MACH_PORT_UREFS_UNDERFLOW (IE_BITS_UREFS 0x04810003) (- 3) \<and>
   \<not> MACH_PORT_UREFS_OVERFLOW (IE_BITS_UREFS 0x04810003) (- 3) \<and>
   uint (IE_BITS_UREFS (0x04810003 + (- 3))) = 0"
proof -
  have g: "\<not> MACH_PORT_UREFS_UNDERFLOW (IE_BITS_UREFS 0x04810003) (- 3)"
    "\<not> MACH_PORT_UREFS_OVERFLOW (IE_BITS_UREFS 0x04810003) (- 3)" by code_simp+
  have "uint (IE_BITS_UREFS 0x04810003) + sint (- 3 :: u32) = 0" by code_simp
  then show ?thesis using urefs_guard_exact [OF g] g by simp
qed

end
