(* ===== verification/Ipc_Table.thy ===== *)
theory Ipc_Table
  imports Ipc_Names
begin

text \<open>
  The table sizes of \<open>osfmk/ipc/ipc_table.c\<close>.  An \<open>ipc_table_size\<close> array is the list of its
  \<open>its_size\<close> fields, a pointer into it an index.  Byte sizes are natural numbers: the largest one
  the routines compute is below \<open>2 ^ 32\<close>, the range of \<open>vm_size_t\<close>.
\<close>

definition PAGE_SIZE :: nat where "PAGE_SIZE = 4096"

text \<open>\<open>sizeof (struct ipc_entry)\<close>, \<open>ipc_tree_entry\<close> and \<open>ipc_port_request\<close> on a 32-bit kernel.\<close>

definition sizeof_ipc_entry :: nat where "sizeof_ipc_entry = 16"
definition sizeof_ipc_tree_entry :: nat where "sizeof_ipc_tree_entry = 32"
definition sizeof_ipc_port_request :: nat where "sizeof_ipc_port_request = 8"

definition ITS_SIZE_NONE :: nat where "ITS_SIZE_NONE = 4294967295"

section \<open>Filling a table of sizes\<close>

text \<open>
  One element: appended if the sz is large enough.  The list \<open>its\<close> holds the elements
  \<open>0 .. index - 1\<close>, so \<open>index\<close> is its length.
\<close>

definition fill_elem :: "nat \<Rightarrow> nat \<Rightarrow> nat \<Rightarrow> nat list \<Rightarrow> nat list" where
  "fill_elem minsize elemsize sz its = (if sz \<ge> minsize then its @ [sz div elemsize] else its)"

function fill_powers :: "nat \<Rightarrow> nat \<Rightarrow> nat \<Rightarrow> nat \<Rightarrow> nat list \<Rightarrow> nat \<times> nat list" where
  "fill_powers num minsize elemsize sz its =
     (if length its < num \<and> sz < PAGE_SIZE \<and> 0 < sz
      then fill_powers num minsize elemsize (2 * sz) (fill_elem minsize elemsize sz its)
      else (sz, its))"
  by pat_completeness auto
termination
  by (relation "measure (\<lambda>(num, minsize, elemsize, sz, its). PAGE_SIZE - sz)") auto

fun fill_period :: "nat \<Rightarrow> nat \<Rightarrow> nat \<Rightarrow> nat \<Rightarrow> nat \<Rightarrow> nat \<Rightarrow> nat list \<Rightarrow> nat \<times> nat list" where
  "fill_period num minsize elemsize incrsize 0 sz its = (sz, its)"
| "fill_period num minsize elemsize incrsize (Suc period) sz its =
     (if length its < num
      then fill_period num minsize elemsize incrsize period (sz + incrsize)
             (fill_elem minsize elemsize sz its)
      else (sz, its))"

text \<open>The elements and the bytes still missing, which the loop over the pages counts down.\<close>

definition fill_missing :: "nat \<Rightarrow> nat \<Rightarrow> nat \<Rightarrow> nat list \<Rightarrow> nat" where
  "fill_missing num minsize sz its = (num - length its) + (minsize - sz)"

lemma fill_elem_missing:
  "0 < incrsize \<Longrightarrow> length its < num \<Longrightarrow>
     fill_missing num minsize (sz + incrsize) (fill_elem minsize elemsize sz its)
     < fill_missing num minsize sz its"
  by (auto simp: fill_elem_def fill_missing_def)

lemma fill_period_le:
  "0 < incrsize \<Longrightarrow> fill_period num minsize elemsize incrsize period sz its = (sz', its') \<Longrightarrow>
     fill_missing num minsize sz' its' \<le> fill_missing num minsize sz its"
proof (induction num minsize elemsize incrsize period sz its rule: fill_period.induct)
  case (2 num minsize elemsize incrsize period sz its)
  then show ?case
    using fill_elem_missing [of incrsize its num minsize sz elemsize]
    by (cases "length its < num") auto
qed auto

lemma fill_period_less:
  assumes "0 < incrsize" "length its < num" "0 < period"
    "fill_period num minsize elemsize incrsize period sz its = (sz', its')"
  shows "fill_missing num minsize sz' its' < fill_missing num minsize sz its"
  using assms fill_period_le [of incrsize num minsize elemsize "period - 1" "sz + incrsize"
      "fill_elem minsize elemsize sz its" sz' its']
    fill_elem_missing [of incrsize its num minsize sz elemsize]
  by (cases period) auto

function fill_pages :: "nat \<Rightarrow> nat \<Rightarrow> nat \<Rightarrow> nat \<Rightarrow> nat \<Rightarrow> nat list \<Rightarrow> nat list" where
  "fill_pages num minsize elemsize incrsize sz its =
     (if length its < num \<and> 0 < incrsize
      then let (sz1, its1) = fill_period num minsize elemsize incrsize 15 sz its;
               incrsize1 = (if incrsize < 8 * PAGE_SIZE then 2 * incrsize else incrsize)
           in fill_pages num minsize elemsize incrsize1 sz1 its1
      else its)"
  by pat_completeness auto
termination
  by (relation "measure (\<lambda>(num, minsize, elemsize, incrsize, sz, its).
        fill_missing num minsize sz its)")
    (simp_all add: case_prod_unfold fill_period_less [OF _ _ _ prod.collapse [symmetric]])

declare fill_powers.simps [simp del] fill_pages.simps [simp del]

definition ipc_table_fill :: "nat \<Rightarrow> nat \<Rightarrow> nat \<Rightarrow> nat list" where
  "ipc_table_fill num minnum elemsize =
     (let minsize = minnum * elemsize;
          (sz, its) = fill_powers num minsize elemsize 1 []
      in fill_pages num minsize elemsize PAGE_SIZE sz its)"

definition ipc_table_entries_size :: nat where "ipc_table_entries_size = 512"
definition ipc_table_dnrequests_size :: nat where "ipc_table_dnrequests_size = 64"

text \<open>The two arrays \<open>ipc_table_init\<close> builds.\<close>

definition ipc_table_entries :: "nat list" where
  "ipc_table_entries =
     (let its = ipc_table_fill (ipc_table_entries_size - 1) 16 sizeof_ipc_entry
      in its @ [its ! (ipc_table_entries_size - 2)])"

definition ipc_table_dnrequests :: "nat list" where
  "ipc_table_dnrequests =
     ipc_table_fill (ipc_table_dnrequests_size - 1) 2 sizeof_ipc_port_request @ [0]"

definition it_entries_reallocable :: "nat \<Rightarrow> bool" where
  "it_entries_reallocable its \<longleftrightarrow> ipc_table_entries ! its * sizeof_ipc_entry \<ge> PAGE_SIZE"


section \<open>The contract of the arrays\<close>

text \<open>
  What both phases keep: the sizes so far increase and are below the next one, which is within
  \<open>step\<close> bytes per element of the page size.
\<close>

definition filled :: "nat \<Rightarrow> nat \<Rightarrow> nat \<Rightarrow> nat list \<Rightarrow> bool" where
  "filled num elemsize sz its \<longleftrightarrow>
     sorted_wrt (<) its \<and> length its \<le> num \<and> (\<forall>x\<in>set its. 0 < x \<and> x < sz div elemsize) \<and>
     sz \<le> PAGE_SIZE + length its * (8 * PAGE_SIZE)"

lemma div_less_div_add:
  assumes "0 < (n::nat)" "n \<le> k" shows "m div n < (m + k) div n"
proof -
  have "m div n < (m + n) div n" using assms(1) by (simp add: div_add_self2)
  also have "\<dots> \<le> (m + k) div n" using assms(2) by (simp add: div_le_mono)
  finally show ?thesis .
qed

lemma filled_elem:
  assumes "filled num elemsize sz its" "length its < num" "0 < elemsize" "elemsize \<le> minsize"
    "sz \<ge> minsize \<Longrightarrow> elemsize \<le> step \<and> step \<le> 8 * PAGE_SIZE"
    "sz < minsize \<Longrightarrow> sz + step \<le> PAGE_SIZE"
  shows "filled num elemsize (sz + step) (fill_elem minsize elemsize sz its)"
proof (cases "sz \<ge> minsize")
  case True
  then have "sz div elemsize < (sz + step) div elemsize" "0 < sz div elemsize"
    using assms div_less_div_add [of elemsize step sz] by (auto simp: div_greater_zero_iff)
  then show ?thesis
    using assms True by (auto simp: filled_def fill_elem_def sorted_wrt_append)
next
  case False
  then show ?thesis
    using assms div_le_mono [of sz "sz + step" elemsize]
    by (auto simp: filled_def fill_elem_def intro: less_le_trans)
qed

lemma filled_powers:
  assumes "filled num elemsize sz its" "0 < elemsize" "elemsize \<le> minsize" "minsize \<le> PAGE_SIZE"
    "fill_powers num minsize elemsize sz its = (sz', its')" "sz = 2 ^ k" "k \<le> 12"
  shows "filled num elemsize sz' its' \<and> (length its' < num \<longrightarrow> PAGE_SIZE \<le> sz')"
  using assms
proof (induction num minsize elemsize sz its arbitrary: k rule: fill_powers.induct)
  case (1 num minsize elemsize sz its)
  show ?case
  proof (cases "length its < num \<and> sz < PAGE_SIZE")
    case True
    have k: "k < 12" using "1.prems"(6,7) True by (cases "k = 12") (auto simp: PAGE_SIZE_def)
    then have "2 ^ Suc k \<le> (2::nat) ^ 12" by (intro power_increasing) auto
    then have le: "2 * sz \<le> PAGE_SIZE" using "1.prems"(6) by (simp add: PAGE_SIZE_def)
    have "filled num elemsize (sz + sz) (fill_elem minsize elemsize sz its)"
      by (rule filled_elem) (use "1.prems" True le in \<open>auto simp: PAGE_SIZE_def\<close>)
    then show ?thesis
      using "1.IH" [of "Suc k"] "1.prems" True k
      by (simp add: mult_2 [symmetric] fill_powers.simps [of num minsize elemsize "2 ^ k"])
  next
    case False
    then show ?thesis
      using "1.prems" by (auto simp: fill_powers.simps [of num minsize elemsize "2 ^ k"])
  qed
qed

lemma filled_period:
  assumes "filled num elemsize sz its" "0 < elemsize" "elemsize \<le> minsize" "minsize \<le> sz"
    "fill_period num minsize elemsize incrsize period sz its = (sz', its')"
    "elemsize \<le> incrsize" "incrsize \<le> 8 * PAGE_SIZE"
  shows "filled num elemsize sz' its' \<and> minsize \<le> sz'"
  using assms
proof (induction num minsize elemsize incrsize period sz its rule: fill_period.induct)
  case (2 num minsize elemsize incrsize period sz its)
  show ?case
  proof (cases "length its < num")
    case True
    have "filled num elemsize (sz + incrsize) (fill_elem minsize elemsize sz its)"
      by (rule filled_elem) (use "2.prems" True in auto)
    then show ?thesis using 2 True by simp
  qed (use 2 in auto)
qed auto

lemma filled_pages:
  assumes "filled num elemsize sz its" "0 < elemsize" "elemsize \<le> minsize"
    "length its < num \<longrightarrow> minsize \<le> sz"
    "elemsize \<le> incrsize" "\<exists>k\<le>3. incrsize = PAGE_SIZE * 2 ^ k"
  shows "\<exists>sz'. filled num elemsize sz' (fill_pages num minsize elemsize incrsize sz its) \<and>
           length (fill_pages num minsize elemsize incrsize sz its) = num"
  using assms
proof (induction num minsize elemsize incrsize sz its rule: fill_pages.induct)
  case (1 num minsize elemsize incrsize sz its)
  let ?incr = "if incrsize < 8 * PAGE_SIZE then 2 * incrsize else incrsize"
  obtain k where k: "k \<le> 3" "incrsize = PAGE_SIZE * 2 ^ k" using "1.prems"(6) by auto
  have pos: "0 < incrsize" "incrsize \<le> 8 * PAGE_SIZE"
    using k power_increasing [of k 3 "2::nat"] by (auto simp: PAGE_SIZE_def)
  have incr: "elemsize \<le> ?incr" "\<exists>k\<le>3. ?incr = PAGE_SIZE * 2 ^ k"
  proof -
    show "\<exists>k\<le>3. ?incr = PAGE_SIZE * 2 ^ k"
    proof (cases "k = 3")
      case False
      then have "k \<in> {0, 1, 2}" using k(1) by auto
      then show ?thesis using k by (intro exI [of _ "Suc k"]) (auto simp: PAGE_SIZE_def)
    qed (use k in auto)
  qed (use "1.prems"(5) in auto)
  show ?case
  proof (cases "length its < num")
    case True
    obtain sz1 its1 where f: "fill_period num minsize elemsize incrsize 15 sz its = (sz1, its1)"
      by (cases "fill_period num minsize elemsize incrsize 15 sz its")
    have "filled num elemsize sz1 its1 \<and> minsize \<le> sz1"
      using filled_period [OF "1.prems"(1,2,3) _ f] "1.prems"(4,5) True pos by auto
    moreover have step: "fill_pages num minsize elemsize incrsize sz its =
        fill_pages num minsize elemsize ?incr sz1 its1"
      using True pos f by (simp add: fill_pages.simps [of num minsize elemsize incrsize sz its])
    ultimately show ?thesis
      unfolding step
      using "1.IH" [OF _ f [symmetric] refl refl _ "1.prems"(2,3) _ incr] True pos(1) by simp
  next
    case False
    then have "fill_pages num minsize elemsize incrsize sz its = its"
      by (simp add: fill_pages.simps [of num minsize elemsize incrsize sz its])
    then show ?thesis using "1.prems"(1) False by (auto simp: filled_def)
  qed
qed

lemma table_fill_spec:
  assumes "0 < elemsize" "0 < minnum" "minnum * elemsize \<le> PAGE_SIZE"
  shows "length (ipc_table_fill num minnum elemsize) = num"
    and "sorted_wrt (<) (ipc_table_fill num minnum elemsize)"
    and "\<forall>x\<in>set (ipc_table_fill num minnum elemsize).
           0 < x \<and> x < (PAGE_SIZE + num * (8 * PAGE_SIZE)) div elemsize"
proof -
  let ?minsize = "minnum * elemsize"
  obtain sz its where p: "fill_powers num ?minsize elemsize 1 [] = (sz, its)"
    by (cases "fill_powers num ?minsize elemsize 1 []")
  have le: "elemsize \<le> ?minsize" using assms by (cases minnum) auto
  have page: "\<exists>k\<le>3. PAGE_SIZE = PAGE_SIZE * 2 ^ k" by (rule exI [of _ 0]) simp
  have "filled num elemsize 1 []" by (simp add: filled_def PAGE_SIZE_def)
  then have "filled num elemsize sz its \<and> (length its < num \<longrightarrow> PAGE_SIZE \<le> sz)"
    using filled_powers [OF _ assms(1) le assms(3) p, of 0] by simp
  moreover have "elemsize \<le> PAGE_SIZE" using le assms(3) by (rule order_trans)
  ultimately obtain sz' where f: "filled num elemsize sz' (ipc_table_fill num minnum elemsize)"
    "length (ipc_table_fill num minnum elemsize) = num"
    using filled_pages [OF _ assms(1) le _ _ page, of num sz its] assms(3) p
    by (auto simp: ipc_table_fill_def Let_def)
  then show "length (ipc_table_fill num minnum elemsize) = num"
    "sorted_wrt (<) (ipc_table_fill num minnum elemsize)"
    by (auto simp: filled_def)
  have "sz' div elemsize \<le> (PAGE_SIZE + num * (8 * PAGE_SIZE)) div elemsize"
    using f by (auto simp: filled_def intro: div_le_mono)
  then show "\<forall>x\<in>set (ipc_table_fill num minnum elemsize).
           0 < x \<and> x < (PAGE_SIZE + num * (8 * PAGE_SIZE)) div elemsize"
    using f by (auto simp: filled_def)
qed

lemma entries_fill:
  "length (ipc_table_fill 511 16 16) = 511" "sorted_wrt (<) (ipc_table_fill 511 16 16)"
  "\<forall>x\<in>set (ipc_table_fill 511 16 16). 0 < x \<and> x < 2 ^ 24 - 1"
  using table_fill_spec [of 16 16 511] by (auto simp: PAGE_SIZE_def)

lemma length_ipc_table_entries [simp]: "length ipc_table_entries = 512"
  by (simp add: ipc_table_entries_def Let_def ipc_table_entries_size_def sizeof_ipc_entry_def
      entries_fill)

lemma nth_ipc_table_entries:
  "i < 511 \<Longrightarrow> ipc_table_entries ! i = ipc_table_fill 511 16 16 ! i"
  "ipc_table_entries ! 511 = ipc_table_entries ! 510"
  by (simp_all add: ipc_table_entries_def Let_def ipc_table_entries_size_def sizeof_ipc_entry_def
      entries_fill nth_append)

lemma ipc_table_entries_less:
  "i < j \<Longrightarrow> j < 511 \<Longrightarrow> ipc_table_entries ! i < ipc_table_entries ! j"
  using sorted_wrt_nth_less [OF entries_fill(2), of i j] by (simp add: nth_ipc_table_entries entries_fill)

lemma ipc_table_entries_range:
  assumes "i < 512" shows "0 < ipc_table_entries ! i" "ipc_table_entries ! i < 2 ^ 24 - 1"
proof -
  obtain j where j: "j < 511" "ipc_table_entries ! i = ipc_table_fill 511 16 16 ! j"
  proof (cases "i = 511")
    case True
    then show ?thesis using that [of 510] nth_ipc_table_entries by simp
  next
    case False
    then show ?thesis using that [of i] assms nth_ipc_table_entries by simp
  qed
  then show "0 < ipc_table_entries ! i" "ipc_table_entries ! i < 2 ^ 24 - 1"
    using entries_fill nth_mem [of j "ipc_table_fill 511 16 16"] by auto
qed

text \<open>
  Claim C27. The array \<open>ipc_table_entries\<close> that \<open>ipc_table_init\<close> builds keeps the contract stated
  in \<open>ipc_table.h\<close>: it has \<open>ipc_table_entries_size\<close> elements, the sizes are positive and strictly
  increasing but for the last two, which are equal, and every size, the largest included, is at
  most \<open>MACH_PORT_INDEX (MACH_PORT_DEAD)\<close>, so that no index of a table is the index of the dead name.
\<close>

theorem table_entries_contract:
  "length ipc_table_entries = ipc_table_entries_size \<and>
   sorted_wrt (<) (butlast ipc_table_entries) \<and>
   last ipc_table_entries = last (butlast ipc_table_entries) \<and>
   list_all (\<lambda>n. 0 < n \<and> n \<le> unat (MACH_PORT_INDEX MACH_PORT_DEAD)) ipc_table_entries"
proof -
  have but: "butlast ipc_table_entries = ipc_table_fill 511 16 16"
    by (simp add: ipc_table_entries_def Let_def ipc_table_entries_size_def sizeof_ipc_entry_def)
  have "last ipc_table_entries = last (butlast ipc_table_entries)"
    using nth_ipc_table_entries(2) by (simp add: last_conv_nth but entries_fill nth_ipc_table_entries(1)
        flip: length_0_conv)
  moreover have "unat (MACH_PORT_INDEX MACH_PORT_DEAD) = 2 ^ 24 - 1"
    by (simp add: unat_MACH_PORT_INDEX MACH_PORT_DEAD_def unsigned_minus_1_eq_mask
        mask_eq_exp_minus_1)
  ultimately show ?thesis
    using ipc_table_entries_range entries_fill(2)
    by (auto simp: but ipc_table_entries_size_def list_all_length less_imp_le)
qed

text \<open>
  Claim C28. The array \<open>ipc_table_dnrequests\<close> keeps its contract: positive and strictly increasing
  sizes, ended by a zero, which is how \<open>ipc_port_dngrow\<close> detects that no larger table exists.
\<close>

theorem table_dnrequests_contract:
  "length ipc_table_dnrequests = ipc_table_dnrequests_size \<and>
   sorted_wrt (<) (butlast ipc_table_dnrequests) \<and>
   list_all (\<lambda>n. 0 < n) (butlast ipc_table_dnrequests) \<and> last ipc_table_dnrequests = 0"
  using table_fill_spec [of 8 2 63]
  by (auto simp: ipc_table_dnrequests_def ipc_table_dnrequests_size_def sizeof_ipc_port_request_def
      PAGE_SIZE_def list_all_iff)

end
