(* ===== verification/Ipc_Splay.thy ===== *)
theory Ipc_Splay
  imports Ipc_Names "HOL-Library.Tree"
begin

text \<open>
  The splay tree of \<open>osfmk/ipc/ipc_splay.c\<close>: a self-adjusting search tree of the entries whose
  names are too large for, or collide in, the table of a space.

  A node is a name and an entry pointer; \<open>Leaf\<close> is \<open>ITE_NULL\<close>.  The code keeps the tree
  \<^emph>\<open>unassembled\<close>: the middle tree \<open>ist_root\<close> left by the last top-down splay, and a left and a
  right tree with a hole in each, at the \<open>rchild\<close> field \<open>ist_ltreep\<close> points to and at the
  \<open>lchild\<close> field \<open>ist_rtreep\<close> points to.  A tree with a hole is the list of the nodes on the
  path from the hole to its root, innermost first, each with its other child; storing through
  \<open>ist_ltreep\<close> and reading \<open>ist_ltree\<close> is \<open>fill_left\<close>.  An empty path is a pointer to the
  \<open>ist_ltree\<close> field itself.
\<close>

section \<open>Nodes, trees with a hole, and the splay structure\<close>

type_synonym 'e node = "mach_port_name_t \<times> 'e"
type_synonym 'e ltree = "('e node tree \<times> 'e node) list"
type_synonym 'e rtree = "('e node \<times> 'e node tree) list"
type_synonym 'e unassembled = "'e node tree \<times> 'e ltree \<times> 'e rtree"

abbreviation ite_name :: "'e node tree \<Rightarrow> mach_port_name_t" where
  "ite_name t \<equiv> fst (value t)"

record 'e ipc_splay_tree =
  ist_name :: mach_port_name_t
  ist_root :: "'e node tree"
  ist_ltree :: "'e ltree"
  ist_rtree :: "'e rtree"

fun fill_left :: "'e ltree \<Rightarrow> 'e node tree \<Rightarrow> 'e node tree" where
  "fill_left [] t = t"
| "fill_left ((l, a) # c) t = fill_left c (Node l a t)"

fun fill_right :: "'e rtree \<Rightarrow> 'e node tree \<Rightarrow> 'e node tree" where
  "fill_right [] t = t"
| "fill_right ((a, r) # c) t = fill_right c (Node t a r)"

section \<open>The top-down splay\<close>

fun link_left :: "'e unassembled \<Rightarrow> 'e unassembled" where
  "link_left (tree, lt, rt) = (right tree, (left tree, value tree) # lt, rt)"

fun link_right :: "'e unassembled \<Rightarrow> 'e unassembled" where
  "link_right (tree, lt, rt) = (left tree, lt, (value tree, right tree) # rt)"

fun rotate_left :: "'e node tree \<Rightarrow> 'e node tree" where
  "rotate_left temp =
     Node (Node (left temp) (value temp) (left (right temp))) (value (right temp))
       (right (right temp))"

fun rotate_right :: "'e node tree \<Rightarrow> 'e node tree" where
  "rotate_right temp =
     Node (left (left temp)) (value (left temp))
       (Node (right (left temp)) (value temp) (right temp))"

text \<open>The two arms of the loop body, for \<open>name < tname\<close> and \<open>name > tname\<close>.\<close>

definition descend_left :: "mach_port_name_t \<Rightarrow> 'e unassembled \<Rightarrow> 'e unassembled" where
  "descend_left name s =
     (let (tree, lt, rt) = s;
          lchild = left tree;
          tname = ite_name lchild;
          tree1 = (if name < tname \<and> left lchild \<noteq> Leaf then rotate_right tree else tree);
          s1 = link_right (tree1, lt, rt)
      in if name > tname \<and> right lchild \<noteq> Leaf then link_left s1 else s1)"

definition descend_right :: "mach_port_name_t \<Rightarrow> 'e unassembled \<Rightarrow> 'e unassembled" where
  "descend_right name s =
     (let (tree, lt, rt) = s;
          rchild = right tree;
          tname = ite_name rchild;
          tree1 = (if name > tname \<and> right rchild \<noteq> Leaf then rotate_left tree else tree);
          s1 = link_left (tree1, lt, rt)
      in if name < tname \<and> left rchild \<noteq> Leaf then link_right s1 else s1)"

lemma size_descend_left:
  "left t \<noteq> Leaf \<Longrightarrow> size (fst (descend_left name (t, lt, rt))) < size t"
  by (cases t; cases "left t") (auto simp: descend_left_def Let_def)

lemma size_descend_right:
  "right t \<noteq> Leaf \<Longrightarrow> size (fst (descend_right name (t, lt, rt))) < size t"
  by (cases t; cases "right t") (auto simp: descend_right_def Let_def)

function ipc_splay_prim_lookup :: "mach_port_name_t \<Rightarrow> 'e unassembled \<Rightarrow> 'e unassembled" where
  "ipc_splay_prim_lookup name (tree, lt, rt) =
     (if tree = Leaf \<or> name = ite_name tree then (tree, lt, rt)
      else if name < ite_name tree then
        (if left tree = Leaf then (tree, lt, rt)
         else ipc_splay_prim_lookup name (descend_left name (tree, lt, rt)))
      else
        (if right tree = Leaf then (tree, lt, rt)
         else ipc_splay_prim_lookup name (descend_right name (tree, lt, rt))))"
  by pat_completeness auto
termination
  by (relation "measure (\<lambda>(name, s). size (fst s))")
    (auto simp: size_descend_left size_descend_right)

declare ipc_splay_prim_lookup.simps [simp del]

definition ipc_splay_prim_assemble ::
  "'e node tree \<Rightarrow> 'e ltree \<Rightarrow> 'e rtree \<Rightarrow> 'e node tree" where
  "ipc_splay_prim_assemble tree lt rt =
     Node (fill_left lt (left tree)) (value tree) (fill_right rt (right tree))"

section \<open>Operations\<close>

definition MACH_PORT_SMALLEST :: mach_port_name_t where "MACH_PORT_SMALLEST = 0"
definition MACH_PORT_LARGEST :: mach_port_name_t where "MACH_PORT_LARGEST = NOT 0"

definition ipc_splay_tree_init :: "'e ipc_splay_tree \<Rightarrow> 'e ipc_splay_tree" where
  "ipc_splay_tree_init splay = splay\<lparr>ist_root := Leaf\<rparr>"

definition ipc_splay_tree_pick :: "'e ipc_splay_tree \<Rightarrow> 'e node option" where
  "ipc_splay_tree_pick splay =
     (if ist_root splay \<noteq> Leaf then Some (value (ist_root splay)) else None)"

text \<open>
  The step every operation starts with: unless the last lookup was for the same name, assemble
  the tree and splay it at \<open>name\<close>.  The operations differ in which fields they store back.
\<close>

definition splay_at :: "mach_port_name_t \<Rightarrow> 'e ipc_splay_tree \<Rightarrow> 'e unassembled" where
  "splay_at name splay =
     (if ist_name splay \<noteq> name
      then ipc_splay_prim_lookup name
             (ipc_splay_prim_assemble (ist_root splay) (ist_ltree splay) (ist_rtree splay), [], [])
      else (ist_root splay, ist_ltree splay, ist_rtree splay))"

definition ipc_splay_tree_lookup ::
  "'e ipc_splay_tree \<Rightarrow> mach_port_name_t \<Rightarrow> 'e option \<times> 'e ipc_splay_tree" where
  "ipc_splay_tree_lookup splay name =
     (if ist_root splay = Leaf then (None, splay)
      else let (root, lt, rt) = splay_at name splay;
               splay1 = splay\<lparr>ist_name := name, ist_root := root, ist_ltree := lt, ist_rtree := rt\<rparr>
           in (if name \<noteq> ite_name root then None else Some (snd (value root)), splay1))"

definition ipc_splay_tree_insert ::
  "'e ipc_splay_tree \<Rightarrow> mach_port_name_t \<Rightarrow> 'e \<Rightarrow> 'e ipc_splay_tree" where
  "ipc_splay_tree_insert splay name entry =
     (let (lchild, rchild) =
        (if ist_root splay = Leaf then (Leaf, Leaf)
         else let (root, lt, rt) = splay_at name splay
              in if name < ite_name root
                 then (fill_left lt Leaf, fill_right rt root)
                 else (fill_left lt root, fill_right rt Leaf))
      in splay\<lparr>ist_name := name, ist_root := Node lchild (name, entry) rchild,
               ist_ltree := [], ist_rtree := []\<rparr>)"

definition ipc_splay_tree_delete ::
  "'e ipc_splay_tree \<Rightarrow> mach_port_name_t \<Rightarrow> 'e ipc_splay_tree" where
  "ipc_splay_tree_delete splay name =
     (let (root0, lt, rt) = splay_at name splay;
          root1 = fill_left lt (left root0);
          saved = fill_right rt (right root0);
          root =
            (if root1 = Leaf then saved
             else if saved \<noteq> Leaf then
               let (root2, lt2, rt2) = ipc_splay_prim_lookup MACH_PORT_LARGEST (root1, [], []);
                   root3 = ipc_splay_prim_assemble root2 lt2 rt2
               in Node (left root3) (value root3) saved
             else root1)
      in if root \<noteq> Leaf
         then splay\<lparr>ist_root := root, ist_name := ite_name root, ist_ltree := [], ist_rtree := []\<rparr>
         else splay\<lparr>ist_root := root\<rparr>)"

definition ipc_splay_tree_split ::
  "'e ipc_splay_tree \<Rightarrow> mach_port_name_t \<Rightarrow> 'e ipc_splay_tree
     \<Rightarrow> 'e ipc_splay_tree \<times> 'e ipc_splay_tree" where
  "ipc_splay_tree_split splay name small0 =
     (let small = ipc_splay_tree_init small0
      in if ist_root splay = Leaf then (splay, small)
         else let (root, lt, rt) = splay_at name splay
              in if ite_name root < name then
                   (let sroot = Node (fill_left lt (left root)) (value root) (right root);
                        small1 = small\<lparr>ist_root := sroot, ist_name := ite_name root,
                                       ist_ltree := [], ist_rtree := []\<rparr>;
                        root1 = fill_right rt Leaf
                    in (if root1 \<noteq> Leaf
                        then splay\<lparr>ist_root := root1, ist_name := ite_name root1,
                                   ist_ltree := [], ist_rtree := []\<rparr>
                        else splay\<lparr>ist_root := root1\<rparr>,
                        small1))
                 else
                   (let ltree = fill_left lt (left root);
                        splay1 = splay\<lparr>ist_root := Node Leaf (value root) (right root),
                                       ist_name := name, ist_ltree := [], ist_rtree := rt\<rparr>
                    in (splay1,
                        if ltree \<noteq> Leaf
                        then small\<lparr>ist_root := ltree, ist_name := ite_name ltree,
                                   ist_ltree := [], ist_rtree := []\<rparr>
                        else small\<lparr>ist_root := ltree\<rparr>)))"

text \<open>\<open>ipc_splay_tree_join\<close> returns the joined tree and the emptied \<open>small\<close>.\<close>

definition ipc_splay_tree_join ::
  "'e ipc_splay_tree \<Rightarrow> 'e ipc_splay_tree \<Rightarrow> 'e ipc_splay_tree \<times> 'e ipc_splay_tree" where
  "ipc_splay_tree_join splay small =
     (if ist_root small = Leaf then (splay, small)
      else let sroot = ipc_splay_prim_assemble (ist_root small) (ist_ltree small) (ist_rtree small);
               small1 = small\<lparr>ist_root := Leaf\<rparr>;
               root =
                 (if ist_root splay = Leaf then sroot
                  else let (root1, lt, rt) = splay_at MACH_PORT_SMALLEST splay;
                           root2 = ipc_splay_prim_assemble root1 lt rt
                       in Node sroot (value root2) (right root2))
           in (splay\<lparr>ist_root := root, ist_name := ite_name root,
                     ist_ltree := [], ist_rtree := []\<rparr>, small1))"

text \<open>
  \<open>ipc_splay_tree_bounds\<close> turns \<open>ist_ltreep\<close> back into the node whose \<open>rchild\<close> it points to:
  that node is the first one on the left path.
\<close>

definition ipc_splay_tree_bounds ::
  "'e ipc_splay_tree \<Rightarrow> mach_port_name_t
     \<Rightarrow> (mach_port_name_t \<times> mach_port_name_t) \<times> 'e ipc_splay_tree" where
  "ipc_splay_tree_bounds splay name =
     (if ist_root splay = Leaf then ((MACH_PORT_LARGEST, MACH_PORT_SMALLEST), splay)
      else let (root, lt, rt) = splay_at name splay;
               splay1 = splay\<lparr>ist_name := name, ist_root := root, ist_ltree := lt, ist_rtree := rt\<rparr>;
               rname = ite_name root;
               lower = (if rname \<le> name then rname
                        else case lt of [] \<Rightarrow> MACH_PORT_LARGEST | (l, a) # _ \<Rightarrow> fst a);
               upper = (if rname \<ge> name then rname
                        else case rt of [] \<Rightarrow> MACH_PORT_SMALLEST | (a, r) # _ \<Rightarrow> fst a)
           in ((lower, upper), splay1))"

section \<open>The splay keeps the symmetric order and brings the name to the middle\<close>

text \<open>The nodes of the trees with a hole, in symmetric order.\<close>

fun lnodes :: "'e ltree \<Rightarrow> 'e node list" where
  "lnodes [] = []"
| "lnodes ((l, a) # c) = lnodes c @ inorder l @ [a]"

fun rnodes :: "'e rtree \<Rightarrow> 'e node list" where
  "rnodes [] = []"
| "rnodes ((a, r) # c) = a # inorder r @ rnodes c"

fun snodes :: "'e unassembled \<Rightarrow> 'e node list" where
  "snodes (t, lt, rt) = lnodes lt @ inorder t @ rnodes rt"

lemma inorder_fill_left [simp]: "inorder (fill_left lt t) = lnodes lt @ inorder t"
  by (induction lt t rule: fill_left.induct) auto

lemma inorder_fill_right [simp]: "inorder (fill_right rt t) = inorder t @ rnodes rt"
  by (induction rt t rule: fill_right.induct) auto

lemma inorder_assemble:
  "t \<noteq> Leaf \<Longrightarrow> inorder (ipc_splay_prim_assemble t lt rt) = snodes (t, lt, rt)"
  by (cases t) (simp_all add: ipc_splay_prim_assemble_def)

lemma snodes_descend_left:
  "left t \<noteq> Leaf \<Longrightarrow> snodes (descend_left name (t, lt, rt)) = snodes (t, lt, rt)"
  by (cases t; cases "left t") (auto simp: descend_left_def Let_def)

lemma snodes_descend_right:
  "right t \<noteq> Leaf \<Longrightarrow> snodes (descend_right name (t, lt, rt)) = snodes (t, lt, rt)"
  by (cases t; cases "right t") (auto simp: descend_right_def Let_def)

lemma fst_descend_not_Leaf:
  "left t \<noteq> Leaf \<Longrightarrow> fst (descend_left name (t, lt, rt)) \<noteq> Leaf"
  "right t \<noteq> Leaf \<Longrightarrow> fst (descend_right name (t, lt, rt)) \<noteq> Leaf"
  by (cases t; cases "left t"; auto simp: descend_left_def Let_def)
    (cases t; cases "right t"; auto simp: descend_right_def Let_def)

text \<open>
  A rule for facts about \<open>ipc_splay_prim_lookup\<close>: a property of the working state that both arms
  of the loop keep holds of the result, and the loop stops for one of its three reasons.
\<close>

definition splay_stopped :: "mach_port_name_t \<Rightarrow> 'e unassembled \<Rightarrow> bool" where
  "splay_stopped name s \<longleftrightarrow>
     (case s of (t, lt, rt) \<Rightarrow>
        t \<noteq> Leaf \<and> (name < ite_name t \<longrightarrow> left t = Leaf) \<and> (name > ite_name t \<longrightarrow> right t = Leaf))"

lemma prim_lookup_stopped:
  "splay_stopped name (t, lt, rt) \<Longrightarrow> ipc_splay_prim_lookup name (t, lt, rt) = (t, lt, rt)"
  by (auto simp: ipc_splay_prim_lookup.simps [of name t] splay_stopped_def)

lemma prim_lookup_rule:
  assumes "I s" and "fst s \<noteq> Leaf"
    and "\<And>t lt rt. I (t, lt, rt) \<Longrightarrow> left t \<noteq> Leaf \<Longrightarrow> name < ite_name t \<Longrightarrow>
           I (descend_left name (t, lt, rt))"
    and "\<And>t lt rt. I (t, lt, rt) \<Longrightarrow> right t \<noteq> Leaf \<Longrightarrow> name > ite_name t \<Longrightarrow>
           I (descend_right name (t, lt, rt))"
  shows "I (ipc_splay_prim_lookup name s) \<and> splay_stopped name (ipc_splay_prim_lookup name s)"
  using assms
proof (induction name s rule: ipc_splay_prim_lookup.induct)
  case (1 name tree lt rt)
  note left = "1.prems"(3) [of tree lt rt] and right = "1.prems"(4) [of tree lt rt]
  consider (stop) "splay_stopped name (tree, lt, rt)"
    | (left) "name < ite_name tree" "left tree \<noteq> Leaf"
    | (right) "name > ite_name tree" "right tree \<noteq> Leaf"
    using "1.prems"(2)
    by (auto simp: splay_stopped_def)
  then show ?case
  proof cases
    case stop
    then show ?thesis using "1.prems"(1) by (simp add: prim_lookup_stopped)
  next
    case left
    then show ?thesis
      using "1.IH"(1) "1.prems" fst_descend_not_Leaf(1) [of tree name lt rt]
      by (auto simp: ipc_splay_prim_lookup.simps [of name tree])
  next
    case right
    then show ?thesis
      using "1.IH"(2) "1.prems" fst_descend_not_Leaf(2) [of tree name lt rt]
      by (auto simp: ipc_splay_prim_lookup.simps [of name tree])
  qed
qed

lemma snodes_prim_lookup:
  assumes "t \<noteq> Leaf"
  shows "snodes (ipc_splay_prim_lookup name (t, lt, rt)) = snodes (t, lt, rt)"
  using prim_lookup_rule [of "\<lambda>s. snodes s = snodes (t, lt, rt)" "(t, lt, rt)" name] assms
  by (simp add: snodes_descend_left snodes_descend_right)

text \<open>The path nodes lie on their side of the name looked up.\<close>

abbreviation ordered :: "'e node list \<Rightarrow> bool" where
  "ordered xs \<equiv> sorted_wrt (<) (map fst xs)"

definition path_bounds :: "mach_port_name_t \<Rightarrow> 'e unassembled \<Rightarrow> bool" where
  "path_bounds name s \<longleftrightarrow>
     (case s of (t, lt, rt) \<Rightarrow>
        (\<forall>x\<in>set (lnodes lt). fst x < name) \<and> (\<forall>x\<in>set (rnodes rt). name < fst x))"

lemma path_bounds_descend_left:
  assumes "path_bounds name (t, lt, rt)" "ordered (inorder t)"
    and "left t \<noteq> Leaf" "name < ite_name t"
  shows "path_bounds name (descend_left name (t, lt, rt))"
  using assms
  by (cases t; cases "left t")
    (force simp: descend_left_def Let_def path_bounds_def sorted_wrt_append)+

lemma path_bounds_descend_right:
  assumes "path_bounds name (t, lt, rt)" "ordered (inorder t)"
    and "right t \<noteq> Leaf" "name > ite_name t"
  shows "path_bounds name (descend_right name (t, lt, rt))"
  using assms
  by (cases t; cases "right t")
    (force simp: descend_right_def Let_def path_bounds_def sorted_wrt_append)+

lemma prim_lookup_bounds:
  assumes "t \<noteq> Leaf" "ordered (snodes (t, lt, rt))" "path_bounds name (t, lt, rt)"
  shows "path_bounds name (ipc_splay_prim_lookup name (t, lt, rt))"
    and "splay_stopped name (ipc_splay_prim_lookup name (t, lt, rt))"
proof -
  let ?I = "\<lambda>s. path_bounds name s \<and> ordered (snodes s)"
  have inord: "ordered (inorder t')" if "ordered (snodes (t', lt', rt'))" for t' lt' rt'
    using that by (simp add: sorted_wrt_append)
  have "?I (ipc_splay_prim_lookup name (t, lt, rt)) \<and>
      splay_stopped name (ipc_splay_prim_lookup name (t, lt, rt))"
    using assms
    by (intro prim_lookup_rule)
      (auto simp: snodes_descend_left snodes_descend_right simp del: snodes.simps
        intro: path_bounds_descend_left path_bounds_descend_right inord)
  then show "path_bounds name (ipc_splay_prim_lookup name (t, lt, rt))"
    and "splay_stopped name (ipc_splay_prim_lookup name (t, lt, rt))"
    by simp_all
qed

section \<open>The invariant, and what each operation does to the entries\<close>

text \<open>
  The entries of a splay structure in symmetric order, and its invariant: names strictly
  increasing, and the middle tree, the left and the right path as the splay for \<open>ist_name\<close>
  leaves them.  Every operation relies on the second half when it skips the splay because
  \<open>ist_name\<close> is already the name it wants.
\<close>

definition splay_nodes :: "'e ipc_splay_tree \<Rightarrow> 'e node list" where
  "splay_nodes s =
     (if ist_root s = Leaf then [] else snodes (ist_root s, ist_ltree s, ist_rtree s))"

definition splay_inv :: "'e ipc_splay_tree \<Rightarrow> bool" where
  "splay_inv s \<longleftrightarrow> ist_root s = Leaf \<or>
     (let u = (ist_root s, ist_ltree s, ist_rtree s)
      in ordered (snodes u) \<and> path_bounds (ist_name s) u \<and> splay_stopped (ist_name s) u)"

abbreviation splay_dom :: "'e ipc_splay_tree \<Rightarrow> mach_port_name_t set" where
  "splay_dom s \<equiv> fst ` set (splay_nodes s)"

lemma ordered_splay_nodes: "splay_inv s \<Longrightarrow> ordered (splay_nodes s)"
  by (auto simp: splay_inv_def splay_nodes_def Let_def)

lemma splay_at_spec:
  assumes "splay_inv s" "ist_root s \<noteq> Leaf" "splay_at name s = u"
  shows "snodes u = splay_nodes s" and "ordered (snodes u)" and "path_bounds name u"
    and "splay_stopped name u"
proof -
  let ?u = "(ist_root s, ist_ltree s, ist_rtree s)"
  let ?t = "ipc_splay_prim_assemble (ist_root s) (ist_ltree s) (ist_rtree s)"
  have inv: "ordered (snodes ?u)" "path_bounds (ist_name s) ?u" "splay_stopped (ist_name s) ?u"
    using assms(1,2) by (simp_all add: splay_inv_def Let_def)
  have nodes: "splay_nodes s = snodes ?u"
    using assms(2) by (simp add: splay_nodes_def)
  have asm: "?t \<noteq> Leaf" "snodes (?t, [], []) = snodes ?u" "path_bounds name (?t, [], [])"
    using inorder_assemble [OF assms(2), of "ist_ltree s" "ist_rtree s"]
    by (simp_all add: path_bounds_def ipc_splay_prim_assemble_def)
  show "snodes u = splay_nodes s"
    using assms(3) nodes asm by (auto simp: splay_at_def snodes_prim_lookup split: if_splits)
  then show "ordered (snodes u)" using inv nodes by simp
  show "path_bounds name u" "splay_stopped name u"
    using assms(3) inv asm prim_lookup_bounds [of ?t "[]" "[]" name]
    by (auto simp: splay_at_def split: if_splits)
qed

lemma stopped_filter:
  assumes "ordered (snodes (t, lt, rt))" "path_bounds name (t, lt, rt)"
    "splay_stopped name (t, lt, rt)"
  shows "[x\<leftarrow>snodes (t, lt, rt). fst x < name] =
           lnodes lt @ inorder (left t) @ (if ite_name t < name then [value t] else [])"
    and "[x\<leftarrow>snodes (t, lt, rt). name < fst x] =
           (if name < ite_name t then [value t] else []) @ inorder (right t) @ rnodes rt"
    and "name \<in> fst ` set (snodes (t, lt, rt)) \<longleftrightarrow> ite_name t = name"
proof -
  obtain l a r where t: "t = Node l a r"
    using assms(3) by (cases t) (auto simp: splay_stopped_def)
  have l: "\<forall>x\<in>set (lnodes lt). fst x < name \<and> fst x < fst a"
    and r: "\<forall>x\<in>set (rnodes rt). name < fst x \<and> fst a < fst x"
    and il: "\<forall>x\<in>set (inorder l). fst x < fst a" and ir: "\<forall>x\<in>set (inorder r). fst a < fst x"
    using assms(1,2) t by (auto simp: path_bounds_def sorted_wrt_append)
  have s: "name < fst a \<longrightarrow> l = Leaf" "fst a < name \<longrightarrow> r = Leaf"
    using assms(3) t by (auto simp: splay_stopped_def)
  have fl: "filter (\<lambda>x. fst x < name) (lnodes lt) = lnodes lt"
      "filter (\<lambda>x. name < fst x) (lnodes lt) = []"
      "filter (\<lambda>x. fst x < name) (rnodes rt) = []"
      "filter (\<lambda>x. name < fst x) (rnodes rt) = rnodes rt"
    using l r by (auto simp: filter_id_conv filter_empty_conv dest: less_asym)
  have ia: "filter (\<lambda>x. fst x < name) (inorder l) = inorder l" "filter (\<lambda>x. name < fst x) (inorder l) = []"
    if "\<not> name < fst a" using that il by (auto simp: filter_id_conv filter_empty_conv dest: less_trans)
  have ib: "filter (\<lambda>x. name < fst x) (inorder r) = inorder r" "filter (\<lambda>x. fst x < name) (inorder r) = []"
    if "\<not> fst a < name" using that ir by (auto simp: filter_id_conv filter_empty_conv)
  show "[x\<leftarrow>snodes (t, lt, rt). fst x < name] =
           lnodes lt @ inorder (left t) @ (if ite_name t < name then [value t] else [])"
    using s fl ia ib by (cases name "fst a" rule: linorder_cases) (simp_all add: t)
  show "[x\<leftarrow>snodes (t, lt, rt). name < fst x] =
           (if name < ite_name t then [value t] else []) @ inorder (right t) @ rnodes rt"
    using s fl ia ib by (cases name "fst a" rule: linorder_cases) (simp_all add: t)
  show "name \<in> fst ` set (snodes (t, lt, rt)) \<longleftrightarrow> ite_name t = name"
    using l r il ir s 
    by (cases name "fst a" rule: linorder_cases) (auto simp: t)
qed

text \<open>A structure built around one fresh root satisfies the invariant once its nodes are ordered.\<close>

lemma splay_inv_single_root:
  assumes "ordered (inorder root)"
  shows "splay_inv (s\<lparr>ist_root := root, ist_name := ite_name root, ist_ltree := [], ist_rtree := []\<rparr>)"
    and "splay_nodes (s\<lparr>ist_root := root, ist_name := n, ist_ltree := [], ist_rtree := []\<rparr>) =
      inorder root"
  using assms
  by (auto simp: splay_inv_def splay_nodes_def path_bounds_def splay_stopped_def Let_def)

lemma fill_left_Leaf_iff [simp]: "fill_left lt t = Leaf \<longleftrightarrow> lt = [] \<and> t = Leaf"
  by (induction lt t rule: fill_left.induct) auto

lemma fill_right_Leaf_iff [simp]: "fill_right rt t = Leaf \<longleftrightarrow> rt = [] \<and> t = Leaf"
  by (induction rt t rule: fill_right.induct) auto

lemma splay_rooted:
  assumes "ordered (inorder root)"
    and "s' = (if root \<noteq> Leaf
      then s\<lparr>ist_root := root, ist_name := ite_name root, ist_ltree := [], ist_rtree := []\<rparr>
      else s\<lparr>ist_root := root\<rparr>)"
  shows "splay_inv s' \<and> splay_nodes s' = inorder root"
  using splay_inv_single_root [OF assms(1), where s = s] assms(2)
  by (auto simp: splay_inv_def splay_nodes_def)

lemma ordered_filter_neq:
  "ordered xs \<Longrightarrow> [x\<leftarrow>xs. fst x \<noteq> n] = [x\<leftarrow>xs. fst x < n] @ [x\<leftarrow>xs. n < fst x]"
proof (induction xs)
  case (Cons x xs)
  then have "[x\<leftarrow>xs. fst x < n] = []" if "n < fst x"
    using that by (force simp: filter_empty_conv)
  moreover have "[x\<leftarrow>xs. fst x < n] = []" "[x\<leftarrow>xs. n < fst x] = xs" if "n = fst x"
    using that Cons.prems by (auto simp: filter_empty_conv filter_id_conv dest: less_asym)
  ultimately show ?case
    using Cons by (cases "fst x" n rule: linorder_cases) auto
qed simp

lemma splay_nodes_Leaf [simp]: "ist_root s = Leaf \<Longrightarrow> splay_nodes s = []"
  by (simp add: splay_nodes_def)

lemma splay_inv_Leaf [simp]: "ist_root s = Leaf \<Longrightarrow> splay_inv s"
  by (simp add: splay_inv_def)

lemma splay_nodes_not_Leaf: "ist_root s \<noteq> Leaf \<Longrightarrow> splay_nodes s \<noteq> []"
  by (cases "ist_root s") (auto simp: splay_nodes_def)

lemma map_of_ordered:
  "ordered xs \<Longrightarrow> map_of xs k = Some v \<longleftrightarrow> (k, v) \<in> set xs"
  by (rule map_of_eq_Some_iff) (simp add: strict_sorted_iff)

lemma init_spec [simp]: "splay_nodes (ipc_splay_tree_init s) = []" "splay_inv (ipc_splay_tree_init s)"
  by (simp_all add: ipc_splay_tree_init_def)

lemma pick_spec:
  "ipc_splay_tree_pick s = None \<longleftrightarrow> splay_nodes s = []"
  "ipc_splay_tree_pick s = Some x \<Longrightarrow> x \<in> set (splay_nodes s)"
  using splay_nodes_not_Leaf [of s]
  by (cases "ist_root s"; auto simp: ipc_splay_tree_pick_def splay_nodes_def)+

lemma stored_splay_at:
  assumes "splay_inv s" "ist_root s \<noteq> Leaf" "splay_at name s = (root, lt, rt)"
  defines "s' \<equiv> s\<lparr>ist_name := name, ist_root := root, ist_ltree := lt, ist_rtree := rt\<rparr>"
  shows "splay_inv s'" and "splay_nodes s' = splay_nodes s"
  using splay_at_spec [OF assms(1-3)]
  by (auto simp: s'_def splay_inv_def splay_nodes_def Let_def splay_stopped_def)

lemma lookup_spec:
  assumes "splay_inv s" "ipc_splay_tree_lookup s name = (res, s')"
  shows "res = map_of (splay_nodes s) name" and "splay_nodes s' = splay_nodes s" and "splay_inv s'"
proof -
  have "res = map_of (splay_nodes s) name \<and> splay_nodes s' = splay_nodes s \<and> splay_inv s'"
  proof (cases "ist_root s = Leaf")
    case True
    then show ?thesis using assms by (simp add: ipc_splay_tree_lookup_def)
  next
    case False
    obtain root lt rt where u: "splay_at name s = (root, lt, rt)" by (cases "splay_at name s")
    note spec = splay_at_spec [OF assms(1) False u]
    have "(if name \<noteq> ite_name root then None else Some (snd (value root))) =
        map_of (splay_nodes s) name"
    proof (cases "name = ite_name root")
      case True
      have "root \<noteq> Leaf" using spec(4) by (simp add: splay_stopped_def)
      then have "value root \<in> set (splay_nodes s)"
        by (cases root) (auto simp: spec(1) [symmetric])
      then have "map_of (splay_nodes s) name = Some (snd (value root))"
        using True ordered_splay_nodes [OF assms(1)] by (simp add: map_of_ordered)
      then show ?thesis using True by simp
    next
      case False
      then show ?thesis
        using stopped_filter(3) [OF spec(2-4), unfolded spec(1)]
        by (metis map_of_eq_None_iff)
    qed
    then show ?thesis
      using assms(2) False u stored_splay_at [OF assms(1) False u]
      by (auto simp: ipc_splay_tree_lookup_def)
  qed
  then show "res = map_of (splay_nodes s) name" and "splay_nodes s' = splay_nodes s" and "splay_inv s'"
    by simp_all
qed

lemma insert_spec:
  assumes "splay_inv s" "name \<notin> splay_dom s"
  shows "splay_nodes (ipc_splay_tree_insert s name entry) =
      [x\<leftarrow>splay_nodes s. fst x < name] @ (name, entry) # [x\<leftarrow>splay_nodes s. name < fst x]"
    and "splay_inv (ipc_splay_tree_insert s name entry)"
proof -
  let ?t = "ist_root (ipc_splay_tree_insert s name entry)"
  let ?ns = "[x\<leftarrow>splay_nodes s. fst x < name] @ (name, entry) # [x\<leftarrow>splay_nodes s. name < fst x]"
  have t: "inorder ?t = ?ns \<and> ite_name ?t = name"
  proof (cases "ist_root s = Leaf")
    case True
    then show ?thesis by (simp add: ipc_splay_tree_insert_def)
  next
    case False
    obtain root lt rt where u: "splay_at name s = (root, lt, rt)" by (cases "splay_at name s")
    note spec = splay_at_spec [OF assms(1) False u]
    have ne: "ite_name root \<noteq> name" using stopped_filter(3) [OF spec(2-4), unfolded spec(1)] assms(2) by simp
    obtain l a r where root: "root = Node l a r" using spec(4) by (cases root) (auto simp: splay_stopped_def)
    note f = stopped_filter(1,2) [OF spec(2-4), unfolded spec(1)]
    show ?thesis
      using False u ne spec(4) root
      by (cases "name < ite_name root")
        (auto simp: ipc_splay_tree_insert_def f splay_stopped_def not_less_iff_gr_or_eq)
  qed
  have o: "ordered ?ns"
    using ordered_splay_nodes [OF assms(1)]
    by (auto simp: sorted_wrt_append sorted_wrt_map sorted_wrt_filter intro: less_trans)
  have eq: "ipc_splay_tree_insert s name entry =
      s\<lparr>ist_root := ?t, ist_name := ite_name ?t, ist_ltree := [], ist_rtree := []\<rparr>"
    using t by (auto simp: ipc_splay_tree_insert_def Let_def split: prod.splits)
  show "splay_nodes (ipc_splay_tree_insert s name entry) = ?ns"
    by (subst eq, subst splay_inv_single_root(2)) (use t o in simp_all)
  show "splay_inv (ipc_splay_tree_insert s name entry)"
    by (subst eq, rule splay_inv_single_root(1)) (use t o in simp)
qed

lemma MACH_PORT_extremes [simp]:
  "n \<le> MACH_PORT_LARGEST" "\<not> MACH_PORT_LARGEST < n"
  "MACH_PORT_SMALLEST \<le> n" "\<not> n < MACH_PORT_SMALLEST"
  by (simp_all add: MACH_PORT_LARGEST_def MACH_PORT_SMALLEST_def not_less)

text \<open>
  Splaying at the largest (smallest) name leaves the greatest (least) node as the root of the
  assembled tree, with no right (left) child: the assertion of \<open>ipc_splay_tree_delete\<close>,
  \<open>ipc_splay_tree_join\<close> and \<open>ipc_splay_traverse_next\<close>.
\<close>

lemma path_bounds_extreme:
  "path_bounds MACH_PORT_LARGEST (t, lt, rt) \<Longrightarrow> rt = []"
  "path_bounds MACH_PORT_SMALLEST (t, lt, rt) \<Longrightarrow> lt = []"
proof -
  show "rt = []" if "path_bounds MACH_PORT_LARGEST (t, lt, rt)"
    using that by (cases rt rule: rnodes.cases) (auto simp: path_bounds_def)
  show "lt = []" if "path_bounds MACH_PORT_SMALLEST (t, lt, rt)"
    using that by (cases lt rule: lnodes.cases) (auto simp: path_bounds_def)
qed

lemma splay_largest:
  assumes "t \<noteq> Leaf" "ordered (inorder t)"
    "ipc_splay_prim_lookup MACH_PORT_LARGEST (t, [], []) = (root, lt, rt)"
  shows "right (ipc_splay_prim_assemble root lt rt) = Leaf"
    and "inorder (ipc_splay_prim_assemble root lt rt) = inorder t"
proof -
  have start: "ordered (snodes (t, [], []))" "path_bounds MACH_PORT_LARGEST (t, [], [])"
    using assms(2) by (simp_all add: path_bounds_def)
  note b = prim_lookup_bounds [OF assms(1) start, unfolded assms(3)]
  have n: "snodes (root, lt, rt) = inorder t"
    using snodes_prim_lookup [OF assms(1), of MACH_PORT_LARGEST "[]" "[]"] assms(3) by simp
  have rt: "rt = []" using path_bounds_extreme(1) [OF b(1)] .
  obtain l a r where root: "root = Node l a r" using b(2) by (cases root) (auto simp: splay_stopped_def)
  have "r = Leaf"
  proof (rule ccontr)
    assume r: "r \<noteq> Leaf"
    then have "\<not> fst a < MACH_PORT_LARGEST" using b(2) root by (auto simp: splay_stopped_def)
    moreover obtain x where "x \<in> set (inorder r)" using r by (cases r) auto
    moreover have "ordered (snodes (root, lt, rt))" using n assms(2) by simp
    ultimately have "fst a < fst x \<and> \<not> fst a < MACH_PORT_LARGEST"
      using root by (auto simp: sorted_wrt_append)
    then show False by (meson MACH_PORT_extremes(1) less_le_trans)
  qed
  then show "right (ipc_splay_prim_assemble root lt rt) = Leaf"
    using rt root by (simp add: ipc_splay_prim_assemble_def)
  show "inorder (ipc_splay_prim_assemble root lt rt) = inorder t"
    using n inorder_assemble [of root lt rt] root by simp
qed

lemma delete_spec:
  assumes "splay_inv s" "name \<in> splay_dom s"
  shows "splay_nodes (ipc_splay_tree_delete s name) = [x\<leftarrow>splay_nodes s. fst x \<noteq> name]"
    and "splay_inv (ipc_splay_tree_delete s name)"
proof -
  have ne: "ist_root s \<noteq> Leaf" using assms(2) by auto
  obtain root lt rt where u: "splay_at name s = (root, lt, rt)" by (cases "splay_at name s")
  note spec = splay_at_spec [OF assms(1) ne u]
  have name: "ite_name root = name" using stopped_filter(3) [OF spec(2-4), unfolded spec(1)] assms(2) by simp
  note f = stopped_filter(1,2) [OF spec(2-4), unfolded spec(1) name, simplified]
  let ?l = "fill_left lt (left root)" and ?r = "fill_right rt (right root)"
  let ?t = "ist_root (ipc_splay_tree_delete s name)"
  have il: "inorder ?l = [x\<leftarrow>splay_nodes s. fst x < name]" and ir: "inorder ?r = [x\<leftarrow>splay_nodes s. name < fst x]"
    using f by simp_all
  have fl: "[x\<leftarrow>splay_nodes s. fst x \<noteq> name] =
      [x\<leftarrow>splay_nodes s. fst x < name] @ [x\<leftarrow>splay_nodes s. name < fst x]"
    using ordered_filter_neq [OF ordered_splay_nodes [OF assms(1)]] .
  have o: "ordered (inorder ?l)" unfolding il
    using ordered_splay_nodes [OF assms(1)] by (simp add: sorted_wrt_map sorted_wrt_filter)
  have t: "inorder ?t = inorder ?l @ inorder ?r"
  proof (cases "?l = Leaf \<or> ?r = Leaf")
    case True
    then show ?thesis
      using u by (auto simp: ipc_splay_tree_delete_def Let_def)
  next
    case False
    obtain root2 lt2 rt2 where v: "ipc_splay_prim_lookup MACH_PORT_LARGEST (?l, [], []) = (root2, lt2, rt2)"
      by (cases "ipc_splay_prim_lookup MACH_PORT_LARGEST (?l, [], [])")
    note sl = splay_largest [OF _ o v]
    show ?thesis
      using u v False sl
      by (simp add: ipc_splay_tree_delete_def Let_def) (auto simp: ipc_splay_prim_assemble_def)
  qed
  have eq: "ipc_splay_tree_delete s name =
      (if ?t \<noteq> Leaf then s\<lparr>ist_root := ?t, ist_name := ite_name ?t, ist_ltree := [], ist_rtree := []\<rparr>
       else s\<lparr>ist_root := ?t\<rparr>)"
    using u by (simp add: ipc_splay_tree_delete_def Let_def split: prod.splits)
  have "ordered (inorder ?t)" unfolding t il ir fl [symmetric]
    using ordered_splay_nodes [OF assms(1)] by (simp add: sorted_wrt_map sorted_wrt_filter)
  from splay_rooted [OF this eq]
  show "splay_nodes (ipc_splay_tree_delete s name) = [x\<leftarrow>splay_nodes s. fst x \<noteq> name]"
    and "splay_inv (ipc_splay_tree_delete s name)"
    unfolding t il ir fl by simp_all
qed

lemma ordered_middle:
  "ordered (xs @ a # ys) \<Longrightarrow> (\<forall>x\<in>set xs. fst x < fst a) \<and> (\<forall>y\<in>set ys. fst a < fst y)"
  by (simp add: sorted_wrt_append)

lemma stopped_filter_ge:
  assumes "ordered (snodes (t, lt, rt))" "path_bounds name (t, lt, rt)"
    "splay_stopped name (t, lt, rt)"
  shows "[x\<leftarrow>snodes (t, lt, rt). name \<le> fst x] =
           (if name \<le> ite_name t then [value t] else []) @ inorder (right t) @ rnodes rt"
proof (cases "ite_name t = name")
  case True
  obtain l a r where t: "t = Node l a r"
    using assms(3) by (cases t) (auto simp: splay_stopped_def)
  have "\<forall>x\<in>set (lnodes lt @ inorder l). fst x < name"
    "\<forall>x\<in>set (inorder r @ rnodes rt). name < fst x"
    using ordered_middle [of "lnodes lt @ inorder l" a "inorder r @ rnodes rt"] assms(1) True t
    by simp_all
  then have "[x\<leftarrow>lnodes lt @ inorder l. name \<le> fst x] = []"
    "[x\<leftarrow>inorder r @ rnodes rt. name \<le> fst x] = inorder r @ rnodes rt"
    by (auto simp del: filter_append simp: filter_empty_conv filter_id_conv not_le less_imp_le)
  then show ?thesis using True t by simp
next
  case False
  then have "name \<notin> fst ` set (snodes (t, lt, rt))" using stopped_filter(3) [OF assms] by simp
  then have "[x\<leftarrow>snodes (t, lt, rt). name \<le> fst x] = [x\<leftarrow>snodes (t, lt, rt). name < fst x]"
    by (intro filter_cong) (auto simp: le_less)
  then show ?thesis using stopped_filter(2) [OF assms] False by (simp add: le_less)
qed

lemma split_spec:
  assumes "splay_inv s" "ipc_splay_tree_split s name small0 = (s', small)"
  shows "splay_nodes s' = [x\<leftarrow>splay_nodes s. name \<le> fst x]" and "splay_inv s'"
    and "splay_nodes small = [x\<leftarrow>splay_nodes s. fst x < name]" and "splay_inv small"
proof -
  let ?P = "splay_nodes s' = [x\<leftarrow>splay_nodes s. name \<le> fst x] \<and> splay_inv s' \<and>
    splay_nodes small = [x\<leftarrow>splay_nodes s. fst x < name] \<and> splay_inv small"
  have ?P
  proof (cases "ist_root s = Leaf")
    case True
    then show ?thesis using assms by (auto simp: ipc_splay_tree_split_def)
  next
    case False
    obtain root lt rt where u: "splay_at name s = (root, lt, rt)" by (cases "splay_at name s")
    note spec = splay_at_spec [OF assms(1) False u]
    obtain l a r where root: "root = Node l a r"
      using spec(4) by (cases root) (auto simp: splay_stopped_def)
    note f = stopped_filter(1) [OF spec(2-4), unfolded spec(1)]
      stopped_filter_ge [OF spec(2-4), unfolded spec(1)]
    have o: "ordered [x\<leftarrow>splay_nodes s. P x]" for P
      using ordered_splay_nodes [OF assms(1)] by (simp add: sorted_wrt_map sorted_wrt_filter)
    show ?thesis
    proof (cases "ite_name root < name")
      case True
      let ?sm = "Node (fill_left lt l) a r" and ?big = "fill_right rt Leaf"
      have r: "r = Leaf" using spec(4) True root by (simp add: splay_stopped_def)
      have sm: "inorder ?sm = [x\<leftarrow>splay_nodes s. fst x < name]"
        and big: "inorder ?big = [x\<leftarrow>splay_nodes s. name \<le> fst x]"
        using f True root r by simp_all
      have "ordered (inorder ?sm)" "ordered (inorder ?big)" unfolding sm big by (rule o)+
      note rooted = splay_rooted [OF this(1), of small "ipc_splay_tree_init small0"]
        splay_rooted [OF this(2), of s' s]
      show ?thesis
        using rooted sm big assms(2) False u True root
        by (simp add: ipc_splay_tree_split_def Let_def)
    next
      case ge: False
      let ?sm = "fill_left lt l"
      have sm: "inorder ?sm = [x\<leftarrow>splay_nodes s. fst x < name]" using f ge root by simp
      have s': "s' = s\<lparr>ist_root := Node Leaf a r, ist_name := name, ist_ltree := [], ist_rtree := rt\<rparr>"
        using assms(2) False u ge root by (simp add: ipc_splay_tree_split_def Let_def)
      have big: "splay_nodes s' = [x\<leftarrow>splay_nodes s. name \<le> fst x]"
        using f ge root by (simp add: s' splay_nodes_def not_less)
      moreover have "splay_inv s'"
      proof -
        have "ordered (splay_nodes s')" unfolding big by (rule o)
        moreover have "path_bounds name (Node Leaf a r, [], rt)"
          "splay_stopped name (Node Leaf a r, [], rt)"
          using spec(3,4) root by (simp_all add: path_bounds_def splay_stopped_def)
        ultimately show ?thesis by (simp add: s' splay_nodes_def splay_inv_def)
      qed
      moreover have osm: "ordered (inorder ?sm)" unfolding sm by (rule o)
      have "splay_inv small \<and> splay_nodes small = inorder ?sm"
        using assms(2) False u ge root
        by (intro splay_rooted [OF osm, where s = "ipc_splay_tree_init small0"])
          (simp add: ipc_splay_tree_split_def Let_def)
      ultimately show ?thesis using sm by simp
    qed
  qed
  then show "splay_nodes s' = [x\<leftarrow>splay_nodes s. name \<le> fst x]" and "splay_inv s'"
    and "splay_nodes small = [x\<leftarrow>splay_nodes s. fst x < name]" and "splay_inv small"
    by blast+
qed

lemma splay_at_smallest:
  assumes "splay_inv s" "ist_root s \<noteq> Leaf" "splay_at MACH_PORT_SMALLEST s = (root, lt, rt)"
  shows "left (ipc_splay_prim_assemble root lt rt) = Leaf"
    and "inorder (ipc_splay_prim_assemble root lt rt) = splay_nodes s"
proof -
  note spec = splay_at_spec [OF assms]
  have lt: "lt = []" using path_bounds_extreme(2) [OF spec(3)] .
  obtain l a r where root: "root = Node l a r"
    using spec(4) by (cases root) (auto simp: splay_stopped_def)
  have "l = Leaf"
  proof (rule ccontr)
    assume l: "l \<noteq> Leaf"
    then have "\<not> MACH_PORT_SMALLEST < fst a" using spec(4) root by (auto simp: splay_stopped_def)
    moreover obtain x where "x \<in> set (inorder l)" using l by (cases l) auto
    ultimately have "fst x < fst a \<and> \<not> MACH_PORT_SMALLEST < fst a"
      using spec(2) root by (auto simp: sorted_wrt_append)
    then show False by (meson MACH_PORT_extremes(3) le_less_trans)
  qed
  then show "left (ipc_splay_prim_assemble root lt rt) = Leaf"
    using lt root by (simp add: ipc_splay_prim_assemble_def)
  show "inorder (ipc_splay_prim_assemble root lt rt) = splay_nodes s"
    using spec(1) inorder_assemble [of root lt rt] root by simp
qed

lemma join_spec:
  assumes "splay_inv s" "splay_inv small"
    and "\<forall>x\<in>splay_dom small. \<forall>y\<in>splay_dom s. x < y"
    and "ipc_splay_tree_join s small = (s', small')"
  shows "splay_nodes s' = splay_nodes small @ splay_nodes s" and "splay_inv s'"
    and "splay_nodes small' = []"
proof -
  let ?P = "splay_nodes s' = splay_nodes small @ splay_nodes s \<and> splay_inv s' \<and> splay_nodes small' = []"
  have o: "ordered (splay_nodes small @ splay_nodes s)"
    using ordered_splay_nodes [OF assms(1)] ordered_splay_nodes [OF assms(2)] assms(3)
    by (auto simp: sorted_wrt_append)
  have ?P
  proof (cases "ist_root small = Leaf")
    case True
    then show ?thesis using assms by (auto simp: ipc_splay_tree_join_def)
  next
    case False
    let ?sroot = "ipc_splay_prim_assemble (ist_root small) (ist_ltree small) (ist_rtree small)"
    have sroot: "inorder ?sroot = splay_nodes small" "?sroot \<noteq> Leaf"
      using inorder_assemble [OF False, of "ist_ltree small" "ist_rtree small"] False
      by (simp add: splay_nodes_def) (simp add: ipc_splay_prim_assemble_def)
    obtain root1 lt rt where u: "splay_at MACH_PORT_SMALLEST s = (root1, lt, rt)"
      by (cases "splay_at MACH_PORT_SMALLEST s")
    let ?root2 = "ipc_splay_prim_assemble root1 lt rt"
    let ?root = "if ist_root s = Leaf then ?sroot else Node ?sroot (value ?root2) (right ?root2)"
    have root: "inorder ?root = splay_nodes small @ splay_nodes s" "?root \<noteq> Leaf"
    proof -
      have "inorder (Node ?sroot (value ?root2) (right ?root2)) = splay_nodes small @ splay_nodes s"
        if "ist_root s \<noteq> Leaf"
        using splay_at_smallest [OF assms(1) that u] sroot(1)
        by (cases ?root2) (auto simp: ipc_splay_prim_assemble_def)
      then show "inorder ?root = splay_nodes small @ splay_nodes s" "?root \<noteq> Leaf"
        using sroot by simp_all
    qed
    have "s' = s\<lparr>ist_root := ?root, ist_name := ite_name ?root, ist_ltree := [], ist_rtree := []\<rparr>"
      "ist_root small' = Leaf"
      using assms(4) False u by (auto simp: ipc_splay_tree_join_def Let_def)
    then show ?thesis
      using splay_rooted [of ?root s' s] root o by simp
  qed
  then show "splay_nodes s' = splay_nodes small @ splay_nodes s" and "splay_inv s'"
    and "splay_nodes small' = []" by simp_all
qed

lemma ordered_middle_le:
  assumes "ordered (xs @ a # ys)"
  shows "\<forall>x\<in>fst ` set (xs @ [a]). x \<le> fst a" and "\<forall>y\<in>fst ` set (a # ys). fst a \<le> y"
  using ordered_middle [OF assms] by (auto simp: less_imp_le)

lemma stopped_members:
  assumes "ordered (snodes (t, lt, rt))" "path_bounds name (t, lt, rt)"
    "splay_stopped name (t, lt, rt)"
  shows "{x \<in> fst ` set (snodes (t, lt, rt)). x < name} =
           fst ` set (lnodes lt @ inorder (left t) @ (if ite_name t < name then [value t] else []))"
    and "{x \<in> fst ` set (snodes (t, lt, rt)). name < x} =
           fst ` set ((if name < ite_name t then [value t] else []) @ inorder (right t) @ rnodes rt)"
  unfolding stopped_filter(1,2) [OF assms, symmetric] by auto

text \<open>
  \<open>is_lower D name lo\<close>: \<open>lo\<close> is the largest element of \<open>D\<close> that is at most \<open>name\<close>, or
  \<open>MACH_PORT_LARGEST\<close> if there is none; \<open>is_upper\<close> is its mirror image.
\<close>

definition is_lower :: "mach_port_name_t set \<Rightarrow> mach_port_name_t \<Rightarrow> mach_port_name_t \<Rightarrow> bool" where
  "is_lower D name lo \<longleftrightarrow>
     (if \<exists>x\<in>D. x \<le> name then lo \<in> D \<and> lo \<le> name \<and> (\<forall>x\<in>D. x \<le> name \<longrightarrow> x \<le> lo)
      else lo = MACH_PORT_LARGEST)"

definition is_upper :: "mach_port_name_t set \<Rightarrow> mach_port_name_t \<Rightarrow> mach_port_name_t \<Rightarrow> bool" where
  "is_upper D name up \<longleftrightarrow>
     (if \<exists>x\<in>D. name \<le> x then up \<in> D \<and> name \<le> up \<and> (\<forall>x\<in>D. name \<le> x \<longrightarrow> up \<le> x)
      else up = MACH_PORT_SMALLEST)"

lemma is_lowerI:
  assumes "\<And>x. x \<in> D \<and> x \<le> name \<longleftrightarrow> x \<in> S" "\<forall>x\<in>S. x \<le> b" "b \<in> S"
  shows "is_lower D name b"
  unfolding is_lower_def using assms by metis

lemma is_upperI:
  assumes "\<And>x. x \<in> D \<and> name \<le> x \<longleftrightarrow> x \<in> S" "\<forall>x\<in>S. b \<le> x" "b \<in> S"
  shows "is_upper D name b"
  unfolding is_upper_def using assms by metis

lemma stopped_lower:
  assumes s: "ordered (snodes (t, lt, rt))" "path_bounds name (t, lt, rt)"
    "splay_stopped name (t, lt, rt)"
  shows "is_lower (fst ` set (snodes (t, lt, rt))) name
     (if ite_name t \<le> name then ite_name t
      else case lt of [] \<Rightarrow> MACH_PORT_LARGEST | (l, a) # _ \<Rightarrow> fst a)"
proof -
  let ?D = "fst ` set (snodes (t, lt, rt))"
  obtain l a r where t: "t = Node l a r"
    using s(3) by (cases t) (auto simp: splay_stopped_def)
  note mem = stopped_members(1) [OF s] stopped_filter(3) [OF s]
  show ?thesis
  proof (cases "ite_name t \<le> name")
    case True
    have "x \<le> fst a" if "x \<in> ?D" "x \<le> name" for x
    proof (cases "x = name")
      case True
      then show ?thesis using mem(2) that t by auto
    next
      case False
      then have "x \<in> fst ` set (lnodes lt @ inorder l) \<or> x = fst a"
        using mem(1) that t by (auto split: if_splits)
      moreover have "\<forall>x\<in>set (lnodes lt @ inorder l). fst x < fst a"
        using ordered_middle [of "lnodes lt @ inorder l" a "inorder r @ rnodes rt"] s(1) t by simp
      ultimately show ?thesis by (force intro: less_imp_le)
    qed
    moreover have "fst a \<in> ?D" using t by force
    ultimately show ?thesis using True t by (auto simp: is_lower_def)
  next
    case False
    have l: "l = Leaf" using s(3) False t by (simp add: splay_stopped_def not_le)
    have le: "x \<in> ?D \<and> x \<le> name \<longleftrightarrow> x \<in> fst ` set (lnodes lt)" for x
      using mem False t l by (auto simp: set_eq_iff le_less)
    show ?thesis
    proof (cases lt)
      case Nil
      then show ?thesis using le False by (auto simp: is_lower_def)
    next
      case (Cons p c)
      obtain l' b where p: "p = (l', b)" by (cases p)
      have "\<forall>x\<in>fst ` set (lnodes lt). x \<le> fst b"
        using ordered_middle_le(1) [of "lnodes c @ inorder l'" b "inorder t @ rnodes rt"] s(1) Cons p
        by (simp add: Un_ac)
      moreover have "fst b \<in> fst ` set (lnodes lt)" using Cons p by simp
      ultimately show ?thesis using is_lowerI [OF le] False Cons p by simp
    qed
  qed
qed


lemma stopped_upper:
  assumes s: "ordered (snodes (t, lt, rt))" "path_bounds name (t, lt, rt)"
    "splay_stopped name (t, lt, rt)"
  shows "is_upper (fst ` set (snodes (t, lt, rt))) name
     (if ite_name t \<ge> name then ite_name t
      else case rt of [] \<Rightarrow> MACH_PORT_SMALLEST | (a, r) # _ \<Rightarrow> fst a)"
proof -
  let ?D = "fst ` set (snodes (t, lt, rt))"
  obtain l a r where t: "t = Node l a r"
    using s(3) by (cases t) (auto simp: splay_stopped_def)
  note mem = stopped_members(2) [OF s] stopped_filter(3) [OF s]
  show ?thesis
  proof (cases "ite_name t \<ge> name")
    case True
    have "fst a \<le> x" if "x \<in> ?D" "name \<le> x" for x
    proof (cases "x = name")
      case True
      then show ?thesis using mem(2) that t by auto
    next
      case False
      then have "x \<in> fst ` set (inorder r @ rnodes rt) \<or> x = fst a"
        using mem(1) that t by (auto split: if_splits)
      moreover have "\<forall>x\<in>set (inorder r @ rnodes rt). fst a < fst x"
        using ordered_middle [of "lnodes lt @ inorder l" a "inorder r @ rnodes rt"] s(1) t by simp
      ultimately show ?thesis by (force intro: less_imp_le)
    qed
    moreover have "fst a \<in> ?D" using t by force
    ultimately show ?thesis using True t by (auto simp: is_upper_def)
  next
    case False
    have r: "r = Leaf" using s(3) False t by (simp add: splay_stopped_def not_le)
    have le: "x \<in> ?D \<and> name \<le> x \<longleftrightarrow> x \<in> fst ` set (rnodes rt)" for x
      using mem False t r by (auto simp: set_eq_iff le_less)
    show ?thesis
    proof (cases rt)
      case Nil
      then show ?thesis using le False by (auto simp: is_upper_def)
    next
      case (Cons p c)
      obtain b r' where p: "p = (b, r')" by (cases p)
      have "\<forall>x\<in>fst ` set (rnodes rt). fst b \<le> x"
        using ordered_middle_le(2) [of "lnodes lt @ inorder t" b "inorder r' @ rnodes c"] s(1) Cons p
        by (simp add: Un_ac)
      moreover have "fst b \<in> fst ` set (rnodes rt)" using Cons p by simp
      ultimately show ?thesis using is_upperI [OF le] False Cons p by simp
    qed
  qed
qed

lemma bounds_spec:
  assumes "splay_inv s" "ipc_splay_tree_bounds s name = ((lower, upper), s')"
  shows "is_lower (splay_dom s) name lower" and "is_upper (splay_dom s) name upper"
    and "splay_nodes s' = splay_nodes s" and "splay_inv s'"
proof -
  have "is_lower (splay_dom s) name lower \<and> is_upper (splay_dom s) name upper \<and>
    splay_nodes s' = splay_nodes s \<and> splay_inv s'"
  proof (cases "ist_root s = Leaf")
    case True
    then show ?thesis
      using assms by (auto simp: ipc_splay_tree_bounds_def is_lower_def is_upper_def)
  next
    case False
    obtain root lt rt where u: "splay_at name s = (root, lt, rt)" by (cases "splay_at name s")
    note spec = splay_at_spec [OF assms(1) False u]
    have "(lower, upper) =
       (if ite_name root \<le> name then ite_name root
        else case lt of [] \<Rightarrow> MACH_PORT_LARGEST | (l, a) # _ \<Rightarrow> fst a,
        if ite_name root \<ge> name then ite_name root
        else case rt of [] \<Rightarrow> MACH_PORT_SMALLEST | (a, r) # _ \<Rightarrow> fst a)"
      "s' = s\<lparr>ist_name := name, ist_root := root, ist_ltree := lt, ist_rtree := rt\<rparr>"
      using assms(2) False u by (simp_all add: ipc_splay_tree_bounds_def Let_def)
    then show ?thesis
      using stopped_lower [OF spec(2-4), unfolded spec(1)]
        stopped_upper [OF spec(2-4), unfolded spec(1)] stored_splay_at [OF assms(1) False u]
      by simp
  qed
  then show "is_lower (splay_dom s) name lower" and "is_upper (splay_dom s) name upper"
    and "splay_nodes s' = splay_nodes s" and "splay_inv s'" by simp_all
qed

end
