(* ===== verification/Ipc_Traverse.thy ===== *)
theory Ipc_Traverse
  imports Ipc_Splay
begin

text \<open>
  The symmetric-order traversal of \<open>osfmk/ipc/ipc_splay.c\<close>, \<open>ipc_splay_traverse_start\<close>,
  \<open>_next\<close> and \<open>_finish\<close>.  The code walks the tree without a stack by reversing child pointers
  on the way down: \<open>ist_ltree\<close> holds the current entry and \<open>ist_rtree\<close> the chain of its
  parents, and on the way up the name order tells which child field of the parent was reversed.

  The chain of parents is a list of frames, innermost first: \<open>Via_l a r\<close> for a node left
  through its \<open>lchild\<close>, \<open>Via_r l a\<close> for one left through its \<open>rchild\<close>.  Reading the wrong
  field would corrupt the tree; it is the value \<open>None\<close>.
\<close>

section \<open>The traversal as a state machine\<close>

datatype 'e frame = Via_l "'e node" "'e node tree" | Via_r "'e node tree" "'e node"

text \<open>What a call returns: the current entry and its chain of parents, or \<open>ITE_NULL\<close> and the root.\<close>

datatype 'e visit = Visit "'e node tree" "'e frame list" | Finished "'e node tree"

fun traverse_left :: "'e node tree \<Rightarrow> 'e frame list \<Rightarrow> 'e visit option" where
  "traverse_left Leaf parent = None"
| "traverse_left (Node l a r) parent =
     (if l \<noteq> Leaf then traverse_left l (Via_l a r # parent) else Some (Visit (Node l a r) parent))"

fun traverse_back :: "'e node tree \<Rightarrow> 'e frame list \<Rightarrow> 'e visit option" where
  "traverse_back current [] = Some (Finished current)"
| "traverse_back current (Via_l a r # parent) =
     (if ite_name current < fst a then Some (Visit (Node current a r) parent) else None)"
| "traverse_back current (Via_r l a # parent) =
     (if ite_name current < fst a then None else traverse_back (Node l a current) parent)"

definition traverse_right :: "'e node tree \<Rightarrow> 'e frame list \<Rightarrow> 'e visit option" where
  "traverse_right current parent =
     (if right current \<noteq> Leaf
      then traverse_left (right current) (Via_r (left current) (value current) # parent)
      else traverse_back current parent)"

text \<open>The leaf that is deleted: like \<open>traverse_back\<close>, with the reversed field set to \<open>ITE_NULL\<close>.\<close>

fun traverse_back_deleted :: "'e node \<Rightarrow> 'e frame list \<Rightarrow> 'e visit option" where
  "traverse_back_deleted current [] = Some (Finished Leaf)"
| "traverse_back_deleted current (Via_l a r # parent) =
     (if fst current < fst a then Some (Visit (Node Leaf a r) parent) else None)"
| "traverse_back_deleted current (Via_r l a # parent) =
     (if fst current < fst a then None else traverse_back (Node l a Leaf) parent)"

definition traverse_delete :: "'e node tree \<Rightarrow> 'e frame list \<Rightarrow> 'e visit option" where
  "traverse_delete current parent =
     (if left current = Leaf then
        (if right current = Leaf then traverse_back_deleted (value current) parent
         else traverse_left (right current) parent)
      else if right current = Leaf then traverse_back (left current) parent
      else let (root, lt, rt) = ipc_splay_prim_lookup MACH_PORT_LARGEST (left current, [], []);
               root1 = ipc_splay_prim_assemble root lt rt
           in traverse_right (Node (left root1) (value root1) (right current)) parent)"

definition ipc_splay_traverse_start :: "'e ipc_splay_tree \<Rightarrow> 'e visit option" where
  "ipc_splay_traverse_start splay =
     (if ist_root splay = Leaf then Some (Finished Leaf)
      else traverse_left
             (ipc_splay_prim_assemble (ist_root splay) (ist_ltree splay) (ist_rtree splay)) [])"

definition ipc_splay_traverse_next :: "'e node tree \<Rightarrow> 'e frame list \<Rightarrow> bool \<Rightarrow> 'e visit option" where
  "ipc_splay_traverse_next current parent del =
     (if current = Leaf then None
      else if \<not> del then traverse_right current parent
      else traverse_delete current parent)"

definition ipc_splay_traverse_finish :: "'e ipc_splay_tree \<Rightarrow> 'e node tree \<Rightarrow> 'e ipc_splay_tree" where
  "ipc_splay_traverse_finish splay root =
     (if root \<noteq> Leaf
      then splay\<lparr>ist_root := root, ist_name := ite_name root, ist_ltree := [], ist_rtree := []\<rparr>
      else splay\<lparr>ist_root := root\<rparr>)"

text \<open>
  The loop the routines are documented to be used in.  The body of the loop reads an entry and a
  state, and answers whether the entry is to be deleted.  Whether the loop ends is a theorem.
\<close>

partial_function (option) traverse_loop ::
  "('e node \<Rightarrow> 's \<Rightarrow> bool \<times> 's) \<Rightarrow> 'e visit \<Rightarrow> 's \<Rightarrow> ('s \<times> 'e node tree) option" where
  "traverse_loop body v s =
     (case v of
        Finished root \<Rightarrow> Some (s, root)
      | Visit current parent \<Rightarrow>
          (case body (value current) s of (del, s1) \<Rightarrow>
             Option.bind (ipc_splay_traverse_next current parent del)
               (\<lambda>v1. traverse_loop body v1 s1)))"

definition ipc_splay_traverse ::
  "('e node \<Rightarrow> 's \<Rightarrow> bool \<times> 's) \<Rightarrow> 'e ipc_splay_tree \<Rightarrow> 's \<Rightarrow> ('s \<times> 'e ipc_splay_tree) option" where
  "ipc_splay_traverse body splay s =
     do { v \<leftarrow> ipc_splay_traverse_start splay;
          (s1, root) \<leftarrow> traverse_loop body v s;
          Some (s1, ipc_splay_traverse_finish splay root) }"

section \<open>Where the traversal stands\<close>

fun before :: "'e frame list \<Rightarrow> 'e node list" where
  "before [] = []"
| "before (Via_l a r # fs) = before fs"
| "before (Via_r l a # fs) = before fs @ inorder l @ [a]"

fun after :: "'e frame list \<Rightarrow> 'e node list" where
  "after [] = []"
| "after (Via_l a r # fs) = a # inorder r @ after fs"
| "after (Via_r l a # fs) = after fs"

text \<open>
  \<open>standing v old new\<close>: the traversal stands at \<open>v\<close>, with the nodes \<open>old\<close> of the tree behind
  it and the nodes \<open>new\<close> still to be visited, the current one first.
\<close>

definition standing :: "'e visit option \<Rightarrow> 'e node list \<Rightarrow> 'e node list \<Rightarrow> bool" where
  "standing v old new \<longleftrightarrow>
     (case v of
        None \<Rightarrow> False
      | Some (Finished root) \<Rightarrow> new = [] \<and> inorder root = old
      | Some (Visit current parent) \<Rightarrow>
          current \<noteq> Leaf \<and> before parent @ inorder (left current) = old \<and>
          value current # inorder (right current) @ after parent = new)"

lemma standing_left:
  assumes "t \<noteq> Leaf"
  shows "standing (traverse_left t fs) (before fs) (inorder t @ after fs)"
  using assms by (induction t fs rule: traverse_left.induct) (auto simp: standing_def)

lemma standing_back:
  assumes "t \<noteq> Leaf" "ordered (before fs @ inorder t @ after fs)"
  shows "standing (traverse_back t fs) (before fs @ inorder t) (after fs)"
  using assms
proof (induction t fs rule: traverse_back.induct)
  case (2 current a r parent)
  then have "ite_name current < fst a"
    by (cases current) (auto simp: sorted_wrt_append)
  then show ?case using 2 by (simp add: standing_def)
next
  case (3 current l a parent)
  then have "\<not> ite_name current < fst a"
    by (cases current) (auto simp: sorted_wrt_append not_less less_imp_le)
  then show ?case using 3 by simp
qed (simp add: standing_def)

lemma standing_right:
  assumes "t \<noteq> Leaf" "ordered (before fs @ inorder t @ after fs)"
  shows "standing (traverse_right t fs) (before fs @ inorder (left t) @ [value t])
           (inorder (right t) @ after fs)"
  using standing_left [of "right t" "Via_r (left t) (value t) # fs"] standing_back [OF assms] assms(1)
  by (cases t) (auto simp: traverse_right_def)

lemma standing_back_deleted:
  assumes "ordered (before fs @ a # after fs)"
  shows "standing (traverse_back_deleted a fs) (before fs) (after fs)"
proof (cases fs)
  case (Cons f gs)
  show ?thesis
  proof (cases f)
    case (Via_l b r)
    then show ?thesis using assms Cons by (auto simp: standing_def sorted_wrt_append)
  next
    case (Via_r l b)
    have "\<not> fst a < fst b" "ordered (before gs @ inorder (Node l b Leaf) @ after gs)"
      using assms Cons Via_r by (auto simp: sorted_wrt_append not_less less_imp_le)
    then show ?thesis using standing_back [of "Node l b Leaf" gs] Cons Via_r by simp
  qed
qed (simp add: standing_def)

lemma standing_delete:
  assumes "t \<noteq> Leaf" "ordered (before fs @ inorder t @ after fs)"
  shows "standing (traverse_delete t fs) (before fs @ inorder (left t)) (inorder (right t) @ after fs)"
proof -
  obtain l a r where t: "t = Node l a r" using assms(1) by (cases t) auto
  consider (leaf) "l = Leaf" "r = Leaf" | (right) "l = Leaf" "r \<noteq> Leaf"
    | (left) "l \<noteq> Leaf" "r = Leaf" | (both) "l \<noteq> Leaf" "r \<noteq> Leaf" by blast
  then show ?thesis
  proof cases
    case leaf
    then show ?thesis
      using standing_back_deleted [of fs a] assms(2) t by (simp add: traverse_delete_def)
  next
    case right
    then show ?thesis using standing_left [of r fs] t by (simp add: traverse_delete_def)
  next
    case left
    then show ?thesis
      using standing_back [of l fs] assms(2) t
      by (simp add: traverse_delete_def sorted_wrt_append)
  next
    case both
    obtain root lt rt where u: "ipc_splay_prim_lookup MACH_PORT_LARGEST (l, [], []) = (root, lt, rt)"
      by (cases "ipc_splay_prim_lookup MACH_PORT_LARGEST (l, [], [])")
    let ?root = "ipc_splay_prim_assemble root lt rt"
    have ord: "ordered (inorder l)" using assms(2) t by (simp add: sorted_wrt_append)
    note big = splay_largest [OF both(1) ord u]
    have nodes: "inorder (left ?root) @ [value ?root] = inorder l"
      using big by (cases ?root) (auto simp: ipc_splay_prim_assemble_def)
    have "ordered (before fs @ inorder l @ inorder r @ after fs)"
      using assms(2) t by (simp add: sorted_wrt_append)
    then have "ordered (before fs @ (inorder (left ?root) @ [value ?root]) @ inorder r @ after fs)"
      unfolding nodes .
    then have o: "ordered (before fs @ inorder (Node (left ?root) (value ?root) r) @ after fs)"
      by simp
    have "standing (traverse_right (Node (left ?root) (value ?root) r) fs)
        (before fs @ inorder l) (inorder r @ after fs)"
      using standing_right [OF _ o] nodes by simp
    then show ?thesis using both t u by (simp add: traverse_delete_def Let_def)
  qed
qed

lemma standing_next:
  assumes "standing (Some (Visit current parent)) old (x # new)" "ordered (old @ x # new)"
  shows "standing (ipc_splay_traverse_next current parent del) (if del then old else old @ [x]) new"
proof -
  have c: "current \<noteq> Leaf" "before parent @ inorder (left current) = old"
    "value current = x" "inorder (right current) @ after parent = new"
    using assms(1) by (auto simp: standing_def)
  then have "before parent @ inorder current @ after parent = old @ x # new"
    by (cases current) auto
  then have o: "ordered (before parent @ inorder current @ after parent)"
    using assms(2) by simp
  show ?thesis
    using standing_right [OF c(1) o] standing_delete [OF c(1) o] c
    by (auto simp: ipc_splay_traverse_next_def)
qed

text \<open>What the loop has to compute: the body run over the list of the nodes.\<close>

fun visit_nodes :: "('e node \<Rightarrow> 's \<Rightarrow> bool \<times> 's) \<Rightarrow> 'e node list \<Rightarrow> 's \<Rightarrow> 's \<times> 'e node list" where
  "visit_nodes body [] s = (s, [])"
| "visit_nodes body (x # xs) s =
     (let (del, s1) = body x s; (s2, kept) = visit_nodes body xs s1
      in (s2, if del then kept else x # kept))"

lemma traverse_loop_spec:
  assumes "standing (Some v) old new" "ordered (old @ new)"
  shows "\<exists>root. traverse_loop body v s = Some (fst (visit_nodes body new s), root) \<and>
           inorder root = old @ snd (visit_nodes body new s)"
  using assms
proof (induction new arbitrary: v old s)
  case Nil
  then show ?case
    by (cases v) (auto simp: standing_def traverse_loop.simps)
next
  case (Cons x new)
  obtain current parent where v: "v = Visit current parent"
    using Cons.prems(1) by (cases v) (auto simp: standing_def)
  obtain del s1 where b: "body x s = (del, s1)" by (cases "body x s")
  let ?old = "if del then old else old @ [x]"
  have st: "standing (ipc_splay_traverse_next current parent del) ?old new"
    using standing_next Cons.prems v by blast
  then obtain v1 where v1: "ipc_splay_traverse_next current parent del = Some v1"
    by (cases "ipc_splay_traverse_next current parent del") (auto simp: standing_def)
  have o: "ordered (?old @ new)" using Cons.prems(2) by (auto simp: sorted_wrt_append)
  have x: "value current = x" using Cons.prems(1) v by (simp add: standing_def)
  show ?case
    using Cons.IH [OF st [unfolded v1] o, of s1] v v1 b x
    by (auto simp: traverse_loop.simps [of body "Visit current parent"] split: prod.splits)
qed

lemma traverse_finish_spec:
  "ordered (inorder root) \<Longrightarrow> splay_inv (ipc_splay_traverse_finish s root)"
  "splay_nodes (ipc_splay_traverse_finish s root) = inorder root"
  by (auto simp: ipc_splay_traverse_finish_def splay_inv_single_root splay_nodes_def)

lemma ordered_visit_nodes:
  assumes "ordered xs" shows "ordered (snd (visit_nodes body xs s))"
proof -
  have sub: "set (snd (visit_nodes body xs s)) \<subseteq> set xs" for xs s
  proof (induction xs arbitrary: s)
    case (Cons x xs)
    obtain del s1 where "body x s = (del, s1)" by (cases "body x s")
    then show ?case using Cons [of s1] by (auto split: prod.splits)
  qed simp
  show ?thesis
    using assms
  proof (induction xs arbitrary: s)
    case (Cons x xs)
    obtain del s1 where "body x s = (del, s1)" by (cases "body x s")
    then show ?case using Cons.prems Cons.IH [of s1] sub [of xs s1] by (auto split: prod.splits)
  qed simp
qed

lemma traverse_spec:
  assumes "splay_inv s"
  shows "\<exists>s'. ipc_splay_traverse body s st = Some (fst (visit_nodes body (splay_nodes s) st), s') \<and>
           splay_nodes s' = snd (visit_nodes body (splay_nodes s) st) \<and> splay_inv s'"
proof -
  have o: "ordered ([] @ splay_nodes s)" using ordered_splay_nodes [OF assms] by simp
  have "standing (ipc_splay_traverse_start s) [] (splay_nodes s)"
  proof (cases "ist_root s = Leaf")
    case True
    then show ?thesis by (simp add: ipc_splay_traverse_start_def standing_def)
  next
    case False
    let ?t = "ipc_splay_prim_assemble (ist_root s) (ist_ltree s) (ist_rtree s)"
    have "?t \<noteq> Leaf" "inorder ?t = splay_nodes s"
      using inorder_assemble [OF False] False
      by (auto simp: ipc_splay_prim_assemble_def splay_nodes_def)
    then show ?thesis
      using standing_left [of ?t "[]"] False by (simp add: ipc_splay_traverse_start_def)
  qed
  then obtain v where v: "ipc_splay_traverse_start s = Some v" "standing (Some v) [] (splay_nodes s)"
    by (cases "ipc_splay_traverse_start s") (auto simp: standing_def)
  obtain root where r: "traverse_loop body v st = Some (fst (visit_nodes body (splay_nodes s) st), root)"
    "inorder root = snd (visit_nodes body (splay_nodes s) st)"
    using traverse_loop_spec [OF v(2) o, of body st] by auto
  have "ordered (inorder root)"
    using ordered_visit_nodes [of "splay_nodes s" body st] o r(2) by simp
  then show ?thesis
    using v(1) r by (simp add: ipc_splay_traverse_def traverse_finish_spec)
qed

end
