(* ===== verification/Ipc_Name_Tree.thy ===== *)
theory Ipc_Name_Tree
  imports Ipc_Traverse
begin

text \<open>
  The interface of the tree of large names that \<open>ipc_entry.c\<close> relies on: an ordered list of
  named entries with lookup, insertion, deletion, bounds, split and join, implemented by the splay
  tree of \<open>ipc_splay.c\<close>.
\<close>

section \<open>The interface\<close>

locale name_tree =
  fixes inv :: "'t \<Rightarrow> bool"
    and nodes :: "'t \<Rightarrow> 'e node list"
    and lookup :: "'t \<Rightarrow> mach_port_name_t \<Rightarrow> 'e option \<times> 't"
    and insert_name :: "'t \<Rightarrow> mach_port_name_t \<Rightarrow> 'e \<Rightarrow> 't"
    and delete_name :: "'t \<Rightarrow> mach_port_name_t \<Rightarrow> 't"
    and split_at :: "'t \<Rightarrow> mach_port_name_t \<Rightarrow> 't \<Rightarrow> 't \<times> 't"
    and join_small :: "'t \<Rightarrow> 't \<Rightarrow> 't \<times> 't"
    and bounds :: "'t \<Rightarrow> mach_port_name_t \<Rightarrow> (mach_port_name_t \<times> mach_port_name_t) \<times> 't"
  assumes ordered_law: "inv t \<Longrightarrow> ordered (nodes t)"
    and lookup_law: "inv t \<Longrightarrow> lookup t name = (r, t') \<Longrightarrow>
      r = map_of (nodes t) name \<and> nodes t' = nodes t \<and> inv t'"
    and insert_law: "inv t \<Longrightarrow> name \<notin> fst ` set (nodes t) \<Longrightarrow>
      inv (insert_name t name e) \<and>
      nodes (insert_name t name e) = [x\<leftarrow>nodes t. fst x < name] @ (name, e) # [x\<leftarrow>nodes t. name < fst x]"
    and delete_law: "inv t \<Longrightarrow> name \<in> fst ` set (nodes t) \<Longrightarrow>
      inv (delete_name t name) \<and> nodes (delete_name t name) = [x\<leftarrow>nodes t. fst x \<noteq> name]"
    and split_law: "inv t \<Longrightarrow> split_at t name small0 = (t', small) \<Longrightarrow>
      inv t' \<and> inv small \<and> nodes t' = [x\<leftarrow>nodes t. name \<le> fst x] \<and> nodes small = [x\<leftarrow>nodes t. fst x < name]"
    and join_law: "inv t \<Longrightarrow> inv small \<Longrightarrow> join_small t small = (t', small') \<Longrightarrow>
      \<forall>x\<in>fst ` set (nodes small). \<forall>y\<in>fst ` set (nodes t). x < y \<Longrightarrow>
      inv t' \<and> nodes t' = nodes small @ nodes t \<and> nodes small' = []"
    and bounds_law: "inv t \<Longrightarrow> bounds t name = ((lower, upper), t') \<Longrightarrow>
      is_lower (fst ` set (nodes t)) name lower \<and> is_upper (fst ` set (nodes t)) name upper \<and>
      nodes t' = nodes t \<and> inv t'"
begin

lemma distinct_names: "inv t \<Longrightarrow> distinct (map fst (nodes t))"
  using ordered_law strict_sorted_iff by blast

lemma lookup_iff:
  assumes "inv t"
  shows "fst (lookup t name) = Some e \<longleftrightarrow> (name, e) \<in> set (nodes t)"
proof -
  obtain r t' where "lookup t name = (r, t')" by (cases "lookup t name")
  then show ?thesis
    using lookup_law [OF assms] distinct_names [OF assms] by (metis fst_conv map_of_eq_Some_iff)
qed

lemma set_insert:
  assumes "inv t" "name \<notin> fst ` set (nodes t)"
  shows "set (nodes (insert_name t name e)) = insert (name, e) (set (nodes t))"
proof -
  have "fst x < name \<or> name < fst x" if "x \<in> set (nodes t)" for x
    using assms(2) that by (metis image_eqI linorder_neqE)
  then show ?thesis using insert_law [OF assms] by auto
qed

lemma length_insert:
  assumes "inv t" "name \<notin> fst ` set (nodes t)"
  shows "length (nodes (insert_name t name e)) = Suc (length (nodes t))"
proof -
  have "length (nodes u) = card (set (nodes u))" if "inv u" for u
    using distinct_names [OF that] by (metis distinct_card distinct_map)
  moreover have "(name, e) \<notin> set (nodes t)" using assms(2) by force
  moreover have "inv (insert_name t name e)" using insert_law [OF assms] by blast
  ultimately show ?thesis using assms(1) set_insert [OF assms] by simp
qed

lemma lookup_after_insert:
  assumes "inv t" "name \<notin> fst ` set (nodes t)"
  shows "fst (lookup (insert_name t name e) name') = (if name' = name then Some e else fst (lookup t name'))"
proof -
  let ?t = "insert_name t name e"
  have inv: "inv ?t" using insert_law [OF assms] by blast
  have "fst (lookup ?t name') = Some x \<longleftrightarrow>
      (if name' = name then x = e else fst (lookup t name') = Some x)" for x
    using lookup_iff [OF inv, of name' x] lookup_iff [OF assms(1), of name' x] set_insert [OF assms, of e]
      assms(2) by force
  then show ?thesis by (cases "name' = name") (auto intro: option.expand, metis option.collapse)
qed

lemma lookup_after_delete:
  assumes "inv t" "name \<in> fst ` set (nodes t)"
  shows "fst (lookup (delete_name t name) name') = (if name' = name then None else fst (lookup t name'))"
proof -
  let ?t = "delete_name t name"
  have inv: "inv ?t" using delete_law [OF assms] by blast
  have "fst (lookup ?t name') = Some x \<longleftrightarrow> name' \<noteq> name \<and> fst (lookup t name') = Some x" for x
    using lookup_iff [OF inv, of name' x] lookup_iff [OF assms(1), of name' x] delete_law [OF assms]
    by auto
  then show ?thesis by (cases "name' = name") (metis not_Some_eq)+
qed

text \<open>Splitting a tree and joining the parts gives the tree back.\<close>

lemma join_after_split:
  assumes "inv t" "split_at t name small0 = (t1, small)" "join_small t1 small = (t', small')"
  shows "inv t' \<and> nodes t' = nodes t"
proof -
  have s: "inv t1" "inv small" "nodes t1 = [x\<leftarrow>nodes t. name \<le> fst x]" "nodes small = [x\<leftarrow>nodes t. fst x < name]"
    using split_law [OF assms(1,2)] by auto
  have "\<forall>x\<in>fst ` set (nodes small). \<forall>y\<in>fst ` set (nodes t1). x < y" using s(3,4) by auto
  then have j: "inv t'" "nodes t' = nodes small @ nodes t1" using join_law [OF s(1,2) assms(3)] by auto
  have "[x\<leftarrow>xs. fst x < name] @ [x\<leftarrow>xs. name \<le> fst x] = xs" if "ordered xs" for xs :: "'e node list"
    using that
  proof (induction xs)
    case (Cons x xs)
    show ?case
    proof (cases "fst x < name")
      case False
      then have "\<forall>y\<in>set xs. name \<le> fst y" using Cons.prems by auto
      then have "[y\<leftarrow>xs. fst y < name] = []" "[y\<leftarrow>xs. name \<le> fst y] = xs"
        by (auto simp: filter_empty_conv not_less intro: filter_True)
      then show ?thesis using False by (simp add: not_less)
    qed (use Cons in auto)
  qed simp
  then show ?thesis using j s ordered_law [OF assms(1)] by simp
qed

text \<open>
  The test of \<open>ipc_entry_tree_collision\<close>: the bounds of a name have its index iff some name in
  the tree has.  The two extreme values, which also mean that there is no bound, are not valid
  names.
\<close>

lemma collision:
  assumes "inv t" "\<forall>x\<in>fst ` set (nodes t). MACH_PORT_VALID x" "bounds t name = ((lower, upper), t')"
  shows "(lower \<noteq> NOT 0 \<and> MACH_PORT_INDEX lower = MACH_PORT_INDEX name \<or>
          upper \<noteq> 0 \<and> MACH_PORT_INDEX upper = MACH_PORT_INDEX name) \<longleftrightarrow>
         (\<exists>x\<in>fst ` set (nodes t). MACH_PORT_INDEX x = MACH_PORT_INDEX name)"
proof -
  let ?D = "fst ` set (nodes t)"
  have b: "is_lower ?D name lower" "is_upper ?D name upper" using bounds_law [OF assms(1,3)] by auto
  have valid: "x \<noteq> 0" "x \<noteq> NOT 0" if "x \<in> ?D" for x
    using assms(2) that by (auto simp: MACH_PORT_VALID_def MACH_PORT_NULL_def MACH_PORT_DEAD_def)
  have mono: "MACH_PORT_INDEX x \<le> MACH_PORT_INDEX y" if "x \<le> y" for x y
    using that by (simp add: word_le_nat_alt unat_MACH_PORT_INDEX div_le_mono)
  show ?thesis
  proof
    assume "lower \<noteq> NOT 0 \<and> MACH_PORT_INDEX lower = MACH_PORT_INDEX name \<or>
      upper \<noteq> 0 \<and> MACH_PORT_INDEX upper = MACH_PORT_INDEX name"
    then show "\<exists>x\<in>?D. MACH_PORT_INDEX x = MACH_PORT_INDEX name"
      using b unfolding is_lower_def is_upper_def MACH_PORT_LARGEST_def MACH_PORT_SMALLEST_def by metis
  next
    assume "\<exists>x\<in>?D. MACH_PORT_INDEX x = MACH_PORT_INDEX name"
    then obtain x where x: "x \<in> ?D" "MACH_PORT_INDEX x = MACH_PORT_INDEX name" by blast
    show "lower \<noteq> NOT 0 \<and> MACH_PORT_INDEX lower = MACH_PORT_INDEX name \<or>
      upper \<noteq> 0 \<and> MACH_PORT_INDEX upper = MACH_PORT_INDEX name"
    proof (cases "x \<le> name")
      case True
      then have l: "lower \<in> ?D" "lower \<le> name" "x \<le> lower"
        using b(1) x(1) unfolding is_lower_def by metis+
      then have "MACH_PORT_INDEX lower = MACH_PORT_INDEX name"
        using mono [OF l(2)] mono [OF l(3)] x(2) by simp
      then show ?thesis using valid [OF l(1)] by blast
    next
      case False
      then have l: "upper \<in> ?D" "name \<le> upper" "upper \<le> x"
        using b(2) x(1) unfolding is_upper_def by (metis linear)+
      then have "MACH_PORT_INDEX upper = MACH_PORT_INDEX name"
        using mono [OF l(2)] mono [OF l(3)] x(2) by simp
      then show ?thesis using valid [OF l(1)] by blast
    qed
  qed
qed

end

section \<open>The splay tree implements it\<close>

interpretation splay_tree: name_tree splay_inv splay_nodes ipc_splay_tree_lookup
  ipc_splay_tree_insert ipc_splay_tree_delete ipc_splay_tree_split ipc_splay_tree_join
  ipc_splay_tree_bounds
proof unfold_locales
  fix t small t' small' small0 :: "'e ipc_splay_tree" and name r e lower upper
  assume inv: "splay_inv t"
  show "ordered (splay_nodes t)" using ordered_splay_nodes [OF inv] .
  show "r = map_of (splay_nodes t) name \<and> splay_nodes t' = splay_nodes t \<and> splay_inv t'"
    if "ipc_splay_tree_lookup t name = (r, t')" using lookup_spec [OF inv that] by simp
  show "splay_inv (ipc_splay_tree_insert t name e) \<and>
      splay_nodes (ipc_splay_tree_insert t name e) =
        [x\<leftarrow>splay_nodes t. fst x < name] @ (name, e) # [x\<leftarrow>splay_nodes t. name < fst x]"
    if "name \<notin> splay_dom t" using insert_spec [OF inv that] by simp
  show "splay_inv (ipc_splay_tree_delete t name) \<and>
      splay_nodes (ipc_splay_tree_delete t name) = [x\<leftarrow>splay_nodes t. fst x \<noteq> name]"
    if "name \<in> splay_dom t" using delete_spec [OF inv that] by simp
  show "splay_inv t' \<and> splay_inv small \<and> splay_nodes t' = [x\<leftarrow>splay_nodes t. name \<le> fst x] \<and>
      splay_nodes small = [x\<leftarrow>splay_nodes t. fst x < name]"
    if "ipc_splay_tree_split t name small0 = (t', small)" using split_spec [OF inv that] by simp
  show "splay_inv t' \<and> splay_nodes t' = splay_nodes small @ splay_nodes t \<and> splay_nodes small' = []"
    if "splay_inv small" "ipc_splay_tree_join t small = (t', small')"
      "\<forall>x\<in>splay_dom small. \<forall>y\<in>splay_dom t. x < y"
    using join_spec [OF inv that(1,3,2)] by simp
  show "is_lower (splay_dom t) name lower \<and> is_upper (splay_dom t) name upper \<and>
      splay_nodes t' = splay_nodes t \<and> splay_inv t'"
    if "ipc_splay_tree_bounds t name = ((lower, upper), t')" using bounds_spec [OF inv that] by simp
qed

section \<open>Properties of the splay tree\<close>

text \<open>A tree with two names, on which the properties are applied.\<close>

definition sample_splay :: "nat ipc_splay_tree" where
  "sample_splay = ipc_splay_tree_insert (ipc_splay_tree_insert
     \<lparr>ist_name = 0, ist_root = Leaf, ist_ltree = [], ist_rtree = []\<rparr> 0x1203 1) 0x0903 2"

lemma sample_splay_inv: "splay_inv sample_splay"
  by code_simp

lemma sample_splay_nodes: "splay_nodes sample_splay = [(0x0903, 2), (0x1203, 1)]"
  by code_simp

text \<open>
  Claim C20. A lookup finds the entry stored under a name: after an insertion of a new name the
  lookup of that name returns its entry and the lookup of any other name returns what it did
  before.  Both routines keep the splay structure well formed, and a lookup changes only its shape.
\<close>

theorem splay_lookup_insert:
  assumes "splay_inv splay" and "name \<notin> splay_dom splay"
  shows "fst (ipc_splay_tree_lookup (ipc_splay_tree_insert splay name entry) name') =
           (if name' = name then Some entry else fst (ipc_splay_tree_lookup splay name')) \<and>
         splay_inv (ipc_splay_tree_insert splay name entry) \<and>
         splay_inv (snd (ipc_splay_tree_lookup splay name')) \<and>
         splay_nodes (snd (ipc_splay_tree_lookup splay name')) = splay_nodes splay"
  using splay_tree.lookup_after_insert [OF assms] splay_tree.insert_law [OF assms]
    splay_tree.lookup_law [OF assms(1)] by (metis prod.collapse)

theorem splay_lookup_insert_witness:
  "splay_inv sample_splay \<and> 0x0503 \<notin> splay_dom sample_splay \<and>
   fst (ipc_splay_tree_lookup (ipc_splay_tree_insert sample_splay 0x0503 3) 0x0503) = Some 3"
  using splay_lookup_insert [of sample_splay "0x0503" 3 "0x0503"] sample_splay_inv
    sample_splay_nodes by simp

text \<open>
  Claim C24. After the deletion of a name that is in the tree its lookup fails, the lookup of any
  other name returns what it did before, and the tree is well formed.
\<close>

theorem splay_lookup_delete:
  assumes "splay_inv splay" and "name \<in> splay_dom splay"
  shows "fst (ipc_splay_tree_lookup (ipc_splay_tree_delete splay name) name') =
           (if name' = name then None else fst (ipc_splay_tree_lookup splay name')) \<and>
         splay_inv (ipc_splay_tree_delete splay name)"
  using splay_tree.lookup_after_delete [OF assms] splay_tree.delete_law [OF assms] by simp

theorem splay_lookup_delete_witness:
  "splay_inv sample_splay \<and> 0x0903 \<in> splay_dom sample_splay \<and>
   fst (ipc_splay_tree_lookup (ipc_splay_tree_delete sample_splay 0x0903) 0x0903) = None \<and>
   fst (ipc_splay_tree_lookup (ipc_splay_tree_delete sample_splay 0x0903) 0x1203) = Some 1"
proof -
  have "fst (ipc_splay_tree_lookup sample_splay 0x1203) = Some 1" by code_simp
  then show ?thesis
    using splay_lookup_delete [of sample_splay "0x0903" "0x0903"]
      splay_lookup_delete [of sample_splay "0x0903" "0x1203"] sample_splay_inv sample_splay_nodes
    by simp
qed

text \<open>
  Claim C25. The contract of \<open>ipc_splay_tree_bounds\<close>: it returns the largest name in the tree that is
  at most the given one, or \<open>~0\<close>, and the smallest that is at least the given one, or \<open>0\<close>.
\<close>

theorem splay_bounds_tight:
  assumes "splay_inv splay"
    and "ipc_splay_tree_bounds splay name = ((lower, upper), splay')"
  shows "(if \<exists>x\<in>splay_dom splay. x \<le> name
          then lower \<in> splay_dom splay \<and> lower \<le> name \<and> (\<forall>x\<in>splay_dom splay. x \<le> name \<longrightarrow> x \<le> lower)
          else lower = NOT 0) \<and>
         (if \<exists>x\<in>splay_dom splay. name \<le> x
          then upper \<in> splay_dom splay \<and> name \<le> upper \<and> (\<forall>x\<in>splay_dom splay. name \<le> x \<longrightarrow> upper \<le> x)
          else upper = 0) \<and>
         splay_inv splay' \<and> splay_nodes splay' = splay_nodes splay"
  using splay_tree.bounds_law [OF assms]
  unfolding is_lower_def is_upper_def MACH_PORT_LARGEST_def MACH_PORT_SMALLEST_def by simp

theorem splay_bounds_tight_witness:
  "splay_inv sample_splay \<and> fst (ipc_splay_tree_bounds sample_splay 0x1000) = (0x0903, 0x1203) \<and>
   0x1203 \<in> splay_dom sample_splay"
proof -
  obtain b t where b: "ipc_splay_tree_bounds sample_splay 0x1000 = (b, t)"
    by (cases "ipc_splay_tree_bounds sample_splay 0x1000")
  have "fst (ipc_splay_tree_bounds sample_splay 0x1000) = (0x0903, 0x1203)" by code_simp
  then have "ipc_splay_tree_bounds sample_splay 0x1000 = ((0x0903, 0x1203), t)" using b by simp
  then show ?thesis
    using splay_bounds_tight [OF sample_splay_inv, of "0x1000" "0x0903" "0x1203" t] sample_splay_inv
      sample_splay_nodes by simp
qed

text \<open>
  Claim C26. Splitting a tree at a name separates the smaller names from the others, and joining
  the two parts gives back the same names in the same order.
\<close>

theorem splay_split_join:
  assumes "splay_inv splay" and "ipc_splay_tree_split splay name small0 = (splay1, small)"
    and "ipc_splay_tree_join splay1 small = (splay', small')"
  shows "splay_nodes small = [x\<leftarrow>splay_nodes splay. fst x < name] \<and>
         splay_nodes splay1 = [x\<leftarrow>splay_nodes splay. name \<le> fst x] \<and>
         splay_nodes splay' = splay_nodes splay \<and>
         splay_inv splay1 \<and> splay_inv small \<and> splay_inv splay'"
  using splay_tree.split_law [OF assms(1,2)] splay_tree.join_after_split [OF assms] by simp

theorem splay_split_join_witness:
  "\<exists>splay1 small splay' small'.
     ipc_splay_tree_split sample_splay 0x1000 sample_splay = (splay1, small) \<and>
     ipc_splay_tree_join splay1 small = (splay', small') \<and>
     splay_nodes small = [(0x0903, 2)] \<and> splay_nodes splay' = [(0x0903, 2), (0x1203, 1)]"
proof -
  obtain splay1 small where s: "ipc_splay_tree_split sample_splay 0x1000 sample_splay = (splay1, small)"
    by force
  obtain splay' small' where j: "ipc_splay_tree_join splay1 small = (splay', small')" by force
  have "[x\<leftarrow>splay_nodes sample_splay. fst x < 0x1000] = [(0x0903, 2)]"
    by (simp add: sample_splay_nodes)
  then show ?thesis
    using s j splay_split_join [OF sample_splay_inv s j] sample_splay_nodes by auto
qed

text \<open>
  Claim C21. The traversal loop ends, visits every entry once in the order of the names, and leaves a
  well-formed tree with exactly the entries whose visit did not ask for their deletion, whatever
  the body of the loop does to its own state.
\<close>

theorem splay_traversal:
  assumes "splay_inv splay"
  shows "\<exists>splay'. ipc_splay_traverse body splay st =
             Some (fst (visit_nodes body (splay_nodes splay) st), splay') \<and>
           splay_nodes splay' = snd (visit_nodes body (splay_nodes splay) st) \<and> splay_inv splay'"
  using traverse_spec [OF assms] .

theorem splay_traversal_witness:
  "splay_inv sample_splay \<and>
   (\<exists>splay'. ipc_splay_traverse (\<lambda>x acc. (fst x = 0x0903, acc @ [snd x])) sample_splay [] =
      Some ([2, 1], splay') \<and> splay_nodes splay' = [(0x1203, 1)])"
  using splay_traversal [OF sample_splay_inv, of "\<lambda>x acc. (fst x = 0x0903, acc @ [snd x])" "[]"]
    sample_splay_inv sample_splay_nodes by auto

end
