(* ===== verification/Ipc_Space.thy ===== *)
theory Ipc_Space
  imports Ipc_Table Ipc_Name_Tree
begin

text \<open>
  Entries, tree entries and spaces (\<open>osfmk/ipc/ipc_entry.h\<close>, \<open>osfmk/ipc/ipc_space.h\<close>), and the
  state the routines on a space work on.  The routines run with the space locked, so the state is
  passed from one to the next.  The result \<open>None\<close> stands for what must not happen: a read through
  a pointer that is not valid, an index out of range, a failed assertion on a counter, or a loop
  that does not end, a lock taken twice or released by a thread that does not hold it.
\<close>

datatype kern_return_t =
    KERN_SUCCESS | KERN_NO_SPACE | KERN_INVALID_ARGUMENT | KERN_FAILURE | KERN_RESOURCE_SHORTAGE
  | KERN_NOT_IN_SET | KERN_NAME_EXISTS | KERN_INVALID_NAME | KERN_INVALID_TASK
  | KERN_INVALID_RIGHT | KERN_INVALID_VALUE | KERN_UREFS_OVERFLOW | KERN_INVALID_CAPABILITY
  | KERN_RIGHT_EXISTS

text \<open>
  An entry.  The field \<open>ie_request\<close> is a union with \<open>ie_next\<close>, the link of the free list;
  \<open>ie_index\<close> is the slot of the local reverse hash table that lives in the entry's place.
\<close>

record ipc_entry =
  ie_object :: ipc_object_t
  ie_bits :: ipc_entry_bits_t
  ie_request :: nat
  ie_index :: nat

abbreviation ie_next :: "ipc_entry \<Rightarrow> nat" where "ie_next \<equiv> ie_request"

type_synonym ipc_tree_entry_t = u32
type_synonym ipc_space_t = u32

record ipc_tree_entry =
  ite_entry :: ipc_entry
  ite_name :: mach_port_name_t
  ite_space :: ipc_space_t

abbreviation ite_bits :: "ipc_tree_entry \<Rightarrow> ipc_entry_bits_t" where
  "ite_bits te \<equiv> ie_bits (ite_entry te)"

abbreviation ite_object :: "ipc_tree_entry \<Rightarrow> ipc_object_t" where
  "ite_object te \<equiv> ie_object (ite_entry te)"

abbreviation ite_request :: "ipc_tree_entry \<Rightarrow> nat" where
  "ite_request te \<equiv> ie_request (ite_entry te)"

text \<open>
  A space.  The field \<open>is_table_size\<close> is the length of the list \<open>is_table\<close>; \<open>is_table_next\<close> is an
  index of \<open>ipc_table_entries\<close>; the splay tree holds pointers to tree entries.
\<close>

record ipc_space =
  is_active :: bool
  is_growing :: bool
  is_fast :: bool
  is_table :: "ipc_entry list"
  is_table_next :: nat
  is_tree :: "ipc_tree_entry_t ipc_splay_tree"
  is_tree_total :: nat
  is_tree_small :: nat
  is_tree_hash :: nat

abbreviation is_table_size :: "ipc_space \<Rightarrow> nat" where
  "is_table_size space \<equiv> length (is_table space)"

text \<open>
  The state: the address and the contents of the space, whether the caller holds its lock, the tree
  entries of all spaces, and the buckets of the global reverse hash table, each the list of the
  entries chained in it.
\<close>

record ipc_state =
  st_self :: ipc_space_t
  st_locked :: bool
  st_space :: ipc_space
  st_tree_entries :: "ipc_tree_entry_t \<rightharpoonup> ipc_tree_entry"
  ipc_hash_global_table :: "ipc_tree_entry_t list list"

text \<open>A pointer to an entry: into the table of the space, or the \<open>ite_entry\<close> of a tree entry.\<close>

datatype ipc_entry_t = In_table nat | In_tree ipc_tree_entry_t

abbreviation space_table :: "'a ipc_state_scheme \<Rightarrow> ipc_entry list" where
  "space_table s \<equiv> is_table (st_space s)"

abbreviation set_space :: "(ipc_space \<Rightarrow> ipc_space) \<Rightarrow> 'a ipc_state_scheme \<Rightarrow> 'a ipc_state_scheme" where
  "set_space f s \<equiv> s\<lparr>st_space := f (st_space s)\<rparr>"

abbreviation set_table ::
  "(ipc_entry list \<Rightarrow> ipc_entry list) \<Rightarrow> 'a ipc_state_scheme \<Rightarrow> 'a ipc_state_scheme" where
  "set_table f \<equiv> set_space (is_table_update f)"

fun entry_at :: "'a ipc_state_scheme \<Rightarrow> ipc_entry_t \<Rightarrow> ipc_entry option" where
  "entry_at s (In_table i) = nth_opt (space_table s) i"
| "entry_at s (In_tree p) = map_option ite_entry (st_tree_entries s p)"

fun set_entry ::
  "ipc_entry_t \<Rightarrow> (ipc_entry \<Rightarrow> ipc_entry) \<Rightarrow> 'a ipc_state_scheme \<Rightarrow> 'a ipc_state_scheme option" where
  "set_entry (In_table i) f s =
     (if i < length (space_table s) then Some (set_table (\<lambda>t. t[i := f (t ! i)]) s) else None)"
| "set_entry (In_tree p) f s =
     (case st_tree_entries s p of
        None \<Rightarrow> None
      | Some te \<Rightarrow> Some (s\<lparr>st_tree_entries := (st_tree_entries s)(p \<mapsto> ite_entry_update f te)\<rparr>))"

text \<open>The lock of the space.\<close>

definition is_write_lock :: "'a ipc_state_scheme \<Rightarrow> 'a ipc_state_scheme option" where
  "is_write_lock s = (if st_locked s then None else Some (s\<lparr>st_locked := True\<rparr>))"

definition is_write_unlock :: "'a ipc_state_scheme \<Rightarrow> 'a ipc_state_scheme option" where
  "is_write_unlock s = (if st_locked s then Some (s\<lparr>st_locked := False\<rparr>) else None)"

text \<open>
  The environment of the routines: what other threads do to the state while the lock is free,
  whether a table with a given index of \<open>ipc_table_entries\<close> can be allocated, and the allocator of
  tree entries.
\<close>

record 'a ipc_env =
  env_others :: "'a ipc_state_scheme \<Rightarrow> 'a ipc_state_scheme"
  env_table_alloc :: "nat \<Rightarrow> bool"
  env_ite_alloc :: "'a ipc_state_scheme \<Rightarrow> ipc_tree_entry_t option"

definition unlocked_window :: "'a ipc_env \<Rightarrow> 'a ipc_state_scheme \<Rightarrow> 'a ipc_state_scheme option" where
  "unlocked_window env s =
     do { s1 \<leftarrow> is_write_unlock s; is_write_lock (env_others env s1) }"

end
