(* ===== verification/Ipc_Hash_Local.thy ===== *)
theory Ipc_Hash_Local
  imports Ipc_Space
begin

text \<open>
  The reverse hash tables of \<open>osfmk/ipc/ipc_hash.c\<close>, which map an object to the name of the
  entry with a pure send right for it.

  The local table of a space lives in the \<open>ie_index\<close> fields of the space's table: open addressing
  with linear probing, deletion by moving displaced elements back into the hole.  The loops are
  the code's, without a bound: whether they end is a theorem.
\<close>

section \<open>The local reverse hash table\<close>

definition IH_LOCAL_HASH :: "ipc_object_t \<Rightarrow> nat \<Rightarrow> nat" where
  "IH_LOCAL_HASH obj sz = unat (drop_bit 6 obj) mod sz"

partial_function (option) local_lookup_loop ::
  "ipc_entry list \<Rightarrow> ipc_object_t \<Rightarrow> nat \<Rightarrow> nat option option" where
  "local_lookup_loop table obj hindex =
     do { slot \<leftarrow> nth_opt table hindex;
          let index = ie_index slot;
          if index = 0 then Some None
          else do { entry \<leftarrow> nth_opt table index;
                    if ie_object entry = obj then Some (Some index)
                    else local_lookup_loop table obj (next_on (length table) hindex) } }"

definition ipc_hash_local_lookup ::
  "ipc_entry list \<Rightarrow> ipc_object_t \<Rightarrow> (mach_port_name_t \<times> nat) option option" where
  "ipc_hash_local_lookup table obj =
     do { r \<leftarrow> local_lookup_loop table obj (IH_LOCAL_HASH obj (length table));
          Some (map_option
                  (\<lambda>index. (MACH_PORT_MAKE (of_nat index) (IE_BITS_GEN (ie_bits (table ! index))), index))
                  r) }"

partial_function (option) local_insert_loop :: "ipc_entry list \<Rightarrow> nat \<Rightarrow> nat option" where
  "local_insert_loop table hindex =
     do { slot \<leftarrow> nth_opt table hindex;
          if ie_index slot = 0 then Some hindex
          else local_insert_loop table (next_on (length table) hindex) }"

abbreviation set_slot :: "nat \<Rightarrow> nat \<Rightarrow> ipc_entry list \<Rightarrow> ipc_entry list" where
  "set_slot hindex index table \<equiv> table[hindex := (table ! hindex)\<lparr>ie_index := index\<rparr>]"

definition ipc_hash_local_insert ::
  "ipc_entry list \<Rightarrow> ipc_object_t \<Rightarrow> nat \<Rightarrow> ipc_entry list option" where
  "ipc_hash_local_insert table obj index =
     do { hindex \<leftarrow> local_insert_loop table (IH_LOCAL_HASH obj (length table));
          Some (set_slot hindex index table) }"

partial_function (option) local_find_loop :: "ipc_entry list \<Rightarrow> nat \<Rightarrow> nat \<Rightarrow> nat option" where
  "local_find_loop table index hindex =
     do { slot \<leftarrow> nth_opt table hindex;
          if ie_index slot = index then Some hindex
          else local_find_loop table index (next_on (length table) hindex) }"

text \<open>
  The test of \<open>ipc_hash_local_delete\<close> for a displaced object: with home \<open>tindex\<close> and position
  \<open>dindex\<close>, its search passes the hole \<open>hindex\<close>.
\<close>

definition displaced :: "nat \<Rightarrow> nat \<Rightarrow> nat \<Rightarrow> bool" where
  "displaced dindex hindex tindex \<longleftrightarrow>
     (if dindex < hindex then dindex < tindex \<and> tindex \<le> hindex
      else dindex < tindex \<or> tindex \<le> hindex)"

partial_function (option) local_displaced_loop ::
  "ipc_entry list \<Rightarrow> nat \<Rightarrow> nat \<Rightarrow> (nat \<times> nat) option" where
  "local_displaced_loop table hindex dindex0 =
     do { let dindex = next_on (length table) dindex0;
          slot \<leftarrow> nth_opt table dindex;
          let index = ie_index slot;
          if index = 0 then Some (dindex, index)
          else do { entry \<leftarrow> nth_opt table index;
                    let tindex = IH_LOCAL_HASH (ie_object entry) (length table);
                    if displaced dindex hindex tindex then Some (dindex, index)
                    else local_displaced_loop table hindex dindex } }"

partial_function (option) local_delete_loop :: "ipc_entry list \<Rightarrow> nat \<Rightarrow> ipc_entry list option" where
  "local_delete_loop table hindex =
     do { (dindex, index) \<leftarrow> local_displaced_loop table hindex hindex;
          let table1 = set_slot hindex index table;
          if index \<noteq> 0 then local_delete_loop table1 dindex else Some table1 }"

definition ipc_hash_local_delete ::
  "ipc_entry list \<Rightarrow> ipc_object_t \<Rightarrow> nat \<Rightarrow> ipc_entry list option" where
  "ipc_hash_local_delete table obj index =
     do { hindex \<leftarrow> local_find_loop table index (IH_LOCAL_HASH obj (length table));
          if index \<noteq> 0 then local_delete_loop table hindex else Some table }"

section \<open>Linear probing\<close>

abbreviation slot :: "ipc_entry list \<Rightarrow> nat \<Rightarrow> nat" where
  "slot t h \<equiv> ie_index (t ! h)"

abbreviation home :: "ipc_entry list \<Rightarrow> nat \<Rightarrow> nat" where
  "home t i \<equiv> IH_LOCAL_HASH (ie_object (t ! i)) (length t)"

abbreviation away :: "ipc_entry list \<Rightarrow> nat \<Rightarrow> nat \<Rightarrow> nat" where
  "away t a b \<equiv> steps_on (length t) a b"

text \<open>
  \<open>probing t g\<close>: every element of the hash table but the one in slot \<open>g\<close> is a valid index, has
  no empty slot on the way from its home to its slot, and is in one slot only.
\<close>

definition probing :: "ipc_entry list \<Rightarrow> nat \<Rightarrow> bool" where
  "probing t g \<longleftrightarrow>
     (\<forall>h<length t. h \<noteq> g \<and> slot t h \<noteq> 0 \<longrightarrow>
        slot t h < length t \<and>
        (\<forall>x<length t. away t (home t (slot t h)) x < away t (home t (slot t h)) h \<longrightarrow> slot t x \<noteq> 0)) \<and>
     (\<forall>h<length t. \<forall>k<length t. h \<noteq> g \<and> k \<noteq> g \<and> slot t h \<noteq> 0 \<and> slot t h = slot t k \<longrightarrow> h = k)"

definition hashed_but :: "ipc_entry list \<Rightarrow> nat \<Rightarrow> nat set" where
  "hashed_but t g = {i. i \<noteq> 0 \<and> (\<exists>h<length t. h \<noteq> g \<and> slot t h = i)}"

text \<open>The invariant of the local table, and the table indices it holds.\<close>

definition local_inv :: "ipc_entry list \<Rightarrow> bool" where
  "local_inv t \<longleftrightarrow> t \<noteq> [] \<and> probing t (length t)"

definition hashed :: "ipc_entry list \<Rightarrow> nat set" where
  "hashed t = hashed_but t (length t)"

lemma home_less: "t \<noteq> [] \<Longrightarrow> home t i < length t"
  by (simp add: IH_LOCAL_HASH_def)

lemma probingD:
  assumes "probing t g" "h < length t" "h \<noteq> g" "slot t h \<noteq> 0"
  shows "slot t h < length t"
    and "x < length t \<Longrightarrow> away t (home t (slot t h)) x < away t (home t (slot t h)) h \<Longrightarrow> slot t x \<noteq> 0"
    and "k < length t \<Longrightarrow> k \<noteq> g \<Longrightarrow> slot t h = slot t k \<Longrightarrow> h = k"
  using assms unfolding probing_def by blast+

lemma local_invD:
  assumes "local_inv t" "h < length t" "slot t h \<noteq> 0"
  shows "slot t h < length t"
    and "x < length t \<Longrightarrow> away t (home t (slot t h)) x < away t (home t (slot t h)) h \<Longrightarrow> slot t x \<noteq> 0"
    and "k < length t \<Longrightarrow> slot t h = slot t k \<Longrightarrow> h = k"
  using probingD [of t "length t" h] assms unfolding local_inv_def by blast+

lemma local_empty_slot:
  assumes "local_inv t"
  obtains e where "e < length t" "slot t e = 0"
proof (rule ccontr)
  assume "\<not> thesis"
  then have all: "\<forall>h<length t. slot t h \<noteq> 0" using that by auto
  have "inj_on (slot t) {..<length t}"
    using local_invD(3) [OF assms] all by (auto simp: inj_on_def)
  moreover have "slot t ` {..<length t} \<subseteq> {1..<length t}"
  proof
    fix i assume "i \<in> slot t ` {..<length t}"
    then obtain h where "h < length t" "i = slot t h" by auto
    then show "i \<in> {1..<length t}" using local_invD(1) [OF assms, of h] all by auto
  qed
  ultimately have "card {..<length t} \<le> card {1..<length t}"
    by (metis card_image card_mono finite_atLeastLessThan)
  then show False using assms by (cases t) (simp_all add: local_inv_def)
qed

text \<open>A scan from \<open>h\<close> along the occupied slots to the first empty one, which passes \<open>P\<close>-slots only.\<close>

definition clump :: "ipc_entry list \<Rightarrow> (nat \<Rightarrow> bool) \<Rightarrow> nat \<Rightarrow> nat \<Rightarrow> bool" where
  "clump t P h e \<longleftrightarrow> e < length t \<and>
     (\<forall>x<length t. away t h x < away t h e \<longrightarrow> slot t x \<noteq> 0 \<and> P (slot t x))"

lemma clump_next:
  assumes "h < length t" "slot t h \<noteq> 0" "P (slot t h)" "clump t P (next_on (length t) h) e" "e \<noteq> h"
  shows "clump t P h e"
  unfolding clump_def
proof (intro conjI allI impI)
  show "e < length t" using assms(4) by (simp add: clump_def)
  fix x assume x: "x < length t" "away t h x < away t h e"
  show "slot t x \<noteq> 0" "P (slot t x)"
    using assms x steps_on_next [of h "length t" x] steps_on_next [of h "length t" e]
    by (cases "x = h"; auto simp: clump_def)+
qed

lemma lookup_loop_spec:
  assumes "local_inv t" "h < length t" "e < length t" "slot t e = 0"
  shows "\<exists>r. local_lookup_loop t obj h = Some r \<and>
    (case r of
       None \<Rightarrow> \<exists>e. slot t e = 0 \<and> clump t (\<lambda>i. ie_object (t ! i) \<noteq> obj) h e
     | Some i \<Rightarrow> i \<in> hashed t \<and> ie_object (t ! i) = obj)"
  using assms
proof (induction "away t h e" arbitrary: h rule: less_induct)
  case less
  note unfold = local_lookup_loop.simps [of t obj h]
  consider (empty) "slot t h = 0" | (found) "slot t h \<noteq> 0" "ie_object (t ! slot t h) = obj"
    | (on) "slot t h \<noteq> 0" "ie_object (t ! slot t h) \<noteq> obj" by blast
  then show ?case
  proof cases
    case empty
    then show ?thesis using less.prems unfold by (auto simp: clump_def intro!: exI [of _ h])
  next
    case found
    then show ?thesis
      using less.prems local_invD(1) [of t h] unfold by (auto simp: hashed_def hashed_but_def)
  next
    case on
    let ?n = "next_on (length t) h"
    have "e \<noteq> h" using on less.prems by auto
    then have "away t ?n e < away t h e" "?n < length t"
      using steps_on_next [of h "length t" e] less.prems by auto
    then obtain r where r: "local_lookup_loop t obj ?n = Some r"
      "case r of
         None \<Rightarrow> \<exists>e. slot t e = 0 \<and> clump t (\<lambda>i. ie_object (t ! i) \<noteq> obj) ?n e
       | Some i \<Rightarrow> i \<in> hashed t \<and> ie_object (t ! i) = obj"
      using less.hyps [of ?n] less.prems by blast
    have "local_lookup_loop t obj h = Some r"
      using on r(1) less.prems local_invD(1) [of t h] unfold by simp
    moreover have "\<exists>e. slot t e = 0 \<and> clump t (\<lambda>i. ie_object (t ! i) \<noteq> obj) h e" if none: "r = None"
    proof -
      obtain e' where "slot t e' = 0" "clump t (\<lambda>i. ie_object (t ! i) \<noteq> obj) ?n e'"
        using r(2) none by auto
      then show ?thesis using clump_next [of h t "\<lambda>i. ie_object (t ! i) \<noteq> obj" e'] less.prems(2) on by blast
    qed
    ultimately show ?thesis using r(2) by (cases r) auto
  qed
qed

lemma local_lookup_finds:
  assumes "local_inv t"
  shows "\<exists>r. local_lookup_loop t obj (IH_LOCAL_HASH obj (length t)) = Some r \<and>
    (case r of
       None \<Rightarrow> \<forall>i\<in>hashed t. ie_object (t ! i) \<noteq> obj
     | Some i \<Rightarrow> i \<in> hashed t \<and> ie_object (t ! i) = obj)"
proof -
  let ?h = "IH_LOCAL_HASH obj (length t)"
  have h: "?h < length t" using assms by (simp add: local_inv_def IH_LOCAL_HASH_def)
  obtain e where e: "e < length t" "slot t e = 0" using local_empty_slot [OF assms] .
  obtain r where r: "local_lookup_loop t obj ?h = Some r"
    "case r of
       None \<Rightarrow> \<exists>e. slot t e = 0 \<and> clump t (\<lambda>i. ie_object (t ! i) \<noteq> obj) ?h e
     | Some i \<Rightarrow> i \<in> hashed t \<and> ie_object (t ! i) = obj"
    using lookup_loop_spec [OF assms h e] by blast
  have "ie_object (t ! i) \<noteq> obj" if "r = None" "i \<in> hashed t" for i
  proof
    assume obj: "ie_object (t ! i) = obj"
    obtain e' where e': "slot t e' = 0" "clump t (\<lambda>i. ie_object (t ! i) \<noteq> obj) ?h e'"
      using r(2) \<open>r = None\<close> by auto
    obtain g where g: "g < length t" "slot t g = i" "i \<noteq> 0"
      using \<open>i \<in> hashed t\<close> by (auto simp: hashed_def hashed_but_def)
    have "\<not> away t ?h g < away t ?h e'" using e'(2) g obj by (auto simp: clump_def)
    moreover have "\<not> away t ?h e' < away t ?h g"
      using local_invD(2) [OF assms g(1), of e'] g obj e' by (auto simp: clump_def)
    ultimately have "g = e'"
      using steps_on_inj [OF g(1), of e' ?h] e'(2) h by (auto simp: clump_def)
    then show False using e'(1) g by simp
  qed
  then show ?thesis using r by (cases r) auto
qed

lemma insert_loop_spec:
  assumes "h < length t" "e < length t" "slot t e = 0"
  shows "\<exists>e'. local_insert_loop t h = Some e' \<and> slot t e' = 0 \<and> clump t (\<lambda>_. True) h e'"
  using assms
proof (induction "away t h e" arbitrary: h rule: less_induct)
  case less
  show ?case
  proof (cases "slot t h = 0")
    case True
    then show ?thesis
      using less.prems local_insert_loop.simps [of t h] by (auto simp: clump_def)
  next
    case False
    let ?n = "next_on (length t) h"
    have "e \<noteq> h" using False less.prems by auto
    then have "away t ?n e < away t h e" "?n < length t"
      using steps_on_next [of h "length t" e] less.prems by auto
    then obtain e' where e': "local_insert_loop t ?n = Some e'" "slot t e' = 0"
      "clump t (\<lambda>_. True) ?n e'"
      using less.hyps [of ?n] less.prems by blast
    then have "clump t (\<lambda>_. True) h e'"
      using clump_next [of h t "\<lambda>_. True" e'] less.prems(1) False by blast
    then show ?thesis
      using e' False less.prems local_insert_loop.simps [of t h] by simp
  qed
qed

lemma home_set_slot [simp]: "home (set_slot h j t) i = home t i"
  by (cases "i = h"; cases "h < length t") (auto simp: not_less list_update_beyond)

lemma ie_object_set_slot [simp]: "ie_object (set_slot h j t ! i) = ie_object (t ! i)"
  by (cases "i = h"; cases "h < length t") (auto simp: not_less list_update_beyond)

lemma slot_set_slot: "h < length t \<Longrightarrow> slot (set_slot h j t) x = (if x = h then j else slot t x)"
  by auto

lemma probingI:
  assumes "\<And>h. h < length t \<Longrightarrow> h \<noteq> g \<Longrightarrow> slot t h \<noteq> 0 \<Longrightarrow> slot t h < length t"
    and "\<And>h x. h < length t \<Longrightarrow> h \<noteq> g \<Longrightarrow> slot t h \<noteq> 0 \<Longrightarrow> x < length t \<Longrightarrow>
           away t (home t (slot t h)) x < away t (home t (slot t h)) h \<Longrightarrow> slot t x \<noteq> 0"
    and "\<And>h k. h < length t \<Longrightarrow> k < length t \<Longrightarrow> h \<noteq> g \<Longrightarrow> k \<noteq> g \<Longrightarrow> slot t h \<noteq> 0 \<Longrightarrow>
           slot t h = slot t k \<Longrightarrow> h = k"
  shows "probing t g"
  unfolding probing_def using assms by blast

lemma local_insert_spec:
  assumes inv: "local_inv t" and i: "i \<noteq> 0" "i < length t" "i \<notin> hashed t" "ie_object (t ! i) = obj"
  obtains h where "h < length t" "ipc_hash_local_insert t obj i = Some (set_slot h i t)"
    "local_inv (set_slot h i t)" "hashed (set_slot h i t) = insert i (hashed t)"
proof -
  let ?h = "IH_LOCAL_HASH obj (length t)"
  have h: "?h < length t" using inv by (simp add: local_inv_def IH_LOCAL_HASH_def)
  obtain e where "e < length t" "slot t e = 0" using local_empty_slot [OF inv] .
  then obtain e where e: "local_insert_loop t ?h = Some e" "slot t e = 0" "clump t (\<lambda>_. True) ?h e"
    using insert_loop_spec [OF h] by blast
  have le: "e < length t" using e(3) by (simp add: clump_def)
  let ?t = "set_slot e i t"
  have slot: "slot ?t x = (if x = e then i else slot t x)" for x using slot_set_slot [OF le] .
  have fresh: "slot t x \<noteq> i" if "x < length t" for x
    using i that by (auto simp: hashed_def hashed_but_def)
  have "probing ?t (length ?t)"
  proof (rule probingI)
    fix h assume "h < length ?t" "slot ?t h \<noteq> 0"
    then show "slot ?t h < length ?t"
      using local_invD(1) [OF inv, of h] i slot by (cases "h = e") simp_all
  next
    fix h x
    assume h: "h < length ?t" "slot ?t h \<noteq> 0" "x < length ?t"
      "away ?t (home ?t (slot ?t h)) x < away ?t (home ?t (slot ?t h)) h"
    show "slot ?t x \<noteq> 0"
    proof (cases "h = e")
      case True
      then show ?thesis using h e(3) i slot by (auto simp: clump_def)
    next
      case False
      then show ?thesis using h local_invD(2) [OF inv, of h x] i slot by auto
    qed
  next
    fix h k
    assume "h < length ?t" "k < length ?t" "slot ?t h \<noteq> 0" "slot ?t h = slot ?t k"
    then show "h = k"
      using local_invD(3) [OF inv, of h k] fresh slot by (auto split: if_splits)
  qed
  moreover have "hashed ?t = insert i (hashed t)"
  proof (rule set_eqI)
    fix j
    have "(\<exists>h<length t. slot ?t h = j) \<longleftrightarrow> j = i \<or> (\<exists>h<length t. slot t h = j \<and> h \<noteq> e)"
      using slot le by auto
    then show "j \<in> hashed ?t \<longleftrightarrow> j \<in> insert i (hashed t)"
      using i(1) e(2) by (auto simp: hashed_def hashed_but_def)
  qed
  ultimately show thesis
    using that [of e] le e(1) inv by (simp add: ipc_hash_local_insert_def local_inv_def)
qed

section \<open>Deletion\<close>

text \<open>The element in slot \<open>x\<close> is searched for through slot \<open>g\<close>.\<close>

definition passes :: "ipc_entry list \<Rightarrow> nat \<Rightarrow> nat \<Rightarrow> bool" where
  "passes t g x \<longleftrightarrow> away t (home t (slot t x)) g < away t (home t (slot t x)) x"

lemma displaced_iff:
  assumes "d < n" "g < n" "t < n" "d \<noteq> g"
  shows "displaced d g t \<longleftrightarrow> steps_on n t g < steps_on n t d"
  using assms by (auto simp: displaced_def steps_on_def)

lemma find_loop_spec:
  assumes "h < length t" "g < length t" "slot t g = index"
  shows "\<exists>g'. local_find_loop t index h = Some g' \<and> g' < length t \<and> slot t g' = index"
  using assms
proof (induction "away t h g" arbitrary: h rule: less_induct)
  case less
  show ?case
  proof (cases "slot t h = index")
    case True
    then show ?thesis using less.prems local_find_loop.simps [of t index h] by simp
  next
    case False
    let ?n = "next_on (length t) h"
    have "g \<noteq> h" using False less.prems(3) by auto
    then have "away t ?n g < away t h g" "?n < length t"
      using steps_on_next [of h "length t" g] less.prems by auto
    then show ?thesis
      using less.hyps [of ?n] less.prems False local_find_loop.simps [of t index h] by simp
  qed
qed

text \<open>The part of the clump after the hole \<open>g\<close> up to \<open>d\<close> has been looked at: nothing is displaced.\<close>

definition settled :: "ipc_entry list \<Rightarrow> nat \<Rightarrow> nat \<Rightarrow> bool" where
  "settled t g m \<longleftrightarrow> (\<forall>x<length t. x \<noteq> g \<and> away t g x \<le> m \<longrightarrow> slot t x \<noteq> 0 \<and> \<not> passes t g x)"

lemma displaced_loop_spec:
  assumes "probing t g" "g < length t" "d < length t" "e < length t" "slot t e = 0" "e \<noteq> g"
    "settled t g (away t g d)"
  shows "\<exists>d'. local_displaced_loop t g d = Some (d', slot t d') \<and> d' < length t \<and> d' \<noteq> g \<and>
    settled t g (away t g d' - 1) \<and> (slot t d' \<noteq> 0 \<longrightarrow> passes t g d') \<and> away t g d' \<le> away t g e"
  using assms
proof (induction "away t d e" arbitrary: d rule: less_induct)
  case less
  let ?n = "length t" and ?d = "next_on (length t) d"
  have e: "away t g d < away t g e"
    using less.prems by (meson not_le settled_def)
  have d: "?d \<noteq> g"
  proof
    assume "?d = g"
    then have "away t g d = ?n - 1" using less.prems(2,3) by (auto simp: next_on_def steps_on_def split: if_splits)
    then show False using e steps_on_less [of g ?n e] less.prems(2,4) by simp
  qed
  then have Suc: "away t g ?d = Suc (away t g d)"
    using steps_on_next_right less.prems(2,3) by blast
  have lt: "?d < ?n" using less.prems(3) by simp
  note unfold = local_displaced_loop.simps [of t g d]
  have "t \<noteq> []" using less.prems(2) by auto
  then have disp: "displaced ?d g (home t (slot t ?d)) \<longleftrightarrow> passes t g ?d"
    using displaced_iff [OF lt less.prems(2) home_less d] by (simp add: passes_def)
  have ok: "slot t ?d < ?n" if "slot t ?d \<noteq> 0" using probingD(1) [OF less.prems(1) lt d that] .
  show ?case
  proof (cases "slot t ?d = 0 \<or> passes t g ?d")
    case True
    then have "local_displaced_loop t g d = Some (?d, slot t ?d)"
      using unfold lt ok disp by (auto simp: Let_def)
    then show ?thesis using lt d Suc e less.prems(7) True by (auto intro!: exI [of _ ?d])
  next
    case False
    have rec: "local_displaced_loop t g d = local_displaced_loop t g ?d"
      using False unfold lt ok disp by (auto simp: Let_def)
    have "e \<noteq> d" using e by auto
    then have "away t ?d e < away t d e" using steps_on_next [of d ?n e] less.prems by simp
    moreover have "settled t g (away t g ?d)"
      using less.prems(7) False Suc steps_on_inj [OF _ lt less.prems(2)]
      by (auto simp: settled_def le_Suc_eq)
    ultimately show ?thesis using less.hyps [of ?d] less.prems lt rec by simp
  qed
qed

text \<open>The table without the hash slots: the hash routines change nothing else.\<close>

definition unhashed :: "ipc_entry list \<Rightarrow> ipc_entry list" where
  "unhashed t = map (\<lambda>e. e\<lparr>ie_index := 0\<rparr>) t"

lemma unhashed_set_slot [simp]: "unhashed (set_slot h j t) = unhashed t"
  by (cases "h < length t")
    (auto simp: unhashed_def list_update_beyond not_less nth_list_update intro!: nth_equalityI)

text \<open>The two ways a round of the deletion ends: the hole is the end of the clump, or it moves.\<close>

lemma probing_close:
  assumes "probing t g" "g < length t" "settled t g (away t g d - 1)" "d < length t" "d \<noteq> g"
    "slot t d = 0"
  shows "local_inv (set_slot g 0 t)" and "hashed (set_slot g 0 t) = hashed_but t g"
proof -
  let ?t = "set_slot g 0 t"
  have slot: "slot ?t x = (if x = g then 0 else slot t x)" for x using slot_set_slot [OF assms(2)] .
  have ne: "t \<noteq> []" using assms(2) by auto
  have "probing ?t (length ?t)"
  proof (rule probingI)
    fix h x
    assume h: "h < length ?t" "slot ?t h \<noteq> 0" "x < length ?t"
      "away ?t (home ?t (slot ?t h)) x < away ?t (home ?t (slot ?t h)) h"
    then have hg: "h \<noteq> g" "slot t h \<noteq> 0" "slot ?t h = slot t h" using slot by (auto split: if_splits)
    let ?a = "home t (slot t h)"
    have path: "slot t y \<noteq> 0" if "y < length t" "away t ?a y < away t ?a h" for y
      using probingD(2) [OF assms(1) _ hg(1,2), of y] h(1) that by simp
    have "x \<noteq> g"
    proof
      assume "x = g"
      then have p: "away t ?a g < away t ?a h" using h(4) hg(3) by simp
      then have "passes t g h" by (simp add: passes_def)
      then have "\<not> away t g h \<le> away t g d - 1" using assms(3) h(1) hg(1) by (auto simp: settled_def)
      moreover have "\<not> away t g d < away t g h"
        using steps_on_between [OF home_less [OF ne] assms(2) _ assms(4), of h "slot t h"] p h(1)
          path [OF assms(4)] assms(6) by fastforce
      ultimately have "away t g h = away t g d" by linarith
      then show False using steps_on_inj [of h "length t" d g] h(1) assms(2,4,6) hg(2) by simp
    qed
    then show "slot ?t x \<noteq> 0" using path h(3,4) hg(3) slot by simp
  next
    fix h k
    assume "h < length ?t" "k < length ?t" "slot ?t h \<noteq> 0" "slot ?t h = slot ?t k"
    then show "h = k"
      using probingD(3) [OF assms(1), of h k] slot by (auto split: if_splits)
  next
    fix h assume "h < length ?t" "slot ?t h \<noteq> 0"
    then show "slot ?t h < length ?t"
      using probingD(1) [OF assms(1), of h] slot by (auto split: if_splits)
  qed
  then show "local_inv ?t" using ne by (simp add: local_inv_def)
  show "hashed ?t = hashed_but t g"
    using slot by (auto simp: hashed_def hashed_but_def)
qed

lemma probing_move:
  assumes "probing t g" "g < length t" "d < length t" "d \<noteq> g" "slot t d \<noteq> 0" "passes t g d"
  shows "probing (set_slot g (slot t d) t) d"
    and "hashed_but (set_slot g (slot t d) t) d = hashed_but t g"
proof -
  let ?t = "set_slot g (slot t d) t"
  have slot: "slot ?t x = (if x = g then slot t d else slot t x)" for x
    using slot_set_slot [OF assms(2)] .
  show "probing ?t d"
  proof (rule probingI)
    fix h assume "h < length ?t" "h \<noteq> d" "slot ?t h \<noteq> 0"
    then show "slot ?t h < length ?t"
      using probingD(1) [OF assms(1), of h] probingD(1) [OF assms(1), of d] assms slot
      by (cases "h = g") auto
  next
    fix h x
    assume h: "h < length ?t" "h \<noteq> d" "slot ?t h \<noteq> 0" "x < length ?t"
      "away ?t (home ?t (slot ?t h)) x < away ?t (home ?t (slot ?t h)) h"
    have "slot t x \<noteq> 0 \<or> x = g"
    proof (cases "h = g")
      case True
      then have "away t (home t (slot t d)) x < away t (home t (slot t d)) d"
        using h(5) slot assms(6) by (simp add: passes_def)
      then show ?thesis using probingD(2) [OF assms(1,3,4,5)] h(4) by simp
    next
      case False
      then show ?thesis using probingD(2) [OF assms(1) _ False, of x] h slot by auto
    qed
    then show "slot ?t x \<noteq> 0" using slot assms(5) by auto
  next
    fix h k
    assume "h < length ?t" "k < length ?t" "h \<noteq> d" "k \<noteq> d" "slot ?t h \<noteq> 0" "slot ?t h = slot ?t k"
    then show "h = k"
      using probingD(3) [OF assms(1), of h k] probingD(3) [OF assms(1,3,4,5), of h]
        probingD(3) [OF assms(1,3,4,5), of k] slot
      by (cases "h = g"; cases "k = g") auto
  qed
  have "(\<exists>h<length t. h \<noteq> d \<and> slot ?t h = j) \<longleftrightarrow> (\<exists>h<length t. h \<noteq> g \<and> slot t h = j)" for j
    unfolding slot using assms(2,3,4) by metis
  then show "hashed_but ?t d = hashed_but t g"
    by (simp add: hashed_but_def)
qed

lemma delete_loop_spec:
  assumes "probing t g" "g < length t" "slot t g \<noteq> 0" "e < length t" "slot t e = 0"
  shows "\<exists>t'. local_delete_loop t g = Some t' \<and> local_inv t' \<and> hashed t' = hashed_but t g \<and>
    unhashed t' = unhashed t"
  using assms
proof (induction "away t g e" arbitrary: t g rule: less_induct)
  case less
  have eg: "e \<noteq> g" using less.prems by auto
  have "settled t g (away t g g)"
    using steps_on_eq_0 [of g "length t"] less.prems(2) by (auto simp: settled_def)
  then obtain d where d: "local_displaced_loop t g g = Some (d, slot t d)" "d < length t" "d \<noteq> g"
    "settled t g (away t g d - 1)" "slot t d \<noteq> 0 \<longrightarrow> passes t g d" "away t g d \<le> away t g e"
    using displaced_loop_spec [OF less.prems(1,2,2,4,5) eg] by blast
  let ?t = "set_slot g (slot t d) t"
  note unfold = local_delete_loop.simps [of t g]
  show ?case
  proof (cases "slot t d = 0")
    case True
    then have "local_delete_loop t g = Some (set_slot g 0 t)" using unfold d(1) by simp
    then show ?thesis
      using probing_close [OF less.prems(1,2) d(4,2,3) True] by simp
  next
    case False
    have rec: "local_delete_loop t g = local_delete_loop ?t d"
      using unfold d(1) False by (simp add: Let_def)
    note move = probing_move [OF less.prems(1,2) d(2,3) False] d(5) False
    have "away t d e < away t g e"
      using steps_on_add [OF less.prems(2,2) d(2)] steps_on_add [OF less.prems(2) d(2) less.prems(4) d(6)]
        steps_on_eq_0 [OF less.prems(2) d(2)] d(3) by simp
    then show ?thesis
      using less.hyps [of ?t d] move less.prems d(2,3) eg rec by auto
  qed
qed

lemma local_delete_spec:
  assumes inv: "local_inv t" and i: "i \<in> hashed t" "ie_object (t ! i) = obj"
  shows "\<exists>t'. ipc_hash_local_delete t obj i = Some t' \<and> local_inv t' \<and> hashed t' = hashed t - {i} \<and>
    unhashed t' = unhashed t"
proof -
  let ?h = "IH_LOCAL_HASH obj (length t)"
  have h: "?h < length t" using inv by (simp add: local_inv_def IH_LOCAL_HASH_def)
  obtain g0 where "g0 < length t" "slot t g0 = i" and i0: "i \<noteq> 0"
    using i by (auto simp: hashed_def hashed_but_def)
  then obtain g where g: "local_find_loop t i ?h = Some g" "g < length t" "slot t g = i"
    using find_loop_spec [OF h] by blast
  obtain e where e: "e < length t" "slot t e = 0" using local_empty_slot [OF inv] .
  have "probing t g"
  proof (rule probingI)
    fix h x
    assume "h < length t" "slot t h \<noteq> 0" "x < length t"
      "away t (home t (slot t h)) x < away t (home t (slot t h)) h"
    then show "slot t x \<noteq> 0" using local_invD(2) [OF inv, of h x] by blast
  next
    fix h k assume "h < length t" "k < length t" "slot t h \<noteq> 0" "slot t h = slot t k"
    then show "h = k" using local_invD(3) [OF inv, of h k] by blast
  qed (use local_invD(1) [OF inv] in blast)
  moreover have "hashed_but t g = hashed t - {i}"
  proof -
    have "(\<exists>h<length t. h \<noteq> g \<and> slot t h = j) \<longleftrightarrow> (\<exists>h<length t. slot t h = j) \<and> j \<noteq> i" if "j \<noteq> 0" for j
      using local_invD(3) [OF inv g(2)] g i0 that by metis
    then show ?thesis by (auto simp: hashed_def hashed_but_def)
  qed
  ultimately show ?thesis
    using delete_loop_spec [of t g e] g e i0 by (auto simp: ipc_hash_local_delete_def)
qed

end
