(* ===== verification/Ipc_Hash.thy ===== *)
theory Ipc_Hash
  imports Ipc_Hash_Local
begin

text \<open>
  The interface of the reverse hash tables and its two implementations: the local table, and the
  global table, which holds the tree entries of all spaces in buckets with move-to-front.
\<close>

section \<open>The interface: a map from objects to entries\<close>

locale reverse_map =
  fixes inv :: "'s \<Rightarrow> bool"
    and contents :: "'s \<Rightarrow> (ipc_object_t \<times> 'v) set"
    and may_insert :: "'s \<Rightarrow> ipc_object_t \<Rightarrow> 'v \<Rightarrow> bool"
    and lookup :: "'s \<Rightarrow> ipc_object_t \<Rightarrow> ('v option \<times> 's) option"
    and insert_rev :: "'s \<Rightarrow> ipc_object_t \<Rightarrow> 'v \<Rightarrow> 's option"
    and delete_rev :: "'s \<Rightarrow> ipc_object_t \<Rightarrow> 'v \<Rightarrow> 's option"
  assumes unique: "inv s \<Longrightarrow> (obj, v) \<in> contents s \<Longrightarrow> (obj, w) \<in> contents s \<Longrightarrow> v = w"
    and may_insert_new: "inv s \<Longrightarrow> may_insert s obj v \<Longrightarrow> (obj, w) \<notin> contents s"
    and lookup_law: "inv s \<Longrightarrow> \<exists>r s'. lookup s obj = Some (r, s') \<and> inv s' \<and> contents s' = contents s \<and>
      (case r of None \<Rightarrow> \<forall>v. (obj, v) \<notin> contents s | Some v \<Rightarrow> (obj, v) \<in> contents s)"
    and insert_law: "inv s \<Longrightarrow> may_insert s obj v \<Longrightarrow>
      \<exists>s'. insert_rev s obj v = Some s' \<and> inv s' \<and> contents s' = insert (obj, v) (contents s)"
    and delete_law: "inv s \<Longrightarrow> (obj, v) \<in> contents s \<Longrightarrow>
      \<exists>s'. delete_rev s obj v = Some s' \<and> inv s' \<and> contents s' = contents s - {(obj, v)}"
begin

lemma lookup_Some:
  assumes "inv s" "(obj, v) \<in> contents s"
  shows "\<exists>s'. lookup s obj = Some (Some v, s') \<and> inv s' \<and> contents s' = contents s"
proof -
  obtain r s' where r: "lookup s obj = Some (r, s')" "inv s'" "contents s' = contents s"
    "case r of None \<Rightarrow> \<forall>v. (obj, v) \<notin> contents s | Some v \<Rightarrow> (obj, v) \<in> contents s"
    using lookup_law [OF assms(1)] by blast
  then have "r = Some v" using assms unique by (cases r) auto
  then show ?thesis using r by blast
qed

lemma lookup_None:
  assumes "inv s" "\<And>v. (obj, v) \<notin> contents s"
  shows "\<exists>s'. lookup s obj = Some (None, s') \<and> inv s' \<and> contents s' = contents s"
proof -
  obtain r s' where r: "lookup s obj = Some (r, s')" "inv s'" "contents s' = contents s"
    "case r of None \<Rightarrow> \<forall>v. (obj, v) \<notin> contents s | Some v \<Rightarrow> (obj, v) \<in> contents s"
    using lookup_law [OF assms(1)] by blast
  then have "r = None" using assms(2) by (cases r) auto
  then show ?thesis using r by blast
qed

lemma lookup_after_insert:
  assumes "inv s" "may_insert s obj v" "insert_rev s obj v = Some s'"
  shows "\<exists>s''. lookup s' obj = Some (Some v, s'')"
    and "obj' \<noteq> obj \<Longrightarrow> map_option fst (lookup s' obj') = map_option fst (lookup s obj')"
proof -
  have s': "inv s'" "contents s' = insert (obj, v) (contents s)"
    using insert_law [OF assms(1,2)] assms(3) by auto
  then show "\<exists>s''. lookup s' obj = Some (Some v, s'')"
    using lookup_Some [of s' obj v] by auto
  assume ne: "obj' \<noteq> obj"
  show "map_option fst (lookup s' obj') = map_option fst (lookup s obj')"
  proof (cases "\<exists>w. (obj', w) \<in> contents s")
    case True
    then obtain w where "(obj', w) \<in> contents s" by blast
    then show ?thesis
      using lookup_Some [OF assms(1), of obj' w] lookup_Some [OF s'(1), of obj' w] s'(2) by auto
  next
    case False
    then show ?thesis
      using lookup_None [OF assms(1), of obj'] lookup_None [OF s'(1), of obj'] s'(2) ne by auto
  qed
qed

lemma lookup_after_delete:
  assumes "inv s" "(obj, v) \<in> contents s" "delete_rev s obj v = Some s'"
  shows "\<exists>s''. lookup s' obj = Some (None, s'')"
proof -
  have "inv s'" "contents s' = contents s - {(obj, v)}"
    using delete_law [OF assms(1,2)] assms(3) by auto
  then show ?thesis using lookup_None [of s' obj] unique [OF assms(1,2)] by auto
qed

lemma delete_after_insert:
  assumes "inv s" "may_insert s obj v" "insert_rev s obj v = Some s'"
  shows "\<exists>s''. delete_rev s' obj v = Some s'' \<and> inv s'' \<and> contents s'' = contents s"
proof -
  have s': "inv s'" "contents s' = insert (obj, v) (contents s)"
    using insert_law [OF assms(1,2)] assms(3) by auto
  then obtain s'' where "delete_rev s' obj v = Some s''" "inv s''" "contents s'' = contents s' - {(obj, v)}"
    using delete_law [of s' obj v] by auto
  then show ?thesis using s' may_insert_new [OF assms(1,2), of v] by auto
qed

end

section \<open>The local table implements it\<close>

definition rev_inv :: "ipc_entry list \<Rightarrow> bool" where
  "rev_inv t \<longleftrightarrow> local_inv t \<and> inj_on (\<lambda>i. ie_object (t ! i)) (hashed t)"

definition rev_contents :: "ipc_entry list \<Rightarrow> (ipc_object_t \<times> nat) set" where
  "rev_contents t = (\<lambda>i. (ie_object (t ! i), i)) ` hashed t"

definition rev_may_insert :: "ipc_entry list \<Rightarrow> ipc_object_t \<Rightarrow> nat \<Rightarrow> bool" where
  "rev_may_insert t obj i \<longleftrightarrow>
     i \<noteq> 0 \<and> i < length t \<and> ie_object (t ! i) = obj \<and> (\<forall>j\<in>hashed t. ie_object (t ! j) \<noteq> obj)"

definition local_find :: "ipc_entry list \<Rightarrow> ipc_object_t \<Rightarrow> (nat option \<times> ipc_entry list) option" where
  "local_find t obj = map_option (\<lambda>r. (map_option snd r, t)) (ipc_hash_local_lookup t obj)"

lemma ie_object_unhashed:
  assumes "unhashed t' = unhashed t"
  shows "length t' = length t" "i < length t \<Longrightarrow> ie_object (t' ! i) = ie_object (t ! i)"
    "i < length t \<Longrightarrow> ie_bits (t' ! i) = ie_bits (t ! i)"
    "i < length t \<Longrightarrow> ie_request (t' ! i) = ie_request (t ! i)"
proof -
  show l: "length t' = length t" using assms unfolding unhashed_def by (metis length_map)
  have "(t' ! i)\<lparr>ie_index := 0\<rparr> = (t ! i)\<lparr>ie_index := 0\<rparr>" if "i < length t"
    using arg_cong [OF assms, of "\<lambda>u. u ! i"] that l by (simp add: unhashed_def)
  then show "i < length t \<Longrightarrow> ie_object (t' ! i) = ie_object (t ! i)"
    "i < length t \<Longrightarrow> ie_bits (t' ! i) = ie_bits (t ! i)"
    "i < length t \<Longrightarrow> ie_request (t' ! i) = ie_request (t ! i)"
    by (metis ipc_entry.ext_inject ipc_entry.surjective ipc_entry.update_convs(4))+
qed

lemma hashed_less: "local_inv t \<Longrightarrow> i \<in> hashed t \<Longrightarrow> i < length t"
  using local_invD(1) by (auto simp: hashed_def hashed_but_def)

lemma local_find_Some: "local_find t obj = Some (r, t') \<longleftrightarrow>
    local_lookup_loop t obj (IH_LOCAL_HASH obj (length t)) = Some r \<and> t' = t"
  by (cases r) (auto simp: local_find_def ipc_hash_local_lookup_def bind_eq_Some_conv option.map_comp comp_def)

interpretation local_rev: reverse_map rev_inv rev_contents rev_may_insert local_find
  ipc_hash_local_insert ipc_hash_local_delete
proof unfold_locales
  fix t :: "ipc_entry list" and obj v w
  assume t: "rev_inv t"
  then have inv: "local_inv t" by (simp add: rev_inv_def)
  show "v = w" if "(obj, v) \<in> rev_contents t" "(obj, w) \<in> rev_contents t"
    using t that by (auto simp: rev_inv_def rev_contents_def dest: inj_onD)
  show "(obj, w) \<notin> rev_contents t" if "rev_may_insert t obj v"
    using that by (auto simp: rev_may_insert_def rev_contents_def)
  show "\<exists>r t'. local_find t obj = Some (r, t') \<and> rev_inv t' \<and> rev_contents t' = rev_contents t \<and>
      (case r of None \<Rightarrow> \<forall>v. (obj, v) \<notin> rev_contents t | Some v \<Rightarrow> (obj, v) \<in> rev_contents t)"
  proof -
    obtain r where r: "local_lookup_loop t obj (IH_LOCAL_HASH obj (length t)) = Some r"
      "case r of None \<Rightarrow> \<forall>i\<in>hashed t. ie_object (t ! i) \<noteq> obj
         | Some i \<Rightarrow> i \<in> hashed t \<and> ie_object (t ! i) = obj"
      using local_lookup_finds [OF inv] by blast
    have "local_find t obj = Some (r, t)" using r(1) by (simp add: local_find_Some)
    moreover have "case r of None \<Rightarrow> \<forall>v. (obj, v) \<notin> rev_contents t | Some v \<Rightarrow> (obj, v) \<in> rev_contents t"
      using r(2) by (cases r) (auto simp: rev_contents_def)
    ultimately show ?thesis using t by blast
  qed
  show "\<exists>t'. ipc_hash_local_insert t obj v = Some t' \<and> rev_inv t' \<and>
      rev_contents t' = insert (obj, v) (rev_contents t)" if may: "rev_may_insert t obj v"
  proof -
    have v: "v \<noteq> 0" "v < length t" "v \<notin> hashed t" "ie_object (t ! v) = obj"
      using may by (auto simp: rev_may_insert_def)
    obtain h where "ipc_hash_local_insert t obj v = Some (set_slot h v t)"
      "local_inv (set_slot h v t)" "hashed (set_slot h v t) = insert v (hashed t)"
      using local_insert_spec [OF inv v] by blast
    then show ?thesis
      using t may v(4) by (auto simp: rev_inv_def rev_contents_def rev_may_insert_def inj_on_def)
  qed
  show "\<exists>t'. ipc_hash_local_delete t obj v = Some t' \<and> rev_inv t' \<and>
      rev_contents t' = rev_contents t - {(obj, v)}" if mem: "(obj, v) \<in> rev_contents t"
  proof -
    have v: "v \<in> hashed t" "ie_object (t ! v) = obj" using mem by (auto simp: rev_contents_def)
    obtain t' where t': "ipc_hash_local_delete t obj v = Some t'" "local_inv t'"
      "hashed t' = hashed t - {v}" "unhashed t' = unhashed t"
      using local_delete_spec [OF inv v] by blast
    have "ie_object (t' ! i) = ie_object (t ! i)" if "i \<in> hashed t" for i
      using ie_object_unhashed(2) [OF t'(4)] hashed_less [OF inv that] by simp
    then have "rev_inv t'" "rev_contents t' = rev_contents t - {(obj, v)}"
      using t t' v by (auto simp: rev_inv_def rev_contents_def inj_on_def)
    then show ?thesis using t'(1) by blast
  qed
qed

section \<open>The global table\<close>

text \<open>
  The size of the global table: a power of two, by filling the bits of the mask from below.  The
  loop ends at the latest when the mask is all ones and \<open>ipc_hash_global_mask + 1\<close> wraps to zero.
\<close>

partial_function (option) round_up_loop :: "u32 \<Rightarrow> u32 \<Rightarrow> (u32 \<times> u32) option" where
  "round_up_loop bitn mask0 =
     do { let mask1 = mask0 OR bitn;
          let size1 = mask1 + 1;
          if size1 AND mask1 = 0 then Some (size1, mask1)
          else round_up_loop (push_bit 1 bitn) mask1 }"

definition ipc_hash_init :: "u32 \<Rightarrow> u32 \<Rightarrow> (u32 \<times> u32) option" where
  "ipc_hash_init ipc_hash_global_size ipc_tree_entry_max =
     do { let size0 = (if ipc_hash_global_size = 0
                       then (if drop_bit 8 ipc_tree_entry_max < 32 then 32
                             else drop_bit 8 ipc_tree_entry_max)
                       else ipc_hash_global_size);
          let mask0 = size0 - 1;
          if size0 AND mask0 \<noteq> 0 then round_up_loop 1 mask0 else Some (size0, mask0) }"

definition IH_GLOBAL_HASH :: "'a ipc_state_scheme \<Rightarrow> ipc_space_t \<Rightarrow> ipc_object_t \<Rightarrow> nat" where
  "IH_GLOBAL_HASH s space obj =
     unat ((drop_bit 4 space + drop_bit 6 obj) AND
           of_nat (length (ipc_hash_global_table s) - 1))"

text \<open>The search of a bucket: the entries before the one found, the entry, and those after it.\<close>

fun bucket_find ::
  "(ipc_tree_entry_t \<rightharpoonup> ipc_tree_entry) \<Rightarrow> ipc_space_t \<Rightarrow> ipc_object_t \<Rightarrow> ipc_tree_entry_t list
     \<Rightarrow> (ipc_tree_entry_t list \<times> ipc_tree_entry_t \<times> ipc_tree_entry_t list) option option" where
  "bucket_find ites space obj [] = Some None"
| "bucket_find ites space obj (this # bucket) =
     do { te \<leftarrow> ites this;
          if ite_object te = obj \<and> ite_space te = space then Some (Some ([], this, bucket))
          else do { r \<leftarrow> bucket_find ites space obj bucket;
                    Some (map_option (\<lambda>(pre, q, post). (this # pre, q, post)) r) } }"

definition ipc_hash_global_lookup ::
  "'a ipc_state_scheme \<Rightarrow> ipc_object_t
     \<Rightarrow> ((mach_port_name_t \<times> ipc_tree_entry_t) option \<times> 'a ipc_state_scheme) option" where
  "ipc_hash_global_lookup s obj =
     do { let b = IH_GLOBAL_HASH s (st_self s) obj;
          bucket \<leftarrow> nth_opt (ipc_hash_global_table s) b;
          r \<leftarrow> bucket_find (st_tree_entries s) (st_self s) obj bucket;
          case r of
            None \<Rightarrow> Some (None, s)
          | Some (pre, this, post) \<Rightarrow>
              do { te \<leftarrow> st_tree_entries s this;
                   Some (Some (ite_name te, this),
                         s\<lparr>ipc_hash_global_table :=
                             (ipc_hash_global_table s)[b := this # pre @ post]\<rparr>) } }"

definition ipc_hash_global_insert ::
  "'a ipc_state_scheme \<Rightarrow> ipc_object_t \<Rightarrow> ipc_tree_entry_t \<Rightarrow> 'a ipc_state_scheme option" where
  "ipc_hash_global_insert s obj entry =
     do { let s1 = set_space (is_tree_hash_update Suc) s;
          let b = IH_GLOBAL_HASH s (st_self s) obj;
          bucket \<leftarrow> nth_opt (ipc_hash_global_table s) b;
          Some (s1\<lparr>ipc_hash_global_table := (ipc_hash_global_table s)[b := entry # bucket]\<rparr>) }"

definition ipc_hash_global_delete ::
  "'a ipc_state_scheme \<Rightarrow> ipc_object_t \<Rightarrow> ipc_tree_entry_t \<Rightarrow> 'a ipc_state_scheme option" where
  "ipc_hash_global_delete s obj entry =
     (if is_tree_hash (st_space s) = 0 then None
      else do { let s1 = set_space (is_tree_hash_update (\<lambda>n. n - 1)) s;
                let b = IH_GLOBAL_HASH s (st_self s) obj;
                bucket \<leftarrow> nth_opt (ipc_hash_global_table s) b;
                Some (s1\<lparr>ipc_hash_global_table :=
                        (ipc_hash_global_table s)[b := remove1 entry bucket]\<rparr>) })"

section \<open>The global table implements the interface\<close>

text \<open>The entries of the global table, and those of the space of the state.\<close>

definition global_entries :: "'a ipc_state_scheme \<Rightarrow> ipc_tree_entry_t set" where
  "global_entries s =
     {p. \<exists>b<length (ipc_hash_global_table s). p \<in> set (ipc_hash_global_table s ! b)}"

definition own_entries :: "'a ipc_state_scheme \<Rightarrow> ipc_tree_entry_t set" where
  "own_entries s =
     {p \<in> global_entries s. \<exists>te. st_tree_entries s p = Some te \<and> ite_space te = st_self s}"

definition global_inv :: "'a ipc_state_scheme \<Rightarrow> bool" where
  "global_inv s \<longleftrightarrow>
     ipc_hash_global_table s \<noteq> [] \<and> length (ipc_hash_global_table s) \<le> 2 ^ 32 \<and>
     (\<forall>b<length (ipc_hash_global_table s). distinct (ipc_hash_global_table s ! b) \<and>
        (\<forall>p\<in>set (ipc_hash_global_table s ! b). \<exists>te. st_tree_entries s p = Some te \<and>
           IH_GLOBAL_HASH s (ite_space te) (ite_object te) = b)) \<and>
     (\<forall>p\<in>global_entries s. \<forall>q\<in>global_entries s.
        map_option (\<lambda>te. (ite_space te, ite_object te)) (st_tree_entries s p) =
        map_option (\<lambda>te. (ite_space te, ite_object te)) (st_tree_entries s q) \<longrightarrow> p = q) \<and>
     is_tree_hash (st_space s) = card (own_entries s)"

lemma IH_GLOBAL_HASH_less:
  assumes "ipc_hash_global_table s \<noteq> []" "length (ipc_hash_global_table s) \<le> 2 ^ 32"
  shows "IH_GLOBAL_HASH s space obj < length (ipc_hash_global_table s)"
proof -
  let ?n = "length (ipc_hash_global_table s)"
  have "unat (x AND of_nat (?n - 1)) \<le> unat (of_nat (?n - 1) :: u32)" for x :: u32
    using word_and_le1 word_le_nat_alt by blast
  also have "unat (of_nat (?n - 1) :: u32) = ?n - 1"
    using assms by (cases "ipc_hash_global_table s") (auto simp: unsigned_of_nat take_bit_nat_eq_self_iff)
  finally have "unat (drop_bit 4 space + drop_bit 6 obj AND of_nat (?n - 1)) \<le> ?n - 1" .
  then show ?thesis using assms(1) by (cases "ipc_hash_global_table s") (auto simp: IH_GLOBAL_HASH_def)
qed

lemma bucket_find_spec:
  assumes "\<forall>p\<in>set bucket. ites p \<noteq> None"
  shows "\<exists>r. bucket_find ites space obj bucket = Some r \<and>
    (case r of
       None \<Rightarrow> \<forall>p\<in>set bucket. \<forall>te. ites p = Some te \<longrightarrow> \<not> (ite_object te = obj \<and> ite_space te = space)
     | Some (pre, q, post) \<Rightarrow> bucket = pre @ q # post \<and>
         (\<exists>te. ites q = Some te \<and> ite_object te = obj \<and> ite_space te = space))"
  using assms
proof (induction bucket)
  case (Cons p bucket)
  then obtain te where te: "ites p = Some te" by auto
  obtain r where r: "bucket_find ites space obj bucket = Some r"
    "case r of
       None \<Rightarrow> \<forall>p\<in>set bucket. \<forall>te. ites p = Some te \<longrightarrow> \<not> (ite_object te = obj \<and> ite_space te = space)
     | Some (pre, q, post) \<Rightarrow> bucket = pre @ q # post \<and>
         (\<exists>te. ites q = Some te \<and> ite_object te = obj \<and> ite_space te = space)"
    using Cons by auto
  show ?case
  proof (cases "ite_object te = obj \<and> ite_space te = space")
    case True
    then show ?thesis using te by auto
  next
    case False
    then show ?thesis using te r by (cases r) (auto split: prod.splits)
  qed
qed simp

text \<open>The key of an entry, the pair the table is searched for.\<close>

abbreviation entry_key :: "'a ipc_state_scheme \<Rightarrow> ipc_tree_entry_t \<Rightarrow> (ipc_space_t \<times> ipc_object_t) option" where
  "entry_key s p \<equiv> map_option (\<lambda>te. (ite_space te, ite_object te)) (st_tree_entries s p)"

abbreviation key_bucket :: "'a ipc_state_scheme \<Rightarrow> ipc_object_t \<Rightarrow> nat" where
  "key_bucket s obj \<equiv> IH_GLOBAL_HASH s (st_self s) obj"

definition grev_contents :: "'a ipc_state_scheme \<Rightarrow> (ipc_object_t \<times> ipc_tree_entry_t) set" where
  "grev_contents s = {(obj, p). p \<in> global_entries s \<and> entry_key s p = Some (st_self s, obj)}"

definition grev_may_insert :: "'a ipc_state_scheme \<Rightarrow> ipc_object_t \<Rightarrow> ipc_tree_entry_t \<Rightarrow> bool" where
  "grev_may_insert s obj p \<longleftrightarrow>
     entry_key s p = Some (st_self s, obj) \<and> (\<forall>q\<in>global_entries s. entry_key s q \<noteq> entry_key s p)"

definition global_find ::
  "'a ipc_state_scheme \<Rightarrow> ipc_object_t \<Rightarrow> (ipc_tree_entry_t option \<times> 'a ipc_state_scheme) option" where
  "global_find s obj = map_option (map_prod (map_option snd) id) (ipc_hash_global_lookup s obj)"

lemma global_invD:
  assumes "global_inv s"
  shows "b < length (ipc_hash_global_table s) \<Longrightarrow> distinct (ipc_hash_global_table s ! b)"
    and "b < length (ipc_hash_global_table s) \<Longrightarrow> p \<in> set (ipc_hash_global_table s ! b) \<Longrightarrow>
      \<exists>te. st_tree_entries s p = Some te \<and> IH_GLOBAL_HASH s (ite_space te) (ite_object te) = b"
    and "p \<in> global_entries s \<Longrightarrow> q \<in> global_entries s \<Longrightarrow> entry_key s p = entry_key s q \<Longrightarrow> p = q"
    and "is_tree_hash (st_space s) = card (own_entries s)"
    and "IH_GLOBAL_HASH s space obj < length (ipc_hash_global_table s)"
  using assms IH_GLOBAL_HASH_less [of s] unfolding global_inv_def by blast+

text \<open>A bucket replaced: what becomes of the entries and of the invariant.\<close>

lemma global_entries_update:
  assumes "b < length (ipc_hash_global_table s)" "global_inv s"
    "ipc_hash_global_table s' = (ipc_hash_global_table s)[b := bucket]"
    "st_tree_entries s' = st_tree_entries s" "st_self s' = st_self s"
    "distinct bucket" "\<forall>p\<in>set bucket. \<exists>te. st_tree_entries s p = Some te \<and>
       IH_GLOBAL_HASH s (ite_space te) (ite_object te) = b"
    "\<forall>p\<in>set bucket. p \<notin> set (ipc_hash_global_table s ! b) \<longrightarrow>
       (\<forall>q\<in>global_entries s. entry_key s q \<noteq> entry_key s p)"
    "\<forall>p\<in>set bucket. \<forall>q\<in>set bucket. entry_key s p = entry_key s q \<longrightarrow> p = q"
  shows "global_entries s' = global_entries s - set (ipc_hash_global_table s ! b) \<union> set bucket \<and>
    (is_tree_hash (st_space s') = card (own_entries s') \<longrightarrow> global_inv s')"
proof -
  let ?g = "ipc_hash_global_table s" and ?g' = "ipc_hash_global_table s'"
  have len: "length ?g' = length ?g" using assms(3) by simp
  have nth: "?g' ! c = (if c = b then bucket else ?g ! c)" if "c < length ?g" for c
    using assms(3) that by simp
  have other: "p \<notin> set (?g ! b)" if "p \<in> set (?g ! c)" "c < length ?g" "c \<noteq> b" for p c
    using global_invD(2) [OF assms(2), of c p] global_invD(2) [OF assms(2,1), of p] that by auto
  have "(\<exists>c<length ?g. p \<in> set (?g' ! c)) \<longleftrightarrow> p \<in> set bucket \<or> (\<exists>c<length ?g. c \<noteq> b \<and> p \<in> set (?g ! c))" for p
    using nth assms(1) by (metis (no_types))
  moreover have "(\<exists>c<length ?g. c \<noteq> b \<and> p \<in> set (?g ! c)) \<longleftrightarrow> p \<in> global_entries s \<and> p \<notin> set (?g ! b)" for p
    unfolding global_entries_def using other by blast
  ultimately have ent: "global_entries s' = global_entries s - set (?g ! b) \<union> set bucket"
    unfolding global_entries_def [of s'] len by blast
  have hash: "IH_GLOBAL_HASH s' = IH_GLOBAL_HASH s" by (simp add: IH_GLOBAL_HASH_def len fun_eq_iff)
  have "distinct (?g' ! c) \<and> (\<forall>p\<in>set (?g' ! c). \<exists>te. st_tree_entries s p = Some te \<and>
      IH_GLOBAL_HASH s' (ite_space te) (ite_object te) = c)" if "c < length ?g" for c
    unfolding hash nth [OF that] using that assms(6,7) global_invD(1,2) [OF assms(2), of c] by simp
  moreover have "p = q" if pq: "p \<in> global_entries s'" "q \<in> global_entries s'"
    "entry_key s p = entry_key s q" for p q
  proof -
    have mem: "x \<in> global_entries s" if "x \<in> set (?g ! b)" for x
      using that assms(1) by (auto simp: global_entries_def)
    have new: "x \<in> global_entries s" if "x \<in> global_entries s'" "x \<notin> set bucket" for x
      using that ent by blast
    have key: "entry_key s x \<noteq> entry_key s y"
      if "x \<in> set bucket" "x \<notin> set (?g ! b)" "y \<in> global_entries s" for x y
      using bspec [OF assms(8) that(1)] that(2,3) by force
    show ?thesis
    proof (cases "p \<in> set bucket \<and> q \<in> set bucket")
      case True
      then show ?thesis using assms(9) pq(3) by blast
    next
      case False
      then have "p \<in> global_entries s" "q \<in> global_entries s"
        using new [OF pq(1)] new [OF pq(2)] mem key [of p q] key [of q p] pq(3) by metis+
      then show ?thesis using global_invD(3) [OF assms(2)] pq(3) by blast
    qed
  qed
  moreover have "?g \<noteq> []" "length ?g \<le> 2 ^ 32" using assms(2) by (auto simp: global_inv_def)
  moreover have "?g' \<noteq> []" using assms(1,3) by auto
  ultimately have "is_tree_hash (st_space s') = card (own_entries s') \<longrightarrow> global_inv s'"
    unfolding global_inv_def assms(4) len by blast
  then show ?thesis using ent by blast
qed

lemma finite_global_entries: "finite (global_entries s)"
proof -
  have "global_entries s = (\<Union>b\<in>{..<length (ipc_hash_global_table s)}. set (ipc_hash_global_table s ! b))"
    by (auto simp: global_entries_def)
  then show ?thesis by simp
qed

lemma own_entries_alt: "own_entries s = {p \<in> global_entries s. \<exists>obj. entry_key s p = Some (st_self s, obj)}"
  by (auto simp: own_entries_def)

lemma global_entry_bucket:
  assumes "global_inv s" "p \<in> global_entries s" "entry_key s p = Some (st_self s, obj)"
  shows "p \<in> set (ipc_hash_global_table s ! key_bucket s obj)"
proof -
  obtain b where b: "b < length (ipc_hash_global_table s)" "p \<in> set (ipc_hash_global_table s ! b)"
    using assms(2) by (auto simp: global_entries_def)
  then show ?thesis using global_invD(2) [OF assms(1) b] assms(3) by auto
qed

lemma bucket_entries:
  assumes "global_inv s" "b < length (ipc_hash_global_table s)" "p \<in> set (ipc_hash_global_table s ! b)"
  shows "p \<in> global_entries s"
  using assms by (auto simp: global_entries_def)

lemma global_lookup_law:
  assumes inv: "global_inv s"
  shows "\<exists>r s'. global_find s obj = Some (r, s') \<and> global_inv s' \<and> grev_contents s' = grev_contents s \<and>
    (case r of None \<Rightarrow> \<forall>v. (obj, v) \<notin> grev_contents s | Some v \<Rightarrow> (obj, v) \<in> grev_contents s)"
proof -
  let ?g = "ipc_hash_global_table s" and ?b = "key_bucket s obj"
  have b: "?b < length ?g" using global_invD(5) [OF inv] .
  have "\<forall>p\<in>set (?g ! ?b). st_tree_entries s p \<noteq> None" using global_invD(2) [OF inv b] by auto
  then obtain r where r: "bucket_find (st_tree_entries s) (st_self s) obj (?g ! ?b) = Some r"
    "case r of
       None \<Rightarrow> \<forall>p\<in>set (?g ! ?b). \<forall>te. st_tree_entries s p = Some te \<longrightarrow>
         \<not> (ite_object te = obj \<and> ite_space te = st_self s)
     | Some (pre, q, post) \<Rightarrow> ?g ! ?b = pre @ q # post \<and>
         (\<exists>te. st_tree_entries s q = Some te \<and> ite_object te = obj \<and> ite_space te = st_self s)"
    using bucket_find_spec by blast
  show ?thesis
  proof (cases r)
    case None
    have "(obj, p) \<notin> grev_contents s" for p
    proof
      assume p: "(obj, p) \<in> grev_contents s"
      then have "p \<in> set (?g ! ?b)"
        using global_entry_bucket [OF inv] by (simp add: grev_contents_def)
      then show False using r(2) None p by (auto simp: grev_contents_def)
    qed
    then show ?thesis
      using None r(1) b inv by (auto simp: global_find_def ipc_hash_global_lookup_def)
  next
    case (Some x)
    obtain pre q post where x: "x = (pre, q, post)" by (cases x)
    then obtain te where q: "?g ! ?b = pre @ q # post" "st_tree_entries s q = Some te"
      "ite_object te = obj" "ite_space te = st_self s"
      using r(2) Some by auto
    let ?s = "s\<lparr>ipc_hash_global_table := ?g[?b := q # pre @ post]\<rparr>"
    have same: "set (q # pre @ post) = set (?g ! ?b)" using q(1) by auto
    have old: "p \<in> global_entries s" if "p \<in> set (q # pre @ post)" for p
      using bucket_entries [OF inv b] that same by blast
    have upd: "global_entries ?s = global_entries s - set (?g ! ?b) \<union> set (q # pre @ post) \<and>
      (is_tree_hash (st_space ?s) = card (own_entries ?s) \<longrightarrow> global_inv ?s)"
    proof (rule global_entries_update [OF b inv])
      show "distinct (q # pre @ post)" using global_invD(1) [OF inv b] q(1) by auto
      show "\<forall>p\<in>set (q # pre @ post). \<exists>te. st_tree_entries s p = Some te \<and>
          IH_GLOBAL_HASH s (ite_space te) (ite_object te) = ?b"
        using global_invD(2) [OF inv b] same by blast
      show "\<forall>p\<in>set (q # pre @ post). p \<notin> set (?g ! ?b) \<longrightarrow>
          (\<forall>q\<in>global_entries s. entry_key s q \<noteq> entry_key s p)"
        using same by blast
      show "\<forall>x\<in>set (q # pre @ post). \<forall>y\<in>set (q # pre @ post). entry_key s x = entry_key s y \<longrightarrow> x = y"
        using global_invD(3) [OF inv] old by blast
    qed simp_all
    have ent: "global_entries ?s = global_entries s"
      using upd same old by blast
    have "own_entries ?s = own_entries s" using ent by (simp add: own_entries_def)
    then have "global_inv ?s" using upd global_invD(4) [OF inv] by simp
    moreover have "grev_contents ?s = grev_contents s" using ent by (simp add: grev_contents_def)
    moreover have "(obj, q) \<in> grev_contents s" using old q by (auto simp: grev_contents_def)
    moreover have "global_find s obj = Some (Some q, ?s)"
      using r(1) Some x b q(2) by (simp add: global_find_def ipc_hash_global_lookup_def)
    ultimately show ?thesis by auto
  qed
qed

lemma global_insert_law:
  assumes inv: "global_inv s" and may: "grev_may_insert s obj p"
  shows "\<exists>s'. ipc_hash_global_insert s obj p = Some s' \<and> global_inv s' \<and>
    grev_contents s' = insert (obj, p) (grev_contents s)"
proof -
  let ?g = "ipc_hash_global_table s" and ?b = "key_bucket s obj"
  let ?s = "s\<lparr>st_space := is_tree_hash_update Suc (st_space s),
    ipc_hash_global_table := ?g[?b := p # ?g ! ?b]\<rparr>"
  have b: "?b < length ?g" using global_invD(5) [OF inv] .
  have key: "entry_key s p = Some (st_self s, obj)"
    and new: "\<forall>q\<in>global_entries s. entry_key s q \<noteq> entry_key s p"
    using may by (auto simp: grev_may_insert_def)
  then have fresh: "p \<notin> global_entries s" by blast
  then have nb: "p \<notin> set (?g ! ?b)" using b by (auto simp: global_entries_def)
  have old: "q \<in> global_entries s" if "q \<in> set (?g ! ?b)" for q
    using bucket_entries [OF inv b that] .
  have upd: "global_entries ?s = global_entries s - set (?g ! ?b) \<union> set (p # ?g ! ?b) \<and>
    (is_tree_hash (st_space ?s) = card (own_entries ?s) \<longrightarrow> global_inv ?s)"
  proof (rule global_entries_update [OF b inv])
    show "distinct (p # ?g ! ?b)" using global_invD(1) [OF inv b] nb by simp
    show "\<forall>q\<in>set (p # ?g ! ?b). \<exists>te. st_tree_entries s q = Some te \<and>
        IH_GLOBAL_HASH s (ite_space te) (ite_object te) = ?b"
      using global_invD(2) [OF inv b] key by auto
    show "\<forall>q\<in>set (p # ?g ! ?b). q \<notin> set (?g ! ?b) \<longrightarrow>
        (\<forall>r\<in>global_entries s. entry_key s r \<noteq> entry_key s q)"
      using new by simp
    show "\<forall>x\<in>set (p # ?g ! ?b). \<forall>y\<in>set (p # ?g ! ?b). entry_key s x = entry_key s y \<longrightarrow> x = y"
    proof (intro ballI impI)
      fix x y
      assume xy: "x \<in> set (p # ?g ! ?b)" "y \<in> set (p # ?g ! ?b)" "entry_key s x = entry_key s y"
      consider "x = p" "y = p" | "x = p" "y \<in> global_entries s" | "x \<in> global_entries s" "y = p"
        | "x \<in> global_entries s" "y \<in> global_entries s"
        using xy(1,2) old by auto
      then show "x = y"
      proof cases
        case 2
        then show ?thesis using bspec [OF new 2(2)] xy(3) by simp
      next
        case 3
        then show ?thesis using bspec [OF new 3(1)] xy(3) by simp
      next
        case 4
        show ?thesis using global_invD(3) [OF inv 4 xy(3)] .
      qed simp
    qed
  qed simp_all
  have ent: "global_entries ?s = insert p (global_entries s)" using upd old by auto
  have own: "own_entries ?s = insert p (own_entries s)"
    unfolding own_entries_alt ent using key by auto
  have "card (own_entries ?s) = Suc (card (own_entries s))"
    unfolding own using fresh finite_global_entries [of s] by (simp add: own_entries_alt)
  then have "global_inv ?s" using upd global_invD(4) [OF inv] by simp
  moreover have "grev_contents ?s = insert (obj, p) (grev_contents s)"
    unfolding grev_contents_def ent using key by auto
  moreover have "ipc_hash_global_insert s obj p = Some ?s"
    using b by (simp add: ipc_hash_global_insert_def Let_def)
  ultimately show ?thesis by blast
qed

lemma global_delete_law:
  assumes inv: "global_inv s" and mem: "(obj, p) \<in> grev_contents s"
  shows "\<exists>s'. ipc_hash_global_delete s obj p = Some s' \<and> global_inv s' \<and>
    grev_contents s' = grev_contents s - {(obj, p)}"
proof -
  let ?g = "ipc_hash_global_table s" and ?b = "key_bucket s obj"
  let ?s = "s\<lparr>st_space := is_tree_hash_update (\<lambda>n. n - 1) (st_space s),
    ipc_hash_global_table := ?g[?b := remove1 p (?g ! ?b)]\<rparr>"
  have b: "?b < length ?g" using global_invD(5) [OF inv] .
  have key: "entry_key s p = Some (st_self s, obj)" and p: "p \<in> global_entries s"
    using mem by (auto simp: grev_contents_def)
  have pb: "p \<in> set (?g ! ?b)" using global_entry_bucket [OF inv p key] .
  have rem: "set (remove1 p (?g ! ?b)) = set (?g ! ?b) - {p}" using global_invD(1) [OF inv b] by simp
  have old: "q \<in> global_entries s" if "q \<in> set (?g ! ?b)" for q
    using bucket_entries [OF inv b that] .
  have upd: "global_entries ?s = global_entries s - set (?g ! ?b) \<union> set (remove1 p (?g ! ?b)) \<and>
    (is_tree_hash (st_space ?s) = card (own_entries ?s) \<longrightarrow> global_inv ?s)"
  proof (rule global_entries_update [OF b inv])
    show "distinct (remove1 p (?g ! ?b))" using global_invD(1) [OF inv b] by simp
    show "\<forall>q\<in>set (remove1 p (?g ! ?b)). \<exists>te. st_tree_entries s q = Some te \<and>
        IH_GLOBAL_HASH s (ite_space te) (ite_object te) = ?b"
      using global_invD(2) [OF inv b] rem by blast
    show "\<forall>q\<in>set (remove1 p (?g ! ?b)). q \<notin> set (?g ! ?b) \<longrightarrow>
        (\<forall>r\<in>global_entries s. entry_key s r \<noteq> entry_key s q)"
      using rem by blast
    show "\<forall>x\<in>set (remove1 p (?g ! ?b)). \<forall>y\<in>set (remove1 p (?g ! ?b)).
        entry_key s x = entry_key s y \<longrightarrow> x = y"
      using global_invD(3) [OF inv] old rem by blast
  qed simp_all
  have ent: "global_entries ?s = global_entries s - {p}" using upd rem old pb by blast
  have own: "own_entries ?s = own_entries s - {p}"
    unfolding own_entries_alt ent by auto
  have pos: "p \<in> own_entries s" "finite (own_entries s)"
    using p key finite_global_entries [of s] by (auto simp: own_entries_alt)
  then have hash: "is_tree_hash (st_space s) \<noteq> 0" using global_invD(4) [OF inv] by auto
  have "card (own_entries ?s) = card (own_entries s) - 1"
    unfolding own using pos by simp
  then have "global_inv ?s" using upd global_invD(4) [OF inv] by simp
  moreover have "grev_contents ?s = grev_contents s - {(obj, p)}"
    unfolding grev_contents_def ent using key by auto
  moreover have "ipc_hash_global_delete s obj p = Some ?s"
    using b hash by (simp add: ipc_hash_global_delete_def Let_def)
  ultimately show ?thesis by blast
qed

interpretation global_rev: reverse_map global_inv grev_contents grev_may_insert global_find
  ipc_hash_global_insert ipc_hash_global_delete
proof unfold_locales
  fix s :: "'a ipc_state_scheme" and obj v w
  assume inv: "global_inv s"
  show "v = w" if "(obj, v) \<in> grev_contents s" "(obj, w) \<in> grev_contents s"
    using that global_invD(3) [OF inv, of v w] by (auto simp: grev_contents_def)
  show "(obj, w) \<notin> grev_contents s" if "grev_may_insert s obj v"
    using that by (auto simp: grev_contents_def grev_may_insert_def)
qed (fact global_lookup_law global_insert_law global_delete_law)+

end
