(* ===== verification/Ipc_Hash_Space.thy ===== *)
theory Ipc_Hash_Space
  imports Ipc_Hash
begin

text \<open>
  The routines \<open>ipc_hash_lookup\<close>, \<open>ipc_hash_insert\<close> and \<open>ipc_hash_delete\<close>, which choose between
  the local and the global reverse hash table, and the proof that the two together implement the
  same interface for a whole space.
\<close>

section \<open>The reverse hash table of a space\<close>

definition ipc_hash_lookup ::
  "'a ipc_state_scheme \<Rightarrow> ipc_object_t
     \<Rightarrow> ((mach_port_name_t \<times> ipc_entry_t) option \<times> 'a ipc_state_scheme) option" where
  "ipc_hash_lookup s obj =
     do { rv \<leftarrow> ipc_hash_local_lookup (space_table s) obj;
          case rv of
            Some (name, index) \<Rightarrow> Some (Some (name, In_table index), s)
          | None \<Rightarrow>
              if is_tree_hash (st_space s) > 0
              then do { (r, s1) \<leftarrow> ipc_hash_global_lookup s obj;
                        Some (map_option (map_prod id In_tree) r, s1) }
              else Some (None, s) }"

definition ipc_hash_insert ::
  "'a ipc_state_scheme \<Rightarrow> ipc_object_t \<Rightarrow> mach_port_name_t \<Rightarrow> ipc_entry_t \<Rightarrow> 'a ipc_state_scheme option" where
  "ipc_hash_insert s obj name entry =
     (let index = unat (MACH_PORT_INDEX name)
      in if index < is_table_size (st_space s) \<and> entry = In_table index
         then do { t \<leftarrow> ipc_hash_local_insert (space_table s) obj index;
                   Some (set_table (\<lambda>_. t) s) }
         else case entry of In_tree p \<Rightarrow> ipc_hash_global_insert s obj p | In_table i \<Rightarrow> None)"

definition ipc_hash_delete ::
  "'a ipc_state_scheme \<Rightarrow> ipc_object_t \<Rightarrow> mach_port_name_t \<Rightarrow> ipc_entry_t \<Rightarrow> 'a ipc_state_scheme option" where
  "ipc_hash_delete s obj name entry =
     (let index = unat (MACH_PORT_INDEX name)
      in if index < is_table_size (st_space s) \<and> entry = In_table index
         then do { t \<leftarrow> ipc_hash_local_delete (space_table s) obj index;
                   Some (set_table (\<lambda>_. t) s) }
         else case entry of In_tree p \<Rightarrow> ipc_hash_global_delete s obj p | In_table i \<Rightarrow> None)"

text \<open>
  The two tables together are again a map from objects, to the name and the entry of the right.  An
  object is in at most one of them.
\<close>

definition table_name :: "ipc_entry list \<Rightarrow> nat \<Rightarrow> mach_port_name_t" where
  "table_name t i = MACH_PORT_MAKE (of_nat i) (IE_BITS_GEN (ie_bits (t ! i)))"

definition hash_contents ::
  "'a ipc_state_scheme \<Rightarrow> (ipc_object_t \<times> mach_port_name_t \<times> ipc_entry_t) set" where
  "hash_contents s =
     (\<lambda>(obj, i). (obj, table_name (space_table s) i, In_table i)) ` rev_contents (space_table s) \<union>
     {(obj, name, In_tree p) | obj name p. (obj, p) \<in> grev_contents s \<and>
        map_option ite_name (st_tree_entries s p) = Some name}"

definition hash_inv :: "'a ipc_state_scheme \<Rightarrow> bool" where
  "hash_inv s \<longleftrightarrow>
     rev_inv (space_table s) \<and> length (space_table s) \<le> 2 ^ 24 \<and> global_inv s \<and>
     fst ` rev_contents (space_table s) \<inter> fst ` grev_contents s = {}"

fun hash_may_insert ::
  "'a ipc_state_scheme \<Rightarrow> ipc_object_t \<Rightarrow> mach_port_name_t \<times> ipc_entry_t \<Rightarrow> bool" where
  "hash_may_insert s obj (name, In_table i) \<longleftrightarrow>
     rev_may_insert (space_table s) obj i \<and> name = table_name (space_table s) i \<and>
     obj \<notin> fst ` grev_contents s"
| "hash_may_insert s obj (name, In_tree p) \<longleftrightarrow>
     grev_may_insert s obj p \<and> map_option ite_name (st_tree_entries s p) = Some name \<and>
     obj \<notin> fst ` rev_contents (space_table s)"

lemma global_set_table [simp]:
  "global_inv (set_table f s) = global_inv s"
  "grev_contents (set_table f s) = grev_contents s"
  "grev_may_insert (set_table f s) obj p = grev_may_insert s obj p"
  by (simp_all add: global_inv_def grev_contents_def grev_may_insert_def global_entries_def
      own_entries_def IH_GLOBAL_HASH_def)

lemma table_name_index:
  "i < 2 ^ 24 \<Longrightarrow> unat (MACH_PORT_INDEX (table_name t i)) = i"
proof -
  assume i: "i < 2 ^ 24"
  then have "i < 2 ^ 32" by simp
  then have "unat (of_nat i :: u32) = i" by (simp add: unsigned_of_nat take_bit_nat_eq_self_iff)
  then show ?thesis using i by (simp add: table_name_def index_make)
qed

lemma table_name_unhashed:
  "unhashed t' = unhashed t \<Longrightarrow> i < length t \<Longrightarrow> table_name t' i = table_name t i"
  by (simp add: table_name_def ie_object_unhashed(3) [of t' t])

lemma global_lookup_keeps:
  assumes "ipc_hash_global_lookup s obj = Some (r, s')"
  shows "st_space s' = st_space s" "st_tree_entries s' = st_tree_entries s" "st_self s' = st_self s"
  using assms by (auto simp: ipc_hash_global_lookup_def bind_eq_Some_conv Let_def split: option.splits prod.splits)

lemma global_insert_keeps:
  assumes "ipc_hash_global_insert s obj p = Some s'"
  shows "space_table s' = space_table s" "st_tree_entries s' = st_tree_entries s" "st_self s' = st_self s"
  using assms by (auto simp: ipc_hash_global_insert_def bind_eq_Some_conv Let_def)

lemma global_delete_keeps:
  assumes "ipc_hash_global_delete s obj p = Some s'"
  shows "space_table s' = space_table s" "st_tree_entries s' = st_tree_entries s" "st_self s' = st_self s"
  using assms by (auto simp: ipc_hash_global_delete_def bind_eq_Some_conv Let_def split: if_splits)

lemma local_insert_keeps:
  assumes "ipc_hash_local_insert t obj i = Some t'"
  shows "unhashed t' = unhashed t"
  using assms by (auto simp: ipc_hash_local_insert_def bind_eq_Some_conv)

lemma local_delete_loop_keeps:
  assumes "local_delete_loop t h = Some t'"
  shows "unhashed t' = unhashed t"
proof (rule local_delete_loop.raw_induct [OF _ assms])
  fix loop :: "ipc_entry list \<Rightarrow> nat \<Rightarrow> ipc_entry list option" and t h t'
  assume "\<And>t h t'. loop t h = Some t' \<Longrightarrow> unhashed t' = unhashed t"
    "do { (dindex, index) \<leftarrow> local_displaced_loop t h h;
          let table1 = set_slot h index t;
          if index \<noteq> 0 then loop table1 dindex else Some table1 } = Some t'"
  then show "unhashed t' = unhashed t"
    by (auto simp: bind_eq_Some_conv Let_def split: if_splits)
qed

lemma local_delete_keeps:
  assumes "ipc_hash_local_delete t obj i = Some t'"
  shows "unhashed t' = unhashed t"
  using assms local_delete_loop_keeps
  by (auto simp: ipc_hash_local_delete_def bind_eq_Some_conv split: if_splits)

lemma rev_contents_less: "rev_inv t \<Longrightarrow> (obj, i) \<in> rev_contents t \<Longrightarrow> i < length t"
  using hashed_less by (auto simp: rev_inv_def rev_contents_def)

lemma hash_contents_local:
  "(obj, name, In_table i) \<in> hash_contents s \<longleftrightarrow>
     (obj, i) \<in> rev_contents (space_table s) \<and> name = table_name (space_table s) i"
  by (auto simp: hash_contents_def)

lemma hash_contents_global:
  "(obj, name, In_tree p) \<in> hash_contents s \<longleftrightarrow>
     (obj, p) \<in> grev_contents s \<and> map_option ite_name (st_tree_entries s p) = Some name"
  by (auto simp: hash_contents_def)

lemma hash_contents_eqI:
  assumes "\<And>obj name i. (obj, name, In_table i) \<in> A \<longleftrightarrow> (obj, name, In_table i) \<in> B"
    and "\<And>obj name p. (obj, name, In_tree p) \<in> A \<longleftrightarrow> (obj, name, In_tree p) \<in> B"
  shows "(A :: (ipc_object_t \<times> mach_port_name_t \<times> ipc_entry_t) set) = B"
proof (rule set_eqI)
  fix x :: "ipc_object_t \<times> mach_port_name_t \<times> ipc_entry_t"
  obtain obj name e where "x = (obj, name, e)" by (cases x)
  then show "x \<in> A \<longleftrightarrow> x \<in> B" using assms by (cases e) auto
qed

lemma hash_lookup_law:
  assumes inv: "hash_inv s"
  shows "\<exists>r s'. ipc_hash_lookup s obj = Some (r, s') \<and> hash_inv s' \<and> hash_contents s' = hash_contents s \<and>
    (case r of None \<Rightarrow> \<forall>v. (obj, v) \<notin> hash_contents s | Some v \<Rightarrow> (obj, v) \<in> hash_contents s)"
proof -
  let ?t = "space_table s"
  have r: "rev_inv ?t" and g: "global_inv s" using inv by (auto simp: hash_inv_def)
  obtain rv where rv: "local_lookup_loop ?t obj (IH_LOCAL_HASH obj (length ?t)) = Some rv"
    "case rv of None \<Rightarrow> \<forall>v. (obj, v) \<notin> rev_contents ?t | Some v \<Rightarrow> (obj, v) \<in> rev_contents ?t"
    using local_rev.lookup_law [OF r, of obj] by (auto simp: local_find_Some)
  show ?thesis
  proof (cases rv)
    case (Some i)
    then have "ipc_hash_lookup s obj = Some (Some (table_name ?t i, In_table i), s)"
      using rv(1) by (simp add: ipc_hash_lookup_def ipc_hash_local_lookup_def table_name_def)
    then show ?thesis using Some rv(2) inv by (auto simp: hash_contents_local)
  next
    case None
    have notable: "(obj, name, In_table i) \<notin> hash_contents s" for name i
      using None rv(2) by (simp add: hash_contents_local)
    obtain gr s' where gs: "ipc_hash_global_lookup s obj = Some (gr, s')" "global_inv s'"
      "grev_contents s' = grev_contents s"
      "case map_option snd gr of None \<Rightarrow> \<forall>v. (obj, v) \<notin> grev_contents s | Some v \<Rightarrow> (obj, v) \<in> grev_contents s"
      using global_rev.lookup_law [OF g, of obj] by (auto simp: global_find_def)
    note keeps = global_lookup_keeps [OF gs(1)]
    have inv': "hash_inv s'" "hash_contents s' = hash_contents s"
      using inv gs(2,3) keeps by (auto simp: hash_inv_def hash_contents_def)
    have name: "map_option ite_name (st_tree_entries s p) = Some name" if "gr = Some (name, p)" for name p
      using gs(1) that
      by (auto simp: ipc_hash_global_lookup_def bind_eq_Some_conv Let_def split: option.splits prod.splits)
    show ?thesis
    proof (cases "is_tree_hash (st_space s) > 0")
      case True
      then have look: "ipc_hash_lookup s obj = Some (map_option (map_prod id In_tree) gr, s')"
        using None rv(1) gs(1) by (simp add: ipc_hash_lookup_def ipc_hash_local_lookup_def)
      show ?thesis
      proof (cases gr)
        case None
        then have "(obj, v) \<notin> hash_contents s" for v
          using gs(4) notable by (cases v; cases "snd v") (auto simp: hash_contents_global)
        then show ?thesis using look None inv' by auto
      next
        case (Some x)
        then have "(obj, fst x, In_tree (snd x)) \<in> hash_contents s"
          using gs(4) name [of "fst x" "snd x"] by (simp add: hash_contents_global)
        then show ?thesis using look Some inv' by (cases x) auto
      qed
    next
      case False
      have "own_entries s = {}"
        using False global_invD(4) [OF g] finite_global_entries [of s] by (auto simp: own_entries_alt)
      then have "(obj, v) \<notin> hash_contents s" for v
        using notable by (cases v; cases "snd v") (auto simp: hash_contents_global grev_contents_def own_entries_alt)
      then show ?thesis
        using False None rv(1) inv by (auto simp: ipc_hash_lookup_def ipc_hash_local_lookup_def)
    qed
  qed
qed

lemma hash_insert_law:
  assumes inv: "hash_inv s" and may: "hash_may_insert s obj v"
  shows "\<exists>s'. ipc_hash_insert s obj (fst v) (snd v) = Some s' \<and> hash_inv s' \<and>
    hash_contents s' = insert (obj, v) (hash_contents s)"
proof -
  let ?t = "space_table s"
  have r: "rev_inv ?t" and g: "global_inv s" and len: "length ?t \<le> 2 ^ 24"
    using inv by (auto simp: hash_inv_def)
  obtain name e where v: "v = (name, e)" by (cases v)
  show ?thesis
  proof (cases e)
    case (In_table i)
    have m: "rev_may_insert ?t obj i" "name = table_name ?t i" "obj \<notin> fst ` grev_contents s"
      using may v In_table by auto
    obtain t' where t': "ipc_hash_local_insert ?t obj i = Some t'" "rev_inv t'"
      "rev_contents t' = insert (obj, i) (rev_contents ?t)"
      using local_rev.insert_law [OF r m(1)] by blast
    note un = local_insert_keeps [OF t'(1)]
    have i: "i < length ?t" using m(1) by (simp add: rev_may_insert_def)
    have idx: "unat (MACH_PORT_INDEX name) = i" using table_name_index [of i ?t] i len m(2) by simp
    let ?s = "set_table (\<lambda>_. t') s"
    have "ipc_hash_insert s obj name e = Some ?s"
      using idx i t'(1) In_table by (simp add: ipc_hash_insert_def)
    moreover have "hash_inv ?s"
      using inv t' m(3) ie_object_unhashed(1) [OF un] by (auto simp: hash_inv_def)
    moreover have "hash_contents ?s = insert (obj, v) (hash_contents s)"
    proof (rule hash_contents_eqI)
      fix o' n' j
      have "table_name t' j = table_name ?t j" if "j < length ?t" for j
        using table_name_unhashed [OF un that] .
      then show "(o', n', In_table j) \<in> hash_contents ?s \<longleftrightarrow>
          (o', n', In_table j) \<in> insert (obj, v) (hash_contents s)"
        using t'(3) v In_table m(2) i rev_contents_less [OF r] by (auto simp: hash_contents_local)
    next
      fix o' n' p
      show "(o', n', In_tree p) \<in> hash_contents ?s \<longleftrightarrow>
          (o', n', In_tree p) \<in> insert (obj, v) (hash_contents s)"
        using v In_table by (simp add: hash_contents_global)
    qed
    ultimately show ?thesis using v by auto
  next
    case (In_tree p)
    have m: "grev_may_insert s obj p" "map_option ite_name (st_tree_entries s p) = Some name"
      "obj \<notin> fst ` rev_contents ?t"
      using may v In_tree by auto
    obtain s' where s': "ipc_hash_global_insert s obj p = Some s'" "global_inv s'"
      "grev_contents s' = insert (obj, p) (grev_contents s)"
      using global_rev.insert_law [OF g m(1)] by blast
    note keeps = global_insert_keeps [OF s'(1)]
    have "ipc_hash_insert s obj name e = Some s'"
      using s'(1) In_tree by (simp add: ipc_hash_insert_def)
    moreover have "hash_inv s'" using inv s' m(3) keeps by (auto simp: hash_inv_def)
    moreover have "hash_contents s' = insert (obj, v) (hash_contents s)"
      using s'(3) keeps v In_tree m(2)
      by (intro hash_contents_eqI) (auto simp: hash_contents_local hash_contents_global)
    ultimately show ?thesis using v by auto
  qed
qed

lemma hash_delete_law:
  assumes inv: "hash_inv s" and mem: "(obj, v) \<in> hash_contents s"
  shows "\<exists>s'. ipc_hash_delete s obj (fst v) (snd v) = Some s' \<and> hash_inv s' \<and>
    hash_contents s' = hash_contents s - {(obj, v)}"
proof -
  let ?t = "space_table s"
  have r: "rev_inv ?t" and g: "global_inv s" and len: "length ?t \<le> 2 ^ 24"
    using inv by (auto simp: hash_inv_def)
  obtain name e where v: "v = (name, e)" by (cases v)
  show ?thesis
  proof (cases e)
    case (In_table i)
    have m: "(obj, i) \<in> rev_contents ?t" "name = table_name ?t i"
      using mem v In_table by (auto simp: hash_contents_local)
    obtain t' where t': "ipc_hash_local_delete ?t obj i = Some t'" "rev_inv t'"
      "rev_contents t' = rev_contents ?t - {(obj, i)}"
      using local_rev.delete_law [OF r m(1)] by blast
    note un = local_delete_keeps [OF t'(1)]
    have i: "i < length ?t" using rev_contents_less [OF r m(1)] .
    have idx: "unat (MACH_PORT_INDEX name) = i" using table_name_index [of i ?t] i len m(2) by simp
    let ?s = "set_table (\<lambda>_. t') s"
    have "ipc_hash_delete s obj name e = Some ?s"
      using idx i t'(1) In_table by (simp add: ipc_hash_delete_def)
    moreover have "hash_inv ?s"
      using inv t' ie_object_unhashed(1) [OF un] by (auto simp: hash_inv_def)
    moreover have "hash_contents ?s = hash_contents s - {(obj, v)}"
    proof (rule hash_contents_eqI)
      fix o' n' j
      have "table_name t' j = table_name ?t j" if "j < length ?t" for j
        using table_name_unhashed [OF un that] .
      then show "(o', n', In_table j) \<in> hash_contents ?s \<longleftrightarrow>
          (o', n', In_table j) \<in> hash_contents s - {(obj, v)}"
        using t'(3) v In_table m(2) i rev_contents_less [OF r] by (auto simp: hash_contents_local)
    next
      fix o' n' p
      show "(o', n', In_tree p) \<in> hash_contents ?s \<longleftrightarrow>
          (o', n', In_tree p) \<in> hash_contents s - {(obj, v)}"
        using v In_table by (simp add: hash_contents_global)
    qed
    ultimately show ?thesis using v by auto
  next
    case (In_tree p)
    have m: "(obj, p) \<in> grev_contents s" "map_option ite_name (st_tree_entries s p) = Some name"
      using mem v In_tree by (auto simp: hash_contents_global)
    obtain s' where s': "ipc_hash_global_delete s obj p = Some s'" "global_inv s'"
      "grev_contents s' = grev_contents s - {(obj, p)}"
      using global_rev.delete_law [OF g m(1)] by blast
    note keeps = global_delete_keeps [OF s'(1)]
    have "ipc_hash_delete s obj name e = Some s'"
      using s'(1) In_tree by (simp add: ipc_hash_delete_def)
    moreover have "hash_inv s'" using inv s' keeps by (auto simp: hash_inv_def)
    moreover have "hash_contents s' = hash_contents s - {(obj, v)}"
    proof (rule hash_contents_eqI)
      fix o' n' q
      show "(o', n', In_tree q) \<in> hash_contents s' \<longleftrightarrow>
          (o', n', In_tree q) \<in> hash_contents s - {(obj, v)}"
        unfolding hash_contents_global keeps(2) s'(3) Diff_iff using v In_tree m(2) by auto
    next
      fix o' n' j
      show "(o', n', In_table j) \<in> hash_contents s' \<longleftrightarrow>
          (o', n', In_table j) \<in> hash_contents s - {(obj, v)}"
        using v In_tree keeps(1) by (simp add: hash_contents_local)
    qed
    ultimately show ?thesis using v by auto
  qed
qed

lemma hash_unique:
  assumes inv: "hash_inv s" and v: "(obj, n, e) \<in> hash_contents s" and w: "(obj, n', e') \<in> hash_contents s"
  shows "(n, e) = (n', e')"
proof -
  have r: "rev_inv (space_table s)" and g: "global_inv s" using inv by (auto simp: hash_inv_def)
  have dis: False if "(obj, i) \<in> rev_contents (space_table s)" "(obj, p) \<in> grev_contents s" for i p
    using inv that unfolding hash_inv_def by (metis disjoint_iff fst_conv image_eqI)
  show ?thesis
  proof (cases e)
    case (In_table i)
    then have i: "(obj, i) \<in> rev_contents (space_table s)" "n = table_name (space_table s) i"
      using v by (auto simp: hash_contents_local)
    show ?thesis
    proof (cases e')
      case (In_table j)
      then have "(obj, j) \<in> rev_contents (space_table s)" "n' = table_name (space_table s) j"
        using w by (auto simp: hash_contents_local)
      then show ?thesis using local_rev.unique [OF r i(1)] i(2) \<open>e = In_table i\<close> In_table by blast
    next
      case (In_tree p)
      then show ?thesis using w dis [OF i(1)] by (auto simp: hash_contents_global)
    qed
  next
    case (In_tree p)
    then have p: "(obj, p) \<in> grev_contents s" "map_option ite_name (st_tree_entries s p) = Some n"
      using v by (auto simp: hash_contents_global)
    show ?thesis
    proof (cases e')
      case (In_table j)
      then show ?thesis using w dis [OF _ p(1)] by (auto simp: hash_contents_local)
    next
      case (In_tree q)
      then have "(obj, q) \<in> grev_contents s" "map_option ite_name (st_tree_entries s q) = Some n'"
        using w by (auto simp: hash_contents_global)
      then show ?thesis using global_rev.unique [OF g p(1), of q] p(2) \<open>e = In_tree p\<close> In_tree by auto
    qed
  qed
qed

lemma hash_may_insert_new:
  assumes inv: "hash_inv s" and may: "hash_may_insert s obj v"
  shows "(obj, w) \<notin> hash_contents s"
proof -
  have r: "rev_inv (space_table s)" and g: "global_inv s" using inv by (auto simp: hash_inv_def)
  obtain n e n' e' where vw: "v = (n, e)" "w = (n', e')" by (cases v; cases w)
  have "(obj, i) \<notin> rev_contents (space_table s)" for i
  proof (cases e)
    case (In_table j)
    then show ?thesis using local_rev.may_insert_new [OF r, of obj j] may vw by simp
  next
    case (In_tree p)
    then show ?thesis using may vw by force
  qed
  moreover have "(obj, p) \<notin> grev_contents s" for p
  proof (cases e)
    case (In_table j)
    then show ?thesis using may vw by force
  next
    case (In_tree p)
    then show ?thesis using global_rev.may_insert_new [OF g, of obj p] may vw by simp
  qed
  ultimately show ?thesis
    unfolding vw by (cases e') (simp_all add: hash_contents_local hash_contents_global)
qed

interpretation space_rev: reverse_map hash_inv hash_contents hash_may_insert ipc_hash_lookup
  "\<lambda>s obj v. ipc_hash_insert s obj (fst v) (snd v)" "\<lambda>s obj v. ipc_hash_delete s obj (fst v) (snd v)"
proof unfold_locales
  fix s :: "'a ipc_state_scheme" and obj and v w :: "mach_port_name_t \<times> ipc_entry_t"
  assume inv: "hash_inv s"
  show "v = w" if "(obj, v) \<in> hash_contents s" "(obj, w) \<in> hash_contents s"
    using hash_unique [OF inv] that by (metis prod.collapse)
qed (fact hash_may_insert_new hash_lookup_law hash_insert_law hash_delete_law)+

section \<open>Properties of the reverse hash tables\<close>

lemma hash_inv_empty:
  assumes "space_table s \<noteq> []" "length (space_table s) \<le> 2 ^ 24"
    "list_all (\<lambda>e. ie_index e = 0) (space_table s)"
    "ipc_hash_global_table s \<noteq> []" "length (ipc_hash_global_table s) \<le> 2 ^ 32"
    "list_all (\<lambda>b. b = []) (ipc_hash_global_table s)" "is_tree_hash (st_space s) = 0"
  shows "hash_inv s" and "hash_contents s = {}"
proof -
  have slots: "slot (space_table s) h = 0" if "h < length (space_table s)" for h
    using assms(3) that by (simp add: list_all_length)
  have hashed: "hashed (space_table s) = {}" using slots by (auto simp: hashed_def hashed_but_def)
  have "probing (space_table s) (length (space_table s))"
    by (rule probingI) (use slots in simp_all)
  then have r: "rev_inv (space_table s)"
    using assms(1) hashed by (simp add: rev_inv_def local_inv_def)
  have ent: "global_entries s = {}" using assms(6) by (auto simp: global_entries_def list_all_length)
  then have g: "global_inv s"
    using assms(4-7) by (simp add: global_inv_def own_entries_def list_all_length)
  have "rev_contents (space_table s) = {}" "grev_contents s = {}"
    using hashed ent by (auto simp: rev_contents_def grev_contents_def)
  then show "hash_inv s" "hash_contents s = {}"
    using r g assms(2) by (auto simp: hash_inv_def hash_contents_def)
qed

text \<open>A state with a send right in slot 1 that is not yet in the reverse hash table.\<close>

definition sample_state :: ipc_state where
  "sample_state =
     \<lparr>st_self = 0x8000, st_locked = True,
      st_space = \<lparr>is_active = True, is_growing = False, is_fast = False,
        is_table = [\<lparr>ie_object = 0, ie_bits = 0, ie_request = 2, ie_index = 0\<rparr>,
                    \<lparr>ie_object = 0x1000, ie_bits = 0x04010001, ie_request = 0, ie_index = 0\<rparr>,
                    \<lparr>ie_object = 0, ie_bits = 0x08000000, ie_request = 0, ie_index = 0\<rparr>],
        is_table_next = 1,
        is_tree = \<lparr>ist_name = 0, ist_root = Leaf, ist_ltree = [], ist_rtree = []\<rparr>,
        is_tree_total = 0, is_tree_small = 0, is_tree_hash = 0\<rparr>,
      st_tree_entries = Map.empty,
      ipc_hash_global_table = [[], []]\<rparr>"

lemma sample_state_hash: "hash_inv sample_state" "hash_contents sample_state = {}"
  using hash_inv_empty [of sample_state] by (simp_all add: sample_state_def)

lemma sample_state_may_insert: "hash_may_insert sample_state 0x1000 (0x104, In_table 1)"
proof -
  have "table_name (space_table sample_state) 1 = 0x104" by code_simp
  moreover have "hashed (space_table sample_state) = {}" "grev_contents sample_state = {}"
    using sample_state_hash(2) by (auto simp: hash_contents_def rev_contents_def)
      (auto simp: sample_state_def grev_contents_def global_entries_def)
  ultimately show ?thesis
    by (simp add: rev_may_insert_def sample_state_def)
qed

text \<open>
  Claim C22. An entry put into the reverse hash table of its space, in the local or in the global
  table as \<open>ipc_hash_insert\<close> chooses, is the one \<open>ipc_hash_lookup\<close> finds for its object, with its
  name; the probing loops end and the tables stay well formed.
\<close>

theorem hash_lookup_insert:
  assumes "hash_inv s" and "hash_may_insert s obj (name, entry)"
  shows "\<exists>s' s''. ipc_hash_insert s obj name entry = Some s' \<and> hash_inv s' \<and>
           ipc_hash_lookup s' obj = Some (Some (name, entry), s'') \<and> hash_inv s''"
proof -
  obtain s' where s': "ipc_hash_insert s obj name entry = Some s'" "hash_inv s'"
    "hash_contents s' = insert (obj, name, entry) (hash_contents s)"
    using space_rev.insert_law [OF assms] by auto
  then show ?thesis using space_rev.lookup_Some [OF s'(2), of obj "(name, entry)"] by auto
qed

theorem hash_lookup_insert_witness:
  "hash_inv sample_state \<and> hash_may_insert sample_state 0x1000 (0x104, In_table 1) \<and>
   (\<exists>s' s''. ipc_hash_insert sample_state 0x1000 0x104 (In_table 1) = Some s' \<and>
      ipc_hash_lookup s' 0x1000 = Some (Some (0x104, In_table 1), s''))"
  using hash_lookup_insert [OF sample_state_hash(1) sample_state_may_insert] sample_state_hash(1)
    sample_state_may_insert by auto

text \<open>
  Claim C23. A deletion undoes an insertion: it finds the entry, moves displaced elements of its clump
  back, and leaves a well-formed table with the entries it had before, so that the lookup of the
  object fails again.
\<close>

theorem hash_delete_insert:
  assumes "hash_inv s" and "hash_may_insert s obj (name, entry)"
  shows "\<exists>s1 s2 s3. ipc_hash_insert s obj name entry = Some s1 \<and>
           ipc_hash_delete s1 obj name entry = Some s2 \<and> hash_inv s2 \<and>
           hash_contents s2 = hash_contents s \<and> ipc_hash_lookup s2 obj = Some (None, s3)"
proof -
  obtain s1 where s1: "ipc_hash_insert s obj name entry = Some s1"
    using space_rev.insert_law [OF assms] by auto
  obtain s2 where s2: "ipc_hash_delete s1 obj name entry = Some s2" "hash_inv s2"
    "hash_contents s2 = hash_contents s"
    using space_rev.delete_after_insert [OF assms] s1 by auto
  have "\<And>v. (obj, v) \<notin> hash_contents s2"
    using space_rev.may_insert_new [OF assms] s2(3) by auto
  then show ?thesis using s1 s2 space_rev.lookup_None [OF s2(2), of obj] by blast
qed

theorem hash_delete_insert_witness:
  "hash_inv sample_state \<and> hash_may_insert sample_state 0x1000 (0x104, In_table 1) \<and>
   (\<exists>s1 s2. ipc_hash_insert sample_state 0x1000 0x104 (In_table 1) = Some s1 \<and>
      ipc_hash_delete s1 0x1000 0x104 (In_table 1) = Some s2 \<and> hash_contents s2 = {})"
  using hash_delete_insert [OF sample_state_hash(1) sample_state_may_insert] sample_state_hash
    sample_state_may_insert by auto

end
