(* ===== verification/Ipc_Entry.thy ===== *)
theory Ipc_Entry
  imports Ipc_Hash_Space
begin

text \<open>
  Allocation and deallocation of entries, \<open>osfmk/ipc/ipc_entry.c\<close>: every routine of the file.
  A result \<open>Inl kr\<close> is an error code, \<open>Inr x\<close> is \<open>KERN_SUCCESS\<close> with the results \<open>x\<close>.
\<close>

section \<open>Lookup\<close>

abbreviation put_tree :: "ipc_tree_entry_t ipc_splay_tree \<Rightarrow> 'a ipc_state_scheme \<Rightarrow> 'a ipc_state_scheme" where
  "put_tree t \<equiv> set_space (is_tree_update (\<lambda>_. t))"

definition ipc_entry_tree_collision ::
  "'a ipc_state_scheme \<Rightarrow> mach_port_name_t \<Rightarrow> bool \<times> 'a ipc_state_scheme" where
  "ipc_entry_tree_collision s name =
     (let ((lower, upper), tree) = ipc_splay_tree_bounds (is_tree (st_space s)) name;
          index = MACH_PORT_INDEX name
      in (lower \<noteq> NOT 0 \<and> MACH_PORT_INDEX lower = index \<or>
          upper \<noteq> 0 \<and> MACH_PORT_INDEX upper = index, put_tree tree s))"

definition entry_tree_lookup ::
  "'a ipc_state_scheme \<Rightarrow> mach_port_name_t \<Rightarrow> (ipc_entry_t option \<times> 'a ipc_state_scheme) option" where
  "entry_tree_lookup s name =
     (case ipc_splay_tree_lookup (is_tree (st_space s)) name of
        (None, tree) \<Rightarrow> Some (None, put_tree tree s)
      | (Some p, tree) \<Rightarrow>
          do { te \<leftarrow> st_tree_entries s p;
               Some (if IE_BITS_TYPE (ite_bits te) = 0 then None else Some (In_tree p),
                     put_tree tree s) })"

definition ipc_entry_lookup ::
  "'a ipc_state_scheme \<Rightarrow> mach_port_name_t \<Rightarrow> (ipc_entry_t option \<times> 'a ipc_state_scheme) option" where
  "ipc_entry_lookup s name =
     (let index = unat (MACH_PORT_INDEX name)
      in if is_fast (st_space s) then
           do { entry \<leftarrow> nth_opt (space_table s) index;
                Some (if IE_BITS_GEN (ie_bits entry) \<noteq> MACH_PORT_GEN name \<or>
                         IE_BITS_TYPE (ie_bits entry) = MACH_PORT_TYPE_NONE
                      then None else Some (In_table index), s) }
         else if index < is_table_size (st_space s) then
           (let bits = ie_bits (space_table s ! index)
            in if IE_BITS_GEN bits \<noteq> MACH_PORT_GEN name then
                 (if bits AND IE_BITS_COLLISION \<noteq> 0 then entry_tree_lookup s name
                  else Some (None, s))
               else if IE_BITS_TYPE bits = MACH_PORT_TYPE_NONE then Some (None, s)
               else Some (Some (In_table index), s))
         else if is_tree_total (st_space s) = 0 then Some (None, s)
         else entry_tree_lookup s name)"

section \<open>Allocation from the free list\<close>

abbreviation set_next :: "nat \<Rightarrow> nat \<Rightarrow> ipc_entry list \<Rightarrow> ipc_entry list" where
  "set_next i n t \<equiv> t[i := (t ! i)\<lparr>ie_request := n\<rparr>]"

definition ipc_entry_get ::
  "'a ipc_state_scheme
     \<Rightarrow> ((kern_return_t + mach_port_name_t \<times> ipc_entry_t) \<times> 'a ipc_state_scheme) option" where
  "ipc_entry_get s =
     do { head \<leftarrow> nth_opt (space_table s) 0;
          let first_free = ie_next head;
          if first_free = 0 then Some (Inl KERN_NO_SPACE, s)
          else do { free_entry \<leftarrow> nth_opt (space_table s) first_free;
                    let gen = IE_BITS_NEW_GEN (ie_bits free_entry);
                    let s1 = set_table (\<lambda>t. (set_next 0 (ie_next free_entry) t)
                               [first_free := free_entry\<lparr>ie_bits := gen, ie_request := 0\<rparr>]) s;
                    Some (Inr (MACH_PORT_MAKE (of_nat first_free) gen, In_table first_free), s1) } }"

section \<open>Growing the table\<close>

text \<open>The size a growth starts from is \<open>its - 1\<close> for \<open>its = is_table_next\<close>; the search for a target.\<close>

partial_function (option) grow_target :: "nat \<Rightarrow> nat \<Rightarrow> nat \<Rightarrow> (nat \<times> nat) option" where
  "grow_target target psize its =
     do { sz \<leftarrow> nth_opt ipc_table_entries its;
          if psize \<noteq> sz \<and> target > sz then grow_target target sz (its + 1)
          else Some (psize, its) }"

definition blank_entry :: ipc_entry where
  "blank_entry = \<lparr>ie_object = 0, ie_bits = 0, ie_request = 0, ie_index = 0\<rparr>"

text \<open>The new table: the old entries with empty hash slots, followed by zeroed ones.\<close>

definition grow_copy :: "nat \<Rightarrow> ipc_entry list \<Rightarrow> ipc_entry list" where
  "grow_copy sz t = map (\<lambda>e. e\<lparr>ie_index := 0\<rparr>) t @ replicate (sz - length t) blank_entry"

fun grow_rehash :: "nat list \<Rightarrow> ipc_entry list \<Rightarrow> ipc_entry list option" where
  "grow_rehash [] t = Some t"
| "grow_rehash (i # is) t =
     do { entry \<leftarrow> nth_opt t i;
          t1 \<leftarrow> (if IE_BITS_TYPE (ie_bits entry) = MACH_PORT_TYPE_SEND
                 then ipc_hash_local_insert t (ie_object entry) i else Some t);
          grow_rehash is t1 }"

text \<open>
  The body of the loop that moves tree entries into the table.  It answers whether the entry is to
  be deleted from the tree, which frees it.
\<close>

definition grow_move ::
  "ipc_tree_entry_t node \<Rightarrow> 'a ipc_state_scheme \<Rightarrow> (bool \<times> 'a ipc_state_scheme) option" where
  "grow_move x s =
     (case x of (name, p) \<Rightarrow>
        do { tentry \<leftarrow> st_tree_entries s p;
             let gen = MACH_PORT_GEN name;
             let index = unat (MACH_PORT_INDEX name);
             entry \<leftarrow> nth_opt (space_table s) index;
             if IE_BITS_TYPE (ie_bits entry) \<noteq> 0 then
               Some (False, set_table (\<lambda>t. t[index := entry\<lparr>ie_bits := ie_bits entry OR IE_BITS_COLLISION\<rparr>]) s)
             else do { let bits = ite_bits tentry;
                       let obj = ite_object tentry;
                       let s1 = set_table (\<lambda>t. t[index := entry\<lparr>ie_bits := bits OR gen,
                                  ie_request := ite_request tentry, ie_object := obj\<rparr>]) s;
                       s2 \<leftarrow> (if IE_BITS_TYPE bits = MACH_PORT_TYPE_SEND
                              then do { s2 \<leftarrow> ipc_hash_global_delete s1 obj p;
                                        t \<leftarrow> ipc_hash_local_insert (space_table s2) obj index;
                                        Some (set_table (\<lambda>_. t) s2) }
                              else Some s1);
                       if is_tree_total (st_space s2) = 0 then None
                       else Some (True, set_space (is_tree_total_update (\<lambda>n. n - 1))
                              (s2\<lparr>st_tree_entries := (st_tree_entries s2)(p := None)\<rparr>)) } })"

fun traverse_option :: "('x \<Rightarrow> 's \<Rightarrow> (bool \<times> 's) option) \<Rightarrow> 'x \<Rightarrow> 's option \<Rightarrow> bool \<times> 's option" where
  "traverse_option body x None = (False, None)"
| "traverse_option body x (Some s) =
     (case body x s of None \<Rightarrow> (False, None) | Some (del, s1) \<Rightarrow> (del, Some s1))"

definition count_small :: "'e node \<Rightarrow> nat \<times> nat \<Rightarrow> bool \<times> nat \<times> nat" where
  "count_small x c =
     (case c of (nosmall, index) \<Rightarrow>
        let nindex = unat (MACH_PORT_INDEX (fst x))
        in (False, if nindex \<noteq> index then (nosmall + 1, nindex) else (nosmall, index)))"

definition empty_splay :: "'e ipc_splay_tree" where
  "empty_splay = \<lparr>ist_name = 0, ist_root = Leaf, ist_ltree = [], ist_rtree = []\<rparr>"

text \<open>The part of a growth that concerns the splay tree.\<close>

definition grow_tree ::
  "nat \<Rightarrow> nat \<Rightarrow> nat \<Rightarrow> 'a ipc_state_scheme \<Rightarrow> 'a ipc_state_scheme option" where
  "grow_tree osize sz nsize s =
     do { let (tree, small) = ipc_splay_tree_split (is_tree (st_space s)) (MACH_PORT_MAKE (of_nat nsize) 0) empty_splay;
          let (small, move) = ipc_splay_tree_split small (MACH_PORT_MAKE (of_nat sz) 0) empty_splay;
          let (move, ignore) = ipc_splay_tree_split move (MACH_PORT_MAKE (of_nat osize) 0) empty_splay;
          (so, move) \<leftarrow> ipc_splay_traverse (traverse_option grow_move) move (Some s);
          s1 \<leftarrow> so;
          ((nosmall, _), small) \<leftarrow> ipc_splay_traverse count_small small (0, 0);
          let (tree, _) = ipc_splay_tree_join tree small;
          let (tree, _) = ipc_splay_tree_join tree move;
          let (tree, _) = ipc_splay_tree_join tree ignore;
          Some (put_tree tree (set_space (is_tree_small_update (\<lambda>_. nosmall)) s1)) }"

text \<open>The unused new entries, chained in reverse order in front of the free list.\<close>

fun grow_free :: "nat list \<Rightarrow> nat \<Rightarrow> ipc_entry list \<Rightarrow> nat \<times> ipc_entry list" where
  "grow_free [] free_index t = (free_index, t)"
| "grow_free (i # is) free_index t =
     (if ie_bits (t ! i) = 0
      then grow_free is i (t[i := (t ! i)\<lparr>ie_bits := IE_BITS_GEN_MASK, ie_request := free_index\<rparr>])
      else grow_free is free_index t)"

text \<open>The installation of a new table of size \<open>sz\<close>, with the space locked.\<close>

definition grow_install ::
  "nat \<Rightarrow> 'a ipc_state_scheme \<Rightarrow> 'a ipc_state_scheme option" where
  "grow_install its s =
     do { let osize = length (space_table s);
          sz \<leftarrow> nth_opt ipc_table_entries its;
          nsize \<leftarrow> nth_opt ipc_table_entries (its + 1);
          t \<leftarrow> grow_rehash [0..<osize] (grow_copy sz (space_table s));
          let s1 = set_space (\<lambda>sp. sp\<lparr>is_table := t, is_table_next := its + 1\<rparr>) s;
          s2 \<leftarrow> (if is_tree_total (st_space s1) > 0 then grow_tree osize sz nsize s1 else Some s1);
          head \<leftarrow> nth_opt (space_table s2) 0;
          let (free_index, t2) = grow_free (rev [osize..<sz]) (ie_next head) (space_table s2);
          Some (set_table (\<lambda>_. set_next 0 free_index t2) s2) }"

partial_function (option) ipc_entry_grow_table ::
  "'a ipc_env \<Rightarrow> nat \<Rightarrow> 'a ipc_state_scheme \<Rightarrow> (kern_return_t \<times> 'a ipc_state_scheme) option" where
  "ipc_entry_grow_table env target s =
     (if is_growing (st_space s)
      then do { s1 \<leftarrow> unlocked_window env s; Some (KERN_SUCCESS, s1) }
      else do {
        let its0 = is_table_next (st_space s);
        osize \<leftarrow> nth_opt ipc_table_entries (its0 - 1);
        if target \<noteq> ITS_SIZE_NONE \<and> target \<le> osize
        then do { s1 \<leftarrow> is_write_unlock s; Some (KERN_SUCCESS, s1) }
        else do {
          (psize, its) \<leftarrow> (if target \<noteq> ITS_SIZE_NONE then grow_target target osize its0
                            else Some (osize, its0));
          sz \<leftarrow> nth_opt ipc_table_entries its;
          if target \<noteq> ITS_SIZE_NONE \<and> psize = sz \<or> osize = sz
          then do { s1 \<leftarrow> is_write_unlock s; Some (KERN_NO_SPACE, s1) }
          else do {
            nsize \<leftarrow> nth_opt ipc_table_entries (its + 1);
            s1 \<leftarrow> unlocked_window env (set_space (is_growing_update (\<lambda>_. True)) s);
            let s2 = set_space (is_growing_update (\<lambda>_. False)) s1;
            if \<not> env_table_alloc env its
            then do { s3 \<leftarrow> is_write_unlock s2; Some (KERN_RESOURCE_SHORTAGE, s3) }
            else if \<not> is_active (st_space s2)
            then do { s3 \<leftarrow> unlocked_window env s2; Some (KERN_SUCCESS, s3) }
            else do {
              s3 \<leftarrow> grow_install its s2;
              s4 \<leftarrow> unlocked_window env s3;
              if \<not> is_active (st_space s4) \<or> is_table_next (st_space s4) \<noteq> its + 1
              then Some (KERN_SUCCESS, s4)
              else if is_tree_small (st_space s4) > 0 \<and>
                      (nsize - sz) * sizeof_ipc_entry < is_tree_small (st_space s4) * sizeof_ipc_tree_entry
              then ipc_entry_grow_table env target s4
              else Some (KERN_SUCCESS, s4) } } } })"

section \<open>Allocation\<close>

partial_function (option) entry_alloc_loop ::
  "'a ipc_env \<Rightarrow> 'a ipc_state_scheme
     \<Rightarrow> ((kern_return_t + mach_port_name_t \<times> ipc_entry_t) \<times> 'a ipc_state_scheme) option" where
  "entry_alloc_loop env s =
     (if \<not> is_active (st_space s)
      then do { s1 \<leftarrow> is_write_unlock s; Some (Inl KERN_INVALID_TASK, s1) }
      else do {
        (r, s1) \<leftarrow> ipc_entry_get s;
        case r of
          Inr x \<Rightarrow> Some (Inr x, s1)
        | Inl _ \<Rightarrow>
            do { (kr, s2) \<leftarrow> ipc_entry_grow_table env ITS_SIZE_NONE s1;
                 if kr \<noteq> KERN_SUCCESS then Some (Inl kr, s2) else entry_alloc_loop env s2 } })"

definition ipc_entry_alloc ::
  "'a ipc_env \<Rightarrow> 'a ipc_state_scheme
     \<Rightarrow> ((kern_return_t + mach_port_name_t \<times> ipc_entry_t) \<times> 'a ipc_state_scheme) option" where
  "ipc_entry_alloc env s = do { s1 \<leftarrow> is_write_lock s; entry_alloc_loop env s1 }"

text \<open>The search of the free list for the predecessor of an entry.\<close>

partial_function (option) free_list_pred :: "ipc_entry list \<Rightarrow> nat \<Rightarrow> nat \<Rightarrow> nat option" where
  "free_list_pred t index free_index =
     do { e \<leftarrow> nth_opt t free_index;
          if ie_next e \<noteq> index then free_list_pred t index (ie_next e) else Some free_index }"

definition free_list_rip :: "ipc_entry list \<Rightarrow> nat \<Rightarrow> mach_port_gen_t \<Rightarrow> ipc_entry list option" where
  "free_list_rip t index gen =
     do { free_index \<leftarrow> free_list_pred t index 0;
          let t1 = set_next free_index (ie_next (t ! index)) t;
          Some (t1[index := (t1 ! index)\<lparr>ie_bits := gen, ie_request := 0\<rparr>]) }"

text \<open>The case of an entry in the table: found, ripped out of the free list, or not there (\<open>None\<close>).\<close>

definition alloc_name_in_table ::
  "'a ipc_state_scheme \<Rightarrow> mach_port_name_t \<Rightarrow> (ipc_entry_t option \<times> 'a ipc_state_scheme) option" where
  "alloc_name_in_table s name =
     (let index = unat (MACH_PORT_INDEX name); gen = MACH_PORT_GEN name
      in if index < is_table_size (st_space s) \<and> index \<noteq> 0 then
           (let bits = ie_bits (space_table s ! index)
            in if IE_BITS_TYPE bits \<noteq> 0 then
                 Some (if IE_BITS_GEN bits = gen then Some (In_table index) else None, s)
               else do { t \<leftarrow> free_list_rip (space_table s) index gen;
                         Some (Some (In_table index), set_table (\<lambda>_. t) s) })
         else Some (None, s))"

definition blank_tree_entry :: ipc_tree_entry where
  "blank_tree_entry = \<lparr>ite_entry = blank_entry, ite_name = 0, ite_space = 0\<rparr>"

abbreviation set_ite :: "ipc_tree_entry_t \<Rightarrow> ipc_tree_entry option \<Rightarrow> 'a ipc_state_scheme \<Rightarrow> 'a ipc_state_scheme" where
  "set_ite p te s \<equiv> s\<lparr>st_tree_entries := (st_tree_entries s)(p := te)\<rparr>"

definition ite_free :: "ipc_tree_entry_t option \<Rightarrow> 'a ipc_state_scheme \<Rightarrow> 'a ipc_state_scheme" where
  "ite_free tentry s = (case tentry of None \<Rightarrow> s | Some p \<Rightarrow> set_ite p None s)"

definition alloc_name_in_tree ::
  "'a ipc_state_scheme \<Rightarrow> mach_port_name_t \<Rightarrow> ipc_tree_entry_t \<Rightarrow> nat \<Rightarrow> 'a ipc_state_scheme" where
  "alloc_name_in_tree s name p its_size =
     (let index = unat (MACH_PORT_INDEX name);
          s1 = set_space (is_tree_total_update Suc) s;
          s2 = (if index < is_table_size (st_space s1)
                then set_table (\<lambda>t. t[index := (t ! index)\<lparr>ie_bits := ie_bits (t ! index) OR IE_BITS_COLLISION\<rparr>]) s1
                else if index < its_size then
                  (case ipc_entry_tree_collision s1 name of
                     (coll, s') \<Rightarrow> if \<not> coll then set_space (is_tree_small_update Suc) s' else s')
                else s1);
          s3 = put_tree (ipc_splay_tree_insert (is_tree (st_space s2)) name p) s2
      in set_ite p (Some \<lparr>ite_entry = blank_entry, ite_name = name, ite_space = st_self s\<rparr>) s3)"

partial_function (option) alloc_name_loop ::
  "'a ipc_env \<Rightarrow> mach_port_name_t \<Rightarrow> ipc_tree_entry_t option \<Rightarrow> 'a ipc_state_scheme
     \<Rightarrow> ((kern_return_t + ipc_entry_t) \<times> 'a ipc_state_scheme) option" where
  "alloc_name_loop env name tentry s =
     (if \<not> is_active (st_space s)
      then do { s1 \<leftarrow> is_write_unlock s; Some (Inl KERN_INVALID_TASK, ite_free tentry s1) }
      else do {
        (found, s1) \<leftarrow> alloc_name_in_table s name;
        case found of
          Some entry \<Rightarrow> Some (Inr entry, ite_free tentry s1)
        | None \<Rightarrow>
            if is_fast (st_space s1)
            then do { s2 \<leftarrow> is_write_unlock s1; Some (Inl KERN_FAILURE, s2) }
            else do {
              let (tentry2, s2) =
                (if is_tree_total (st_space s1) > 0
                 then (case ipc_splay_tree_lookup (is_tree (st_space s1)) name of
                         (r, tree) \<Rightarrow> (r, put_tree tree s1))
                 else (None, s1));
              case tentry2 of
                Some p \<Rightarrow> Some (Inr (In_tree p), ite_free tentry s2)
              | None \<Rightarrow> do {
                  let index = unat (MACH_PORT_INDEX name);
                  its_size \<leftarrow> nth_opt ipc_table_entries (is_table_next (st_space s2));
                  if is_table_size (st_space s2) \<le> index \<and> index < its_size \<and>
                     (its_size - is_table_size (st_space s2)) * sizeof_ipc_entry
                       < (is_tree_small (st_space s2) + 1) * sizeof_ipc_tree_entry
                  then do { (kr, s3) \<leftarrow> ipc_entry_grow_table env ITS_SIZE_NONE s2;
                            if kr \<noteq> KERN_SUCCESS then Some (Inl kr, ite_free tentry s3)
                            else alloc_name_loop env name tentry s3 }
                  else case tentry of
                    Some p \<Rightarrow> Some (Inr (In_tree p), alloc_name_in_tree s2 name p its_size)
                  | None \<Rightarrow> do {
                      s3 \<leftarrow> is_write_unlock s2;
                      case env_ite_alloc env s3 of
                        None \<Rightarrow> Some (Inl KERN_RESOURCE_SHORTAGE, s3)
                      | Some p \<Rightarrow> do {
                          s4 \<leftarrow> is_write_lock (env_others env (set_ite p (Some blank_tree_entry) s3));
                          alloc_name_loop env name (Some p) s4 } } } } })"

definition ipc_entry_alloc_name ::
  "'a ipc_env \<Rightarrow> mach_port_name_t \<Rightarrow> 'a ipc_state_scheme
     \<Rightarrow> ((kern_return_t + ipc_entry_t) \<times> 'a ipc_state_scheme) option" where
  "ipc_entry_alloc_name env name s = do { s1 \<leftarrow> is_write_lock s; alloc_name_loop env name None s1 }"

section \<open>Deallocation\<close>

text \<open>The entry goes back to the free list.\<close>

definition entry_free :: "nat \<Rightarrow> ipc_entry list \<Rightarrow> ipc_entry list" where
  "entry_free index t =
     set_next 0 index
       (t[index := (t ! index)\<lparr>ie_bits := ie_bits (t ! index) AND IE_BITS_GEN_MASK,
                              ie_request := ie_next (t ! 0)\<rparr>])"

text \<open>The entry takes over the contents of a tree entry with the same index.\<close>

definition dealloc_collision ::
  "'a ipc_state_scheme \<Rightarrow> nat \<Rightarrow> 'a ipc_state_scheme option" where
  "dealloc_collision s index =
     do { let (tree, collisions) =
            ipc_splay_tree_split (is_tree (st_space s)) (MACH_PORT_MAKE (of_nat (index + 1)) 0) empty_splay;
          let (collisions, small) =
            ipc_splay_tree_split collisions (MACH_PORT_MAKE (of_nat index) 0) empty_splay;
          (tname, p) \<leftarrow> ipc_splay_tree_pick collisions;
          tentry \<leftarrow> st_tree_entries s p;
          let obj = ite_object tentry;
          let s1 = set_table (\<lambda>t. t[index := (t ! index)\<lparr>ie_object := obj,
                     ie_bits := ite_bits tentry OR MACH_PORT_GEN tname,
                     ie_request := ite_request tentry\<rparr>]) s;
          s2 \<leftarrow> (if IE_BITS_TYPE (ite_bits tentry) = MACH_PORT_TYPE_SEND
                 then do { s2 \<leftarrow> ipc_hash_global_delete s1 obj p;
                           t \<leftarrow> ipc_hash_local_insert (space_table s2) obj index;
                           Some (set_table (\<lambda>_. t) s2) }
                 else Some s1);
          let collisions = ipc_splay_tree_delete collisions tname;
          let s3 = set_ite p None s2;
          if is_tree_total (st_space s3) = 0 then None
          else do {
            let s4 = set_space (is_tree_total_update (\<lambda>n. n - 1)) s3;
            let (s5, tree) =
              (case ipc_splay_tree_pick collisions of
                 None \<Rightarrow> (s4, tree)
               | Some _ \<Rightarrow>
                   (set_table (\<lambda>t. t[index := (t ! index)\<lparr>ie_bits := ie_bits (t ! index) OR IE_BITS_COLLISION\<rparr>]) s4,
                    fst (ipc_splay_tree_join tree collisions)));
            Some (put_tree (fst (ipc_splay_tree_join tree small)) s5) } }"

definition dealloc_tree ::
  "'a ipc_state_scheme \<Rightarrow> mach_port_name_t \<Rightarrow> ipc_tree_entry_t \<Rightarrow> 'a ipc_state_scheme option" where
  "dealloc_tree s name p =
     do { let index = unat (MACH_PORT_INDEX name);
          let s1 = set_ite p None (put_tree (ipc_splay_tree_delete (is_tree (st_space s)) name) s);
          if is_tree_total (st_space s1) = 0 then None
          else do {
            let s2 = set_space (is_tree_total_update (\<lambda>n. n - 1)) s1;
            if index < is_table_size (st_space s2) then
              (let (coll, s3) = ipc_entry_tree_collision s2 name
               in Some (if \<not> coll
                        then set_table (\<lambda>t. t[index := (t ! index)\<lparr>ie_bits := ie_bits (t ! index) AND NOT IE_BITS_COLLISION\<rparr>]) s3
                        else s3))
            else do {
              next_size \<leftarrow> nth_opt ipc_table_entries (is_table_next (st_space s2));
              if index < next_size then
                (let (coll, s3) = ipc_entry_tree_collision s2 name
                 in if coll then Some s3
                    else if is_tree_small (st_space s3) = 0 then None
                    else Some (set_space (is_tree_small_update (\<lambda>n. n - 1)) s3))
              else Some s2 } } }"

definition ipc_entry_dealloc ::
  "'a ipc_state_scheme \<Rightarrow> mach_port_name_t \<Rightarrow> ipc_entry_t \<Rightarrow> 'a ipc_state_scheme option" where
  "ipc_entry_dealloc s name entry =
     (let index = unat (MACH_PORT_INDEX name)
      in if is_fast (st_space s) then
           (if index < is_table_size (st_space s) then Some (set_table (entry_free index) s) else None)
         else if index < is_table_size (st_space s) \<and> entry = In_table index then
           (if ie_bits (space_table s ! index) AND IE_BITS_COLLISION \<noteq> 0
            then dealloc_collision s index
            else Some (set_table (entry_free index) s))
         else case entry of In_tree p \<Rightarrow> dealloc_tree s name p | In_table _ \<Rightarrow> None)"

text \<open>
  \<open>task_set_port_space\<close> of \<open>mach_port.c\<close>: the one caller that grows a table to a target size.
\<close>

definition task_set_port_space ::
  "'a ipc_env \<Rightarrow> nat \<Rightarrow> 'a ipc_state_scheme \<Rightarrow> (kern_return_t \<times> 'a ipc_state_scheme) option" where
  "task_set_port_space env table_entries s =
     do { s1 \<leftarrow> is_write_lock s;
          (kr, s2) \<leftarrow> ipc_entry_grow_table env table_entries s1;
          if kr = KERN_SUCCESS then do { s3 \<leftarrow> is_write_unlock s2; Some (kr, s3) }
          else Some (kr, s2) }"

end
