(* ===== verification/Ipc_Object.thy ===== *)
theory Ipc_Object
  imports Ipc_Entry
begin

text \<open>
  Objects (\<open>osfmk/ipc/ipc_object.h\<close>, \<open>osfmk/ipc/ipc_port.h\<close>): the common header with its lock and its
  reference count, the port that follows it, and the state of the routines on ports.  As in the
  debugging kernel a failed \<open>assert\<close> stops the machine, which is the result \<open>None\<close>; so is the use
  of a freed object, a lock taken twice, or the release of a lock that is not held.
\<close>

definition kassert :: "bool \<Rightarrow> unit option" where
  "kassert b = (if b then Some () else None)"

lemma kassert_bind [simp]: "kassert b \<bind> f = Some y \<longleftrightarrow> b \<and> f () = Some y"
  by (simp add: kassert_def)

lemma kassert_True [simp]: "kassert True = Some ()"
  by (simp add: kassert_def)

section \<open>Objects and ports\<close>

type_synonym ipc_port_t = ipc_object_t
type_synonym ipc_kmsg_t = u32
type_synonym ipc_port_request_t = u32

record ipc_object =
  io_references :: u32
  io_bits :: u32
  io_receiver_name :: mach_port_name_t
  io_lock_data :: bool

text \<open>
  A port.  The word \<open>ip_data\<close> is the union of \<open>ip_receiver\<close>, \<open>ip_destination\<close> and \<open>ip_timestamp\<close>.
  A port set has the header only; the words after it are not used for it.
\<close>

record ipc_port = ipc_object +
  ip_data :: u32
  ip_mscount :: u32
  ip_srights :: u32
  ip_sorights :: u32
  ip_nsrequest :: ipc_port_t
  ip_pdrequest :: ipc_port_t
  ip_dnrequests :: ipc_port_request_t
  ip_pset_count :: u32
  imq_seqno :: u32
  ip_premsg :: ipc_kmsg_t

abbreviation ip_receiver :: "ipc_port \<Rightarrow> ipc_space_t" where "ip_receiver \<equiv> ip_data"
abbreviation ip_destination :: "ipc_port \<Rightarrow> ipc_port_t" where "ip_destination \<equiv> ip_data"
abbreviation ip_timestamp :: "ipc_port \<Rightarrow> u32" where "ip_timestamp \<equiv> ip_data"
abbreviation ip_receiver_name :: "ipc_port \<Rightarrow> mach_port_name_t" where
  "ip_receiver_name \<equiv> io_receiver_name"
abbreviation ips_local_name :: "ipc_port \<Rightarrow> mach_port_name_t" where
  "ips_local_name \<equiv> io_receiver_name"

definition IO_BITS_KOTYPE :: u32 where "IO_BITS_KOTYPE = 0x00000fff"
definition IO_BITS_OTYPE :: u32 where "IO_BITS_OTYPE = 0x7fff0000"
definition IO_BITS_ACTIVE :: u32 where "IO_BITS_ACTIVE = 0x80000000"
definition IP_BIT_PREALLOC :: u32 where "IP_BIT_PREALLOC = 0x00008000"
definition IOT_PORT :: u32 where "IOT_PORT = 0"
definition IOT_PORT_SET :: u32 where "IOT_PORT_SET = 1"
definition IOT_NUMBER :: u32 where "IOT_NUMBER = 2"
definition IO_MAX_REFERENCES :: u32 where "IO_MAX_REFERENCES = NOT 0 XOR push_bit 31 1"

definition IO_NULL :: ipc_object_t where "IO_NULL = 0"
definition IO_DEAD :: ipc_object_t where "IO_DEAD = NOT 0"
definition IO_VALID :: "ipc_object_t \<Rightarrow> bool" where
  "IO_VALID io \<longleftrightarrow> io \<noteq> IO_NULL \<and> io \<noteq> IO_DEAD"

declare IO_NULL_def [simp]

abbreviation IP_NULL :: ipc_port_t where "IP_NULL \<equiv> IO_NULL"
abbreviation IP_DEAD :: ipc_port_t where "IP_DEAD \<equiv> IO_DEAD"
abbreviation IP_VALID :: "ipc_port_t \<Rightarrow> bool" where "IP_VALID \<equiv> IO_VALID"
abbreviation (input) IPR_NULL :: ipc_port_request_t where "IPR_NULL \<equiv> 0"
abbreviation (input) IKM_NULL :: ipc_kmsg_t where "IKM_NULL \<equiv> 0"

definition io_active :: "ipc_port \<Rightarrow> bool" where
  "io_active p \<longleftrightarrow> io_bits p AND IO_BITS_ACTIVE \<noteq> 0"

definition io_otype :: "ipc_port \<Rightarrow> u32" where
  "io_otype p = drop_bit 16 (io_bits p AND IO_BITS_OTYPE)"

definition io_makebits :: "bool \<Rightarrow> u32 \<Rightarrow> u32 \<Rightarrow> u32" where
  "io_makebits active otype kotype =
     (if active then IO_BITS_ACTIVE else 0) OR push_bit 16 otype OR kotype"

definition IP_PREALLOC :: "ipc_port \<Rightarrow> bool" where
  "IP_PREALLOC p \<longleftrightarrow> io_bits p AND IP_BIT_PREALLOC \<noteq> 0"

abbreviation ip_active :: "ipc_port \<Rightarrow> bool" where "ip_active \<equiv> io_active"

section \<open>The state\<close>

text \<open>
  A slot of a table of dead-name requests: the word \<open>ipr_notify\<close> is the union of \<open>ipr_soright\<close> and
  of \<open>ipr_next\<close>, the link of the free list.  The first slot of a table holds the head of the list
  and \<open>ipr_size\<close>, a pointer into \<open>ipc_table_dnrequests\<close>, here an index.
\<close>

record ipc_port_request =
  ipr_notify :: u32
  ipr_name :: mach_port_name_t

abbreviation ipr_soright :: "ipc_port_request \<Rightarrow> ipc_port_t" where "ipr_soright \<equiv> ipr_notify"

definition ipr_next :: "ipc_port_request \<Rightarrow> nat" where "ipr_next ipr = unat (ipr_notify ipr)"

record ipc_request_table =
  ipr_size :: nat
  ipr_table :: "ipc_port_request list"

text \<open>The notification messages of \<open>mach/mach_notify.h\<close>, each with the send-once right it is sent to.\<close>

datatype ipc_notification =
    Port_deleted ipc_port_t mach_port_name_t
  | Port_destroyed ipc_port_t ipc_port_t
  | No_senders ipc_port_t u32
  | Send_once ipc_port_t
  | Dead_name ipc_port_t mach_port_name_t

text \<open>
  The state adds to the space the objects, the tables of dead-name requests, the timestamp counter,
  the lock \<open>ipc_port_multiple_lock\<close>, and the notifications handed to \<open>mach_notify_*\<close> so far.
\<close>

record ipc_kstate = ipc_state +
  st_objects :: "ipc_object_t \<rightharpoonup> ipc_port"
  st_requests :: "ipc_port_request_t \<rightharpoonup> ipc_request_table"
  ipc_port_timestamp_data :: u32
  st_multiple_locked :: bool
  st_notes :: "ipc_notification list"

text \<open>
  What the routines call outside: the generated senders of notifications, message queues and
  their wait queues, kernel objects, message buffers, and the allocators.
\<close>

record ipc_kernel =
  ipc_space_kernel :: ipc_space_t
  k_env :: "unit ipc_kstate_ext ipc_env"
  k_mach_notify :: "ipc_notification \<Rightarrow> ipc_kstate \<Rightarrow> kern_return_t \<times> ipc_kstate"
  k_mqueue_init :: "ipc_object_t \<Rightarrow> bool \<Rightarrow> ipc_kstate \<Rightarrow> ipc_kstate"
  k_mqueue_changed :: "ipc_object_t \<Rightarrow> ipc_kstate \<Rightarrow> ipc_kstate"
  k_mqueue_destroy :: "ipc_port_t \<Rightarrow> ipc_kstate \<Rightarrow> ipc_kstate"
  k_mqueue_member :: "ipc_port_t \<Rightarrow> ipc_object_t \<Rightarrow> ipc_kstate \<Rightarrow> bool"
  k_mqueue_add :: "ipc_port_t \<Rightarrow> ipc_object_t \<Rightarrow> ipc_kstate \<Rightarrow> kern_return_t \<times> ipc_kstate"
  k_mqueue_remove :: "ipc_port_t \<Rightarrow> ipc_object_t \<Rightarrow> ipc_kstate \<Rightarrow> kern_return_t \<times> ipc_kstate"
  k_mqueue_remove_from_all :: "ipc_port_t \<Rightarrow> ipc_kstate \<Rightarrow> ipc_kstate"
  k_mqueue_remove_all :: "ipc_object_t \<Rightarrow> ipc_kstate \<Rightarrow> ipc_kstate"
  k_kobject_destroy :: "ipc_port_t \<Rightarrow> ipc_kstate \<Rightarrow> ipc_kstate"
  k_prealloc_inuse :: "ipc_kmsg_t \<Rightarrow> ipc_kstate \<Rightarrow> bool"
  k_kmsg_free :: "ipc_kmsg_t \<Rightarrow> ipc_kstate \<Rightarrow> ipc_kstate"
  k_dnrequests_alloc :: "nat \<Rightarrow> ipc_kstate \<Rightarrow> ipc_port_request_t option"
  k_io_alloc :: "u32 \<Rightarrow> ipc_kstate \<Rightarrow> ipc_object_t option"
  k_lock_try :: "ipc_port_t \<Rightarrow> ipc_kstate \<Rightarrow> bool"

abbreviation others :: "ipc_kernel \<Rightarrow> ipc_kstate \<Rightarrow> ipc_kstate" where
  "others k \<equiv> env_others (k_env k)"

definition set_object :: "ipc_object_t \<Rightarrow> (ipc_port \<Rightarrow> ipc_port) \<Rightarrow> ipc_kstate \<Rightarrow> ipc_kstate option" where
  "set_object io f s =
     (case st_objects s io of
        None \<Rightarrow> None
      | Some p \<Rightarrow> Some (s\<lparr>st_objects := (st_objects s)(io \<mapsto> f p)\<rparr>))"

section \<open>Locks and references\<close>

definition io_lock :: "ipc_object_t \<Rightarrow> ipc_kstate \<Rightarrow> ipc_kstate option" where
  "io_lock io s =
     do { p \<leftarrow> st_objects s io;
          kassert (\<not> io_lock_data p);
          set_object io (io_lock_data_update (\<lambda>_. True)) s }"

definition io_unlock :: "ipc_object_t \<Rightarrow> ipc_kstate \<Rightarrow> ipc_kstate option" where
  "io_unlock io s =
     do { p \<leftarrow> st_objects s io;
          kassert (io_lock_data p);
          set_object io (io_lock_data_update (\<lambda>_. False)) s }"

definition io_free :: "ipc_object_t \<Rightarrow> ipc_kstate \<Rightarrow> ipc_kstate" where
  "io_free io s = s\<lparr>st_objects := (st_objects s)(io := None)\<rparr>"

definition io_check_unlock :: "ipc_object_t \<Rightarrow> ipc_kstate \<Rightarrow> ipc_kstate option" where
  "io_check_unlock io s =
     do { p \<leftarrow> st_objects s io;
          s1 \<leftarrow> io_unlock io s;
          Some (if io_references p = 0 then io_free io s1 else s1) }"

definition io_reference :: "ipc_object_t \<Rightarrow> ipc_kstate \<Rightarrow> ipc_kstate option" where
  "io_reference io s =
     do { p \<leftarrow> st_objects s io;
          kassert (io_references p < IO_MAX_REFERENCES);
          set_object io (io_references_update (\<lambda>n. n + 1)) s }"

definition io_release :: "ipc_object_t \<Rightarrow> ipc_kstate \<Rightarrow> ipc_kstate option" where
  "io_release io s =
     do { p \<leftarrow> st_objects s io;
          kassert (io_references p > 0 \<and> io_references p \<le> IO_MAX_REFERENCES);
          set_object io (io_references_update (\<lambda>n. n - 1)) s }"

definition ipc_object_reference :: "ipc_object_t \<Rightarrow> ipc_kstate \<Rightarrow> ipc_kstate option" where
  "ipc_object_reference io s =
     do { s1 \<leftarrow> io_lock io s;
          p \<leftarrow> st_objects s1 io;
          kassert (io_references p > 0);
          s2 \<leftarrow> io_reference io s1;
          io_unlock io s2 }"

definition ipc_object_release :: "ipc_object_t \<Rightarrow> ipc_kstate \<Rightarrow> ipc_kstate option" where
  "ipc_object_release io s =
     do { s1 \<leftarrow> io_lock io s;
          p \<leftarrow> st_objects s1 io;
          kassert (io_references p > 0);
          s2 \<leftarrow> io_release io s1;
          io_check_unlock io s2 }"

abbreviation ip_lock :: "ipc_port_t \<Rightarrow> ipc_kstate \<Rightarrow> ipc_kstate option" where "ip_lock \<equiv> io_lock"
abbreviation ip_unlock :: "ipc_port_t \<Rightarrow> ipc_kstate \<Rightarrow> ipc_kstate option" where
  "ip_unlock \<equiv> io_unlock"
abbreviation ip_check_unlock :: "ipc_port_t \<Rightarrow> ipc_kstate \<Rightarrow> ipc_kstate option" where
  "ip_check_unlock \<equiv> io_check_unlock"
abbreviation ip_reference :: "ipc_port_t \<Rightarrow> ipc_kstate \<Rightarrow> ipc_kstate option" where
  "ip_reference \<equiv> io_reference"
abbreviation ip_release :: "ipc_port_t \<Rightarrow> ipc_kstate \<Rightarrow> ipc_kstate option" where
  "ip_release \<equiv> io_release"
abbreviation ipc_port_reference :: "ipc_port_t \<Rightarrow> ipc_kstate \<Rightarrow> ipc_kstate option" where
  "ipc_port_reference \<equiv> ipc_object_reference"
abbreviation ipc_port_release :: "ipc_port_t \<Rightarrow> ipc_kstate \<Rightarrow> ipc_kstate option" where
  "ipc_port_release \<equiv> ipc_object_release"

section \<open>Operations on an object that is there\<close>

abbreviation io_put :: "ipc_object_t \<Rightarrow> ipc_port \<Rightarrow> ipc_kstate \<Rightarrow> ipc_kstate" where
  "io_put object p s \<equiv> s\<lparr>st_objects := (st_objects s)(object \<mapsto> p)\<rparr>"

lemma unlocked_same [simp]: "\<not> io_lock_data p \<Longrightarrow> p\<lparr>io_lock_data := False\<rparr> = (p :: ipc_port)"
  by (cases p) simp

lemma locked_same [simp]: "io_lock_data p \<Longrightarrow> p\<lparr>io_lock_data := True\<rparr> = (p :: ipc_port)"
  by (cases p) simp

lemma set_object_eq [simp]:
  "st_objects s io = Some p \<Longrightarrow> set_object io f s = Some (io_put io (f p) s)"
  by (simp add: set_object_def)

lemma io_lock_eq [simp]:
  "st_objects s io = Some p \<Longrightarrow> \<not> io_lock_data p \<Longrightarrow>
     io_lock io s = Some (io_put io (p\<lparr>io_lock_data := True\<rparr>) s)"
  by (simp add: io_lock_def)

lemma io_unlock_eq [simp]:
  "st_objects s io = Some p \<Longrightarrow> io_lock_data p \<Longrightarrow>
     io_unlock io s = Some (io_put io (p\<lparr>io_lock_data := False\<rparr>) s)"
  by (simp add: io_unlock_def)

lemma io_reference_eq [simp]:
  "st_objects s io = Some p \<Longrightarrow> io_references p < IO_MAX_REFERENCES \<Longrightarrow>
     io_reference io s = Some (io_put io (p\<lparr>io_references := io_references p + 1\<rparr>) s)"
  by (cases p) (simp add: io_reference_def)

lemma io_release_eq [simp]:
  "st_objects s io = Some p \<Longrightarrow> 0 < io_references p \<Longrightarrow> io_references p \<le> IO_MAX_REFERENCES \<Longrightarrow>
     io_release io s = Some (io_put io (p\<lparr>io_references := io_references p - 1\<rparr>) s)"
  by (cases p) (simp add: io_release_def)

lemma io_check_unlock_eq [simp]:
  "st_objects s io = Some p \<Longrightarrow> io_lock_data p \<Longrightarrow>
     io_check_unlock io s =
       Some (if io_references p = 0 then io_free io s else io_put io (p\<lparr>io_lock_data := False\<rparr>) s)"
  by (simp add: io_check_unlock_def io_free_def)

lemma io_put_same: "st_objects s io = Some p \<Longrightarrow> io_put io p s = s"
  by (cases s) (auto simp: fun_upd_idem)

lemma max_references: "IO_MAX_REFERENCES = 0x7fffffff"
  by (simp add: IO_MAX_REFERENCES_def)

lemma referenced:
  assumes "r < IO_MAX_REFERENCES"
  shows "r + 1 \<noteq> 0" "r + 1 = 1 \<longleftrightarrow> r = 0" "r + 1 \<le> IO_MAX_REFERENCES" "0 < r + 1"
proof -
  have "unat r < 0x7fffffff" using assms by (simp add: max_references word_less_nat_alt)
  then have u: "unat (r + 1) = unat r + 1" by (simp add: unat_word_ariths)
  then show "0 < r + 1" by (simp add: word_less_nat_alt)
  then show "r + 1 \<noteq> 0" by auto
  show "r + 1 \<le> IO_MAX_REFERENCES" using u \<open>unat r < 0x7fffffff\<close> by (simp add: max_references word_le_nat_alt)
qed simp

lemma object_release_eq:
  assumes "st_objects s io = Some p" "\<not> io_lock_data p" "0 < io_references p"
    "io_references p \<le> IO_MAX_REFERENCES"
  shows "ipc_object_release io s =
    Some (if io_references p = 1 then io_free io s
          else io_put io (p\<lparr>io_references := io_references p - 1\<rparr>) s)"
proof -
  have "io_references p - 1 = 0 \<longleftrightarrow> io_references p = 1" by simp
  then show ?thesis using assms by (simp add: ipc_object_release_def io_free_def)
qed

lemma object_reference_eq:
  assumes "st_objects s io = Some p" "\<not> io_lock_data p" "0 < io_references p"
    "io_references p < IO_MAX_REFERENCES"
  shows "ipc_object_reference io s = Some (io_put io (p\<lparr>io_references := io_references p + 1\<rparr>) s)"
  using assms by (simp add: ipc_object_reference_def)

lemma io_active_update [simp]:
  "io_active (p\<lparr>io_lock_data := b\<rparr>) = io_active p" "io_active (p\<lparr>io_references := n\<rparr>) = io_active p"
  "io_active (p\<lparr>ip_dnrequests := tp\<rparr>) = io_active p"
  by (simp_all add: io_active_def)

section \<open>Types of rights in messages\<close>

type_synonym mach_msg_type_name_t = u32

definition MACH_MSG_TYPE_MOVE_RECEIVE :: mach_msg_type_name_t where "MACH_MSG_TYPE_MOVE_RECEIVE = 16"
definition MACH_MSG_TYPE_MOVE_SEND :: mach_msg_type_name_t where "MACH_MSG_TYPE_MOVE_SEND = 17"
definition MACH_MSG_TYPE_MOVE_SEND_ONCE :: mach_msg_type_name_t where "MACH_MSG_TYPE_MOVE_SEND_ONCE = 18"
definition MACH_MSG_TYPE_COPY_SEND :: mach_msg_type_name_t where "MACH_MSG_TYPE_COPY_SEND = 19"
definition MACH_MSG_TYPE_MAKE_SEND :: mach_msg_type_name_t where "MACH_MSG_TYPE_MAKE_SEND = 20"
definition MACH_MSG_TYPE_MAKE_SEND_ONCE :: mach_msg_type_name_t where "MACH_MSG_TYPE_MAKE_SEND_ONCE = 21"
definition MACH_MSG_TYPE_COPY_RECEIVE :: mach_msg_type_name_t where "MACH_MSG_TYPE_COPY_RECEIVE = 22"
definition MACH_MSG_TYPE_PORT_NONE :: mach_msg_type_name_t where "MACH_MSG_TYPE_PORT_NONE = 0"
definition MACH_MSG_TYPE_PORT_RECEIVE :: mach_msg_type_name_t where
  "MACH_MSG_TYPE_PORT_RECEIVE = MACH_MSG_TYPE_MOVE_RECEIVE"
definition MACH_MSG_TYPE_PORT_SEND :: mach_msg_type_name_t where
  "MACH_MSG_TYPE_PORT_SEND = MACH_MSG_TYPE_MOVE_SEND"
definition MACH_MSG_TYPE_PORT_SEND_ONCE :: mach_msg_type_name_t where
  "MACH_MSG_TYPE_PORT_SEND_ONCE = MACH_MSG_TYPE_MOVE_SEND_ONCE"

lemmas msg_type_defs =
  MACH_MSG_TYPE_MOVE_RECEIVE_def MACH_MSG_TYPE_MOVE_SEND_def MACH_MSG_TYPE_MOVE_SEND_ONCE_def
  MACH_MSG_TYPE_COPY_SEND_def MACH_MSG_TYPE_MAKE_SEND_def MACH_MSG_TYPE_MAKE_SEND_ONCE_def
  MACH_MSG_TYPE_COPY_RECEIVE_def MACH_MSG_TYPE_PORT_NONE_def MACH_MSG_TYPE_PORT_RECEIVE_def
  MACH_MSG_TYPE_PORT_SEND_def MACH_MSG_TYPE_PORT_SEND_ONCE_def

definition ipc_object_copyin_type :: "mach_msg_type_name_t \<Rightarrow> mach_msg_type_name_t" where
  "ipc_object_copyin_type msgt_name =
     (if msgt_name = MACH_MSG_TYPE_MOVE_RECEIVE \<or> msgt_name = MACH_MSG_TYPE_COPY_RECEIVE
      then MACH_MSG_TYPE_PORT_RECEIVE
      else if msgt_name = MACH_MSG_TYPE_MOVE_SEND_ONCE \<or> msgt_name = MACH_MSG_TYPE_MAKE_SEND_ONCE
      then MACH_MSG_TYPE_PORT_SEND_ONCE
      else if msgt_name = MACH_MSG_TYPE_MOVE_SEND \<or> msgt_name = MACH_MSG_TYPE_MAKE_SEND \<or>
              msgt_name = MACH_MSG_TYPE_COPY_SEND
      then MACH_MSG_TYPE_PORT_SEND
      else MACH_MSG_TYPE_PORT_NONE)"

section \<open>A quiet kernel, and samples\<close>

text \<open>An instance of the interfaces, for concrete runs: nobody else runs, and every call succeeds.\<close>

definition quiet_env :: "'a ipc_env" where
  "quiet_env = \<lparr>env_others = (\<lambda>s. s), env_table_alloc = (\<lambda>_. True), env_ite_alloc = (\<lambda>_. Some 0x9000)\<rparr>"

definition quiet_kernel :: ipc_kernel where
  "quiet_kernel = \<lparr>ipc_space_kernel = 0x100, k_env = quiet_env, k_mach_notify = (\<lambda>_ s. (KERN_SUCCESS, s)),
     k_mqueue_init = (\<lambda>_ _ s. s), k_mqueue_changed = (\<lambda>_ s. s), k_mqueue_destroy = (\<lambda>_ s. s),
     k_mqueue_member = (\<lambda>_ _ _. False), k_mqueue_add = (\<lambda>_ _ s. (KERN_SUCCESS, s)),
     k_mqueue_remove = (\<lambda>_ _ s. (KERN_SUCCESS, s)), k_mqueue_remove_from_all = (\<lambda>_ s. s),
     k_mqueue_remove_all = (\<lambda>_ s. s), k_kobject_destroy = (\<lambda>_ s. s), k_prealloc_inuse = (\<lambda>_ _. False),
     k_kmsg_free = (\<lambda>_ s. s), 
     k_dnrequests_alloc = (\<lambda>_ s. if st_requests s 0xa000 = None then Some 0xa000 else None), k_io_alloc = (\<lambda>_ _. Some 0xb000),
     k_lock_try = (\<lambda>_ _. True)\<rparr>"

lemma quiet_kernel_simps [simp]:
  "others quiet_kernel s = s" "ipc_space_kernel quiet_kernel = 0x100"
  "k_mach_notify quiet_kernel n s = (KERN_SUCCESS, s)"
  "k_dnrequests_alloc quiet_kernel its s = (if st_requests s 0xa000 = None then Some 0xa000 else None)"
  by (simp_all add: quiet_kernel_def quiet_env_def)

definition sample_port :: ipc_port where
  "sample_port = \<lparr>io_references = 1, io_bits = io_makebits True IOT_PORT 0, io_receiver_name = 0x103,
     io_lock_data = True, ip_data = 0x200, ip_mscount = 0, ip_srights = 0, ip_sorights = 0,
     ip_nsrequest = 0, ip_pdrequest = 0, ip_dnrequests = 0, ip_pset_count = 0, imq_seqno = 0,
     ip_premsg = 0\<rparr>"

definition sample_kstate ::
  "(ipc_object_t \<rightharpoonup> ipc_port) \<Rightarrow> (ipc_port_request_t \<rightharpoonup> ipc_request_table) \<Rightarrow> ipc_kstate" where
  "sample_kstate objects tables = \<lparr>st_self = 0x200, st_locked = False,
     st_space = \<lparr>is_active = True, is_growing = False, is_fast = False, is_table = [], is_table_next = 0,
       is_tree = empty_splay, is_tree_total = 0, is_tree_small = 0, is_tree_hash = 0\<rparr>,
     st_tree_entries = Map.empty, ipc_hash_global_table = [[]], st_objects = objects,
     st_requests = tables, ipc_port_timestamp_data = 0, st_multiple_locked = False, st_notes = []\<rparr>"

lemma sample_port_active [simp]: "io_active sample_port"
  by (simp add: io_active_def sample_port_def io_makebits_def IO_BITS_ACTIVE_def IOT_PORT_def)

lemma sample_port_simps [simp]:
  "io_references sample_port = 1" "io_lock_data sample_port" "io_receiver_name sample_port = 0x103"
  "ip_data sample_port = 0x200" "ip_mscount sample_port = 0" "ip_srights sample_port = 0"
  "ip_sorights sample_port = 0" "ip_nsrequest sample_port = 0" "ip_pdrequest sample_port = 0"
  "ip_dnrequests sample_port = 0"
  by (simp_all add: sample_port_def)

lemma sample_kstate_simps [simp]:
  "st_objects (sample_kstate objects tables) = objects" "st_requests (sample_kstate objects tables) = tables"
  "st_self (sample_kstate objects tables) = 0x200" "st_locked (sample_kstate objects tables) = False"
  "st_multiple_locked (sample_kstate objects tables) = False" "st_notes (sample_kstate objects tables) = []"
  "is_fast (st_space (sample_kstate objects tables)) = False"
  by (simp_all add: sample_kstate_def)

end
