(* ===== verification/Ipc_Port.thy ===== *)
theory Ipc_Port
  imports Ipc_Object
begin

text \<open>
  Ports: \<open>osfmk/ipc/ipc_port.c\<close>, the notifications of \<open>osfmk/ipc/ipc_notify.c\<close> and the removal of a
  port from its port sets (\<open>osfmk/ipc/ipc_pset.c\<close>).  \<open>ipc_port_alloc\<close> and \<open>ipc_port_copyout_send\<close>,
  which work on a space, are in \<open>Ipc_Object_Ops\<close>.
\<close>

section \<open>Timestamps\<close>

definition ipc_port_timestamp :: "ipc_kstate \<Rightarrow> u32 \<times> ipc_kstate" where
  "ipc_port_timestamp s =
     (ipc_port_timestamp_data s, s\<lparr>ipc_port_timestamp_data := ipc_port_timestamp_data s + 1\<rparr>)"

definition IP_TIMESTAMP_ORDER :: "u32 \<Rightarrow> u32 \<Rightarrow> bool" where
  "IP_TIMESTAMP_ORDER one two \<longleftrightarrow> sint (one - two) < 0"

section \<open>Dead-name requests\<close>

definition set_request :: "ipc_port_request_t \<Rightarrow> ipc_request_table \<Rightarrow> ipc_kstate \<Rightarrow> ipc_kstate" where
  "set_request tp t s = s\<lparr>st_requests := (st_requests s)(tp \<mapsto> t)\<rparr>"

definition it_dnrequests_free :: "ipc_port_request_t \<Rightarrow> ipc_kstate \<Rightarrow> ipc_kstate" where
  "it_dnrequests_free tp s = s\<lparr>st_requests := (st_requests s)(tp := None)\<rparr>"

text \<open>A free slot is taken off the free list of a table, or none is left.\<close>

definition request_take ::
  "mach_port_name_t \<Rightarrow> ipc_port_t \<Rightarrow> ipc_port_request list
     \<Rightarrow> (nat \<times> ipc_port_request list) option option" where
  "request_take name soright ts =
     do { head \<leftarrow> nth_opt ts 0;
          let index = ipr_next head;
          if index = 0 then Some None
          else do {
            ipr \<leftarrow> nth_opt ts index;
            kassert (ipr_name ipr = MACH_PORT_NULL);
            Some (Some (index, ts[0 := head\<lparr>ipr_notify := ipr_notify ipr\<rparr>,
                                  index := \<lparr>ipr_notify = soright, ipr_name = name\<rparr>])) } }"

definition ipc_port_dnrequest ::
  "ipc_port_t \<Rightarrow> mach_port_name_t \<Rightarrow> ipc_port_t \<Rightarrow> ipc_kstate
     \<Rightarrow> ((kern_return_t + nat) \<times> ipc_kstate) option" where
  "ipc_port_dnrequest port name soright s =
     do { p \<leftarrow> st_objects s port;
          kassert (ip_active p \<and> name \<noteq> MACH_PORT_NULL \<and> soright \<noteq> IP_NULL);
          if ip_dnrequests p = IPR_NULL then Some (Inl KERN_NO_SPACE, s)
          else do {
            t \<leftarrow> st_requests s (ip_dnrequests p);
            r \<leftarrow> request_take name soright (ipr_table t);
            case r of
              None \<Rightarrow> Some (Inl KERN_NO_SPACE, s)
            | Some (index, ts) \<Rightarrow>
                Some (Inr index, set_request (ip_dnrequests p) (t\<lparr>ipr_table := ts\<rparr>) s) } }"

text \<open>The search for the size of a new table.\<close>

partial_function (option) dngrow_target :: "nat \<Rightarrow> nat \<Rightarrow> nat option" where
  "dngrow_target target its =
     do { sz \<leftarrow> nth_opt ipc_table_dnrequests its;
          if sz \<noteq> 0 \<and> sz < target then dngrow_target target (its + 1) else Some its }"

text \<open>The loop that chains the new slots in front of the free list.\<close>

fun dngrow_free :: "nat \<Rightarrow> nat \<Rightarrow> nat \<Rightarrow> ipc_port_request list" where
  "dngrow_free 0 i free = []"
| "dngrow_free (Suc n) i free =
     \<lparr>ipr_notify = of_nat free, ipr_name = MACH_PORT_NULL\<rparr> # dngrow_free n (i + 1) i"

text \<open>
  The new table: the head, the old slots but the first, the new slots.  The head of the free list is
  the last new slot.
\<close>

definition dngrow_table :: "ipc_request_table option \<Rightarrow> nat \<Rightarrow> nat \<Rightarrow> ipc_request_table option" where
  "dngrow_table ot its nsize =
     do { (osize, free, copied) \<leftarrow>
            (case ot of
               None \<Rightarrow> Some (1, 0, [])
             | Some t \<Rightarrow>
                 do { osize \<leftarrow> nth_opt ipc_table_dnrequests (ipr_size t);
                      head \<leftarrow> nth_opt (ipr_table t) 0;
                      Some (osize, ipr_next head, take (osize - 1) (drop 1 (ipr_table t))) });
          kassert (nsize > osize);
          Some \<lparr>ipr_size = its,
                ipr_table = \<lparr>ipr_notify = of_nat (nsize - 1), ipr_name = MACH_PORT_NULL\<rparr>
                            # copied @ dngrow_free (nsize - osize) osize free\<rparr> }"

text \<open>
  The second half of a growth, with the port locked again: \<open>ntable\<close> is the new table, of the size
  with index \<open>its\<close>; \<open>otable\<close> is the table the port had before the lock was released.
\<close>

definition dngrow_install ::
  "ipc_port_t \<Rightarrow> ipc_port_request_t \<Rightarrow> nat \<Rightarrow> nat \<Rightarrow> ipc_port_request_t \<Rightarrow> ipc_kstate \<Rightarrow> ipc_kstate option" where
  "dngrow_install port otable its nsize ntable s =
     do { p \<leftarrow> st_objects s port;
          ot \<leftarrow> (if otable = IPR_NULL \<or> \<not> ip_active p \<or> ip_dnrequests p \<noteq> otable then Some None
                 else do { t \<leftarrow> st_requests s otable; Some (Some t) });
          if ip_active p \<and> ip_dnrequests p = otable \<and>
             (case ot of None \<Rightarrow> True | Some t \<Rightarrow> ipr_size t + 1 = its)
          then do {
            t \<leftarrow> dngrow_table ot its nsize;
            s1 \<leftarrow> set_object port (ip_dnrequests_update (\<lambda>_. ntable)) (set_request ntable t s);
            s2 \<leftarrow> ip_unlock port s1;
            Some (if otable \<noteq> IPR_NULL then it_dnrequests_free otable s2 else s2) }
          else do { s1 \<leftarrow> ip_check_unlock port s; Some (it_dnrequests_free ntable s1) } }"

definition ipc_port_dngrow ::
  "ipc_kernel \<Rightarrow> ipc_port_t \<Rightarrow> nat \<Rightarrow> ipc_kstate \<Rightarrow> (kern_return_t \<times> ipc_kstate) option" where
  "ipc_port_dngrow k port target s =
     do { p \<leftarrow> st_objects s port;
          kassert (ip_active p);
          let otable = ip_dnrequests p;
          its0 \<leftarrow> (if otable = IPR_NULL then Some 0
                   else do { t \<leftarrow> st_requests s otable; Some (ipr_size t + 1) });
          osize \<leftarrow> (if otable = IPR_NULL then Some 0 else nth_opt ipc_table_dnrequests (its0 - 1));
          if target \<noteq> ITS_SIZE_NONE \<and> otable \<noteq> IPR_NULL \<and> target \<le> osize
          then do { s1 \<leftarrow> ip_unlock port s; Some (KERN_SUCCESS, s1) }
          else do {
            its \<leftarrow> (if target \<noteq> ITS_SIZE_NONE then dngrow_target target its0 else Some its0);
            nsize \<leftarrow> nth_opt ipc_table_dnrequests its;
            if target \<noteq> ITS_SIZE_NONE \<and> nsize = 0
            then do { s1 \<leftarrow> ip_unlock port s; Some (KERN_NO_SPACE, s1) }
            else do {
              s1 \<leftarrow> ip_reference port s;
              s2 \<leftarrow> ip_unlock port s1;
              let s3 = others k s2;
              case (if nsize = 0 then None else k_dnrequests_alloc k its s3) of
                None \<Rightarrow> do { s4 \<leftarrow> ipc_port_release port s3; Some (KERN_RESOURCE_SHORTAGE, s4) }
              | Some ntable \<Rightarrow>
                  do { s4 \<leftarrow> ip_lock port s3;
                       s5 \<leftarrow> ip_release port s4;
                       s6 \<leftarrow> dngrow_install port otable its nsize ntable s5;
                       Some (KERN_SUCCESS, s6) } } } }"

text \<open>A slot goes back to the free list.\<close>

definition request_give ::
  "mach_port_name_t \<Rightarrow> nat \<Rightarrow> ipc_port_request list \<Rightarrow> (ipc_port_t \<times> ipc_port_request list) option" where
  "request_give name index ts =
     do { head \<leftarrow> nth_opt ts 0;
          ipr \<leftarrow> nth_opt ts index;
          kassert (ipr_name ipr = name);
          Some (ipr_soright ipr,
                ts[index := \<lparr>ipr_notify = ipr_notify head, ipr_name = MACH_PORT_NULL\<rparr>,
                   0 := head\<lparr>ipr_notify := of_nat index\<rparr>]) }"

definition ipc_port_dncancel ::
  "ipc_port_t \<Rightarrow> mach_port_name_t \<Rightarrow> nat \<Rightarrow> ipc_kstate \<Rightarrow> (ipc_port_t \<times> ipc_kstate) option" where
  "ipc_port_dncancel port name index s =
     do { p \<leftarrow> st_objects s port;
          kassert (ip_active p \<and> name \<noteq> MACH_PORT_NULL \<and> index \<noteq> 0);
          kassert (ip_dnrequests p \<noteq> IPR_NULL);
          t \<leftarrow> st_requests s (ip_dnrequests p);
          (soright, ts) \<leftarrow> request_give name index (ipr_table t);
          Some (soright, set_request (ip_dnrequests p) (t\<lparr>ipr_table := ts\<rparr>) s) }"

definition ipc_port_dnrename ::
  "ipc_port_t \<Rightarrow> nat \<Rightarrow> mach_port_name_t \<Rightarrow> mach_port_name_t \<Rightarrow> ipc_kstate \<Rightarrow> ipc_kstate option" where
  "ipc_port_dnrename port index oname nname s =
     do { p \<leftarrow> st_objects s port;
          kassert (ip_active p);
          kassert (ip_dnrequests p \<noteq> IPR_NULL);
          t \<leftarrow> st_requests s (ip_dnrequests p);
          ipr \<leftarrow> nth_opt (ipr_table t) index;
          kassert (ipr_name ipr = oname);
          Some (set_request (ip_dnrequests p)
                  (t\<lparr>ipr_table := (ipr_table t)[index := ipr\<lparr>ipr_name := nname\<rparr>]\<rparr>) s) }"

section \<open>Notifications\<close>

definition ipc_port_release_sonce :: "ipc_port_t \<Rightarrow> ipc_kstate \<Rightarrow> ipc_kstate option" where
  "ipc_port_release_sonce port s =
     do { kassert (IP_VALID port);
          s1 \<leftarrow> ip_lock port s;
          p \<leftarrow> st_objects s1 port;
          kassert (ip_sorights p > 0);
          s2 \<leftarrow> set_object port (ip_sorights_update (\<lambda>n. n - 1)) s1;
          s3 \<leftarrow> ip_release port s2;
          if \<not> ip_active p then ip_check_unlock port s3 else ip_unlock port s3 }"

text \<open>A call of one of the generated routines \<open>mach_notify_*\<close>; the call is recorded.\<close>

definition mach_notify ::
  "ipc_kernel \<Rightarrow> ipc_notification \<Rightarrow> ipc_kstate \<Rightarrow> kern_return_t \<times> ipc_kstate" where
  "mach_notify k n s = k_mach_notify k n (s\<lparr>st_notes := st_notes s @ [n]\<rparr>)"

definition ipc_notify_port_deleted ::
  "ipc_kernel \<Rightarrow> ipc_port_t \<Rightarrow> mach_port_name_t \<Rightarrow> ipc_kstate \<Rightarrow> ipc_kstate option" where
  "ipc_notify_port_deleted k port name s =
     (case mach_notify k (Port_deleted port name) s of
        (kr, s1) \<Rightarrow> if kr \<noteq> KERN_SUCCESS then ipc_port_release_sonce port s1 else Some s1)"

definition ipc_notify_no_senders ::
  "ipc_kernel \<Rightarrow> ipc_port_t \<Rightarrow> u32 \<Rightarrow> ipc_kstate \<Rightarrow> ipc_kstate option" where
  "ipc_notify_no_senders k port mscount s =
     (case mach_notify k (No_senders port mscount) s of
        (kr, s1) \<Rightarrow> if kr \<noteq> KERN_SUCCESS then ipc_port_release_sonce port s1 else Some s1)"

definition ipc_notify_send_once ::
  "ipc_kernel \<Rightarrow> ipc_port_t \<Rightarrow> ipc_kstate \<Rightarrow> ipc_kstate option" where
  "ipc_notify_send_once k port s =
     (case mach_notify k (Send_once port) s of
        (kr, s1) \<Rightarrow> if kr \<noteq> KERN_SUCCESS then ipc_port_release_sonce port s1 else Some s1)"

definition ipc_notify_dead_name ::
  "ipc_kernel \<Rightarrow> ipc_port_t \<Rightarrow> mach_port_name_t \<Rightarrow> ipc_kstate \<Rightarrow> ipc_kstate option" where
  "ipc_notify_dead_name k port name s =
     (case mach_notify k (Dead_name port name) s of
        (kr, s1) \<Rightarrow> if kr \<noteq> KERN_SUCCESS then ipc_port_release_sonce port s1 else Some s1)"

section \<open>Requests for notifications\<close>

definition ipc_port_pdrequest ::
  "ipc_port_t \<Rightarrow> ipc_port_t \<Rightarrow> ipc_kstate \<Rightarrow> (ipc_port_t \<times> ipc_kstate) option" where
  "ipc_port_pdrequest port notify s =
     do { p \<leftarrow> st_objects s port;
          kassert (ip_active p);
          s1 \<leftarrow> set_object port (ip_pdrequest_update (\<lambda>_. notify)) s;
          s2 \<leftarrow> ip_unlock port s1;
          Some (ip_pdrequest p, s2) }"

definition ipc_port_nsrequest ::
  "ipc_kernel \<Rightarrow> ipc_port_t \<Rightarrow> u32 \<Rightarrow> ipc_port_t \<Rightarrow> ipc_kstate \<Rightarrow> (ipc_port_t \<times> ipc_kstate) option" where
  "ipc_port_nsrequest k port sync notify s =
     do { p \<leftarrow> st_objects s port;
          kassert (ip_active p);
          if ip_srights p = 0 \<and> sync \<le> ip_mscount p \<and> notify \<noteq> IP_NULL
          then do { s1 \<leftarrow> set_object port (ip_nsrequest_update (\<lambda>_. IP_NULL)) s;
                    s2 \<leftarrow> ip_unlock port s1;
                    s3 \<leftarrow> ipc_notify_no_senders k notify (ip_mscount p) s2;
                    Some (ip_nsrequest p, s3) }
          else do { s1 \<leftarrow> set_object port (ip_nsrequest_update (\<lambda>_. notify)) s;
                    s2 \<leftarrow> ip_unlock port s1;
                    Some (ip_nsrequest p, s2) } }"

section \<open>Receive rights\<close>

definition ipc_pset_remove_from_all ::
  "ipc_kernel \<Rightarrow> ipc_port_t \<Rightarrow> ipc_kstate \<Rightarrow> (kern_return_t \<times> ipc_kstate) option" where
  "ipc_pset_remove_from_all k port s =
     do { p \<leftarrow> st_objects s port;
          kassert (ip_active p);
          if ip_pset_count p = 0 then Some (KERN_NOT_IN_SET, s)
          else do { s1 \<leftarrow> set_object port (ip_pset_count_update (\<lambda>_. 0)) (k_mqueue_remove_from_all k port s);
                    Some (KERN_SUCCESS, s1) } }"

definition ipc_port_set_mscount :: "ipc_port_t \<Rightarrow> u32 \<Rightarrow> ipc_kstate \<Rightarrow> ipc_kstate option" where
  "ipc_port_set_mscount port mscount s =
     do { p \<leftarrow> st_objects s port;
          kassert (ip_active p);
          set_object port (ip_mscount_update (\<lambda>_. mscount)) s }"

definition ipc_port_clear_receiver ::
  "ipc_kernel \<Rightarrow> ipc_port_t \<Rightarrow> ipc_kstate \<Rightarrow> ipc_kstate option" where
  "ipc_port_clear_receiver k port s =
     do { p \<leftarrow> st_objects s port;
          kassert (ip_active p);
          s1 \<leftarrow> (if ip_pset_count p \<noteq> 0
                 then do { (_, s1) \<leftarrow> ipc_pset_remove_from_all k port s;
                           p1 \<leftarrow> st_objects s1 port;
                           kassert (ip_pset_count p1 = 0);
                           Some s1 }
                 else Some s);
          s2 \<leftarrow> ipc_port_set_mscount port 0 (k_mqueue_changed k port s1);
          set_object port (imq_seqno_update (\<lambda>_. 0)) s2 }"

definition ipc_port_init ::
  "ipc_kernel \<Rightarrow> ipc_port_t \<Rightarrow> ipc_space_t \<Rightarrow> mach_port_name_t \<Rightarrow> ipc_kstate \<Rightarrow> ipc_kstate option" where
  "ipc_port_init k port space name s =
     do { s1 \<leftarrow> set_object port (\<lambda>p. p\<lparr>ip_data := space, io_receiver_name := name,
                   ip_mscount := 0, ip_srights := 0, ip_sorights := 0,
                   ip_nsrequest := IP_NULL, ip_pdrequest := IP_NULL, ip_dnrequests := IPR_NULL,
                   ip_pset_count := 0, ip_premsg := IKM_NULL\<rparr>) s;
          Some (k_mqueue_init k port False s1) }"

text \<open>The loop over the slots of a table that notifies the holders of dead names.\<close>

fun dnnotify_loop :: "ipc_kernel \<Rightarrow> ipc_port_request list \<Rightarrow> ipc_kstate \<Rightarrow> ipc_kstate option" where
  "dnnotify_loop k [] s = Some s"
| "dnnotify_loop k (ipr # iprs) s =
     (if ipr_name ipr = MACH_PORT_NULL then dnnotify_loop k iprs s
      else do { kassert (ipr_soright ipr \<noteq> IP_NULL);
                s1 \<leftarrow> ipc_notify_dead_name k (ipr_soright ipr) (ipr_name ipr) s;
                dnnotify_loop k iprs s1 })"

definition ipc_port_dnnotify ::
  "ipc_kernel \<Rightarrow> ipc_port_request_t \<Rightarrow> ipc_kstate \<Rightarrow> ipc_kstate option" where
  "ipc_port_dnnotify k dnrequests s =
     do { t \<leftarrow> st_requests s dnrequests;
          sz \<leftarrow> nth_opt ipc_table_dnrequests (ipr_size t);
          s1 \<leftarrow> dnnotify_loop k (take (sz - 1) (drop 1 (ipr_table t))) s;
          Some (it_dnrequests_free dnrequests s1) }"

text \<open>The part of \<open>ipc_port_destroy\<close> for a port without a backup.\<close>

definition IP_CLEAR_PREALLOC :: "ipc_port_t \<Rightarrow> ipc_kstate \<Rightarrow> ipc_kstate option" where
  "IP_CLEAR_PREALLOC port s =
     set_object port (\<lambda>p. p\<lparr>io_bits := io_bits p AND NOT IP_BIT_PREALLOC, ip_premsg := IKM_NULL\<rparr>) s"

definition destroy_dead :: "ipc_kernel \<Rightarrow> ipc_port_t \<Rightarrow> ipc_kstate \<Rightarrow> ipc_kstate option" where
  "destroy_dead k port s =
     do { p \<leftarrow> st_objects s port;
          let (timestamp, s1) = ipc_port_timestamp s;
          s2 \<leftarrow> set_object port (\<lambda>p. p\<lparr>io_bits := io_bits p AND NOT IO_BITS_ACTIVE,
                   ip_data := timestamp, ip_dnrequests := IPR_NULL\<rparr>) s1;
          s3 \<leftarrow> (if IP_PREALLOC p
                 then do { kassert (ip_premsg p \<noteq> IKM_NULL);
                           s3 \<leftarrow> IP_CLEAR_PREALLOC port s2;
                           Some (if \<not> k_prealloc_inuse k (ip_premsg p) s3
                                 then k_kmsg_free k (ip_premsg p) s3 else s3) }
                 else Some s2);
          s4 \<leftarrow> ip_unlock port s3;
          p4 \<leftarrow> st_objects s4 port;
          s5 \<leftarrow> (if ip_nsrequest p4 \<noteq> IP_NULL then ipc_notify_send_once k (ip_nsrequest p4) s4
                 else Some s4);
          let s6 = k_mqueue_destroy k port s5;
          s7 \<leftarrow> (if ip_dnrequests p \<noteq> IPR_NULL then ipc_port_dnnotify k (ip_dnrequests p) s6
                 else Some s6);
          ipc_port_release port (k_kobject_destroy k port s7) }"

text \<open>
  \<open>ipc_port_destroy\<close> calls \<open>ipc_notify_port_destroyed\<close>, which calls \<open>ipc_port_release_receive\<close> when
  the message cannot be sent, which calls \<open>ipc_port_destroy\<close>; the two calls are written out.
\<close>

partial_function (option) ipc_port_destroy :: "ipc_kernel \<Rightarrow> ipc_port_t \<Rightarrow> ipc_kstate \<Rightarrow> ipc_kstate option" where
  "ipc_port_destroy k port s =
     do { p \<leftarrow> st_objects s port;
          kassert (ip_active p \<and> ip_pset_count p = 0 \<and> ip_mscount p = 0);
          if ip_pdrequest p \<noteq> IP_NULL
          then do {
            s1 \<leftarrow> set_object port (\<lambda>p. p\<lparr>ip_pdrequest := IP_NULL, io_receiver_name := MACH_PORT_NULL,
                     ip_data := IP_NULL\<rparr>) s;
            s2 \<leftarrow> ip_unlock port s1;
            let (kr, s3) = mach_notify k (Port_destroyed (ip_pdrequest p) port) s2;
            if kr \<noteq> KERN_SUCCESS
            then do {
              s4 \<leftarrow> ipc_port_release_sonce (ip_pdrequest p) s3;
              kassert (IP_VALID port);
              s5 \<leftarrow> ip_lock port s4;
              p1 \<leftarrow> st_objects s5 port;
              kassert (ip_active p1 \<and> ip_receiver_name p1 = MACH_PORT_NULL);
              s6 \<leftarrow> ipc_port_destroy k port s5;
              if ip_destination p1 \<noteq> IP_NULL then ipc_port_release (ip_destination p1) s6
              else Some s6 }
            else Some s3 }
          else destroy_dead k port s }"

definition ipc_port_release_receive ::
  "ipc_kernel \<Rightarrow> ipc_port_t \<Rightarrow> ipc_kstate \<Rightarrow> ipc_kstate option" where
  "ipc_port_release_receive k port s =
     do { kassert (IP_VALID port);
          s1 \<leftarrow> ip_lock port s;
          p \<leftarrow> st_objects s1 port;
          kassert (ip_active p \<and> ip_receiver_name p = MACH_PORT_NULL);
          s2 \<leftarrow> ipc_port_destroy k port s1;
          if ip_destination p \<noteq> IP_NULL then ipc_port_release (ip_destination p) s2 else Some s2 }"

definition ipc_notify_port_destroyed ::
  "ipc_kernel \<Rightarrow> ipc_port_t \<Rightarrow> ipc_port_t \<Rightarrow> ipc_kstate \<Rightarrow> ipc_kstate option" where
  "ipc_notify_port_destroyed k port rcv s =
     (case mach_notify k (Port_destroyed port rcv) s of
        (kr, s1) \<Rightarrow>
          if kr \<noteq> KERN_SUCCESS
          then do { s2 \<leftarrow> ipc_port_release_sonce port s1; ipc_port_release_receive k rcv s2 }
          else Some s1)"

section \<open>Circular groups of ports\<close>

definition in_transit :: "ipc_port \<Rightarrow> bool" where
  "in_transit p \<longleftrightarrow> ip_active p \<and> ip_receiver_name p = MACH_PORT_NULL \<and> ip_destination p \<noteq> IP_NULL"

text \<open>The search for the end of the chain, which locks the ports on the way.\<close>

partial_function (option) circularity_base ::
  "ipc_port_t \<Rightarrow> ipc_kstate \<Rightarrow> (ipc_port_t \<times> ipc_kstate) option" where
  "circularity_base base s =
     do { s1 \<leftarrow> ip_lock base s;
          p \<leftarrow> st_objects s1 base;
          if \<not> in_transit p then Some (base, s1) else circularity_base (ip_destination p) s1 }"

text \<open>The two loops that unlock a chain: up to the null pointer, and up to \<open>base\<close>.\<close>

partial_function (option) circularity_unlock_all :: "ipc_port_t \<Rightarrow> ipc_kstate \<Rightarrow> ipc_kstate option" where
  "circularity_unlock_all dest s =
     (if dest \<noteq> IP_NULL
      then do { p \<leftarrow> st_objects s dest;
                kassert (ip_active p \<and> ip_receiver_name p = MACH_PORT_NULL);
                s1 \<leftarrow> ip_unlock dest s;
                circularity_unlock_all (ip_destination p) s1 }
      else Some s)"

partial_function (option) circularity_unlock ::
  "ipc_port_t \<Rightarrow> ipc_port_t \<Rightarrow> ipc_kstate \<Rightarrow> ipc_kstate option" where
  "circularity_unlock port base s =
     (if port \<noteq> base
      then do { p \<leftarrow> st_objects s port;
                kassert (in_transit p);
                s1 \<leftarrow> ip_unlock port s;
                circularity_unlock (ip_destination p) base s1 }
      else Some s)"

text \<open>From the label \<open>not_circular\<close> on, with \<open>port\<close> and the chain from \<open>dest\<close> to \<open>base\<close> locked.\<close>

definition not_circular ::
  "ipc_port_t \<Rightarrow> ipc_port_t \<Rightarrow> ipc_port_t \<Rightarrow> ipc_kstate \<Rightarrow> (bool \<times> ipc_kstate) option" where
  "not_circular port dest base s =
     do { p \<leftarrow> st_objects s port;
          kassert (ip_active p \<and> ip_receiver_name p = MACH_PORT_NULL \<and> ip_destination p = IP_NULL);
          s1 \<leftarrow> ip_reference dest s;
          s2 \<leftarrow> set_object port (ip_data_update (\<lambda>_. dest)) s1;
          s3 \<leftarrow> circularity_unlock port base s2;
          b \<leftarrow> st_objects s3 base;
          kassert (\<not> in_transit b);
          s4 \<leftarrow> ip_unlock base s3;
          Some (False, s4) }"

definition ipc_port_multiple_lock :: "ipc_kstate \<Rightarrow> ipc_kstate option" where
  "ipc_port_multiple_lock s = (if st_multiple_locked s then None else Some (s\<lparr>st_multiple_locked := True\<rparr>))"

definition ipc_port_multiple_unlock :: "ipc_kstate \<Rightarrow> ipc_kstate option" where
  "ipc_port_multiple_unlock s = (if st_multiple_locked s then Some (s\<lparr>st_multiple_locked := False\<rparr>) else None)"

text \<open>The slow path, under the lock that lets a thread lock several ports.\<close>

definition circularity_slow ::
  "ipc_port_t \<Rightarrow> ipc_port_t \<Rightarrow> ipc_kstate \<Rightarrow> (bool \<times> ipc_kstate) option" where
  "circularity_slow port dest s =
     do { s1 \<leftarrow> ipc_port_multiple_lock s;
          (base, s2) \<leftarrow> circularity_base dest s1;
          if port = base
          then do { s3 \<leftarrow> ipc_port_multiple_unlock s2;
                    p \<leftarrow> st_objects s3 port;
                    kassert (ip_active p \<and> ip_receiver_name p = MACH_PORT_NULL \<and> ip_destination p = IP_NULL);
                    s4 \<leftarrow> circularity_unlock_all dest s3;
                    Some (True, s4) }
          else do { s3 \<leftarrow> ip_lock port s2;
                    s4 \<leftarrow> ipc_port_multiple_unlock s3;
                    not_circular port dest base s4 } }"

definition ipc_port_check_circularity ::
  "ipc_kernel \<Rightarrow> ipc_port_t \<Rightarrow> ipc_port_t \<Rightarrow> ipc_kstate \<Rightarrow> (bool \<times> ipc_kstate) option" where
  "ipc_port_check_circularity k port dest s =
     do { kassert (port \<noteq> IP_NULL \<and> dest \<noteq> IP_NULL);
          if port = dest then Some (True, s)
          else do {
            s1 \<leftarrow> ip_lock port s;
            if k_lock_try k dest s1
            then do { s2 \<leftarrow> ip_lock dest s1;
                      d \<leftarrow> st_objects s2 dest;
                      if \<not> in_transit d then not_circular port dest dest s2
                      else do { s3 \<leftarrow> ip_unlock dest s2;
                                s4 \<leftarrow> ip_unlock port s3;
                                circularity_slow port dest (others k s4) } }
            else do { s2 \<leftarrow> ip_unlock port s1;
                      circularity_slow port dest (others k s2) } } }"

section \<open>Naked rights\<close>

definition ipc_port_lookup_notify ::
  "mach_port_name_t \<Rightarrow> ipc_kstate \<Rightarrow> (ipc_port_t \<times> ipc_kstate) option" where
  "ipc_port_lookup_notify name s =
     do { kassert (is_active (st_space s));
          (r, s1) \<leftarrow> ipc_entry_lookup s name;
          case r of
            None \<Rightarrow> Some (IP_NULL, s1)
          | Some entry \<Rightarrow>
              do { e \<leftarrow> entry_at s1 entry;
                   if ie_bits e AND MACH_PORT_TYPE_RECEIVE = 0 then Some (IP_NULL, s1)
                   else do {
                     let port = ie_object e;
                     kassert (port \<noteq> IP_NULL);
                     s2 \<leftarrow> ip_lock port s1;
                     p \<leftarrow> st_objects s2 port;
                     kassert (ip_active p \<and> ip_receiver_name p = name \<and> ip_receiver p = st_self s);
                     s3 \<leftarrow> ip_reference port s2;
                     s4 \<leftarrow> set_object port (ip_sorights_update (\<lambda>n. n + 1)) s3;
                     s5 \<leftarrow> ip_unlock port s4;
                     Some (port, s5) } } }"

abbreviation make_send_counts :: "ipc_port \<Rightarrow> ipc_port" where
  "make_send_counts p \<equiv> p\<lparr>ip_mscount := ip_mscount p + 1, ip_srights := ip_srights p + 1\<rparr>"

definition ipc_port_make_send_locked ::
  "ipc_port_t \<Rightarrow> ipc_kstate \<Rightarrow> (ipc_port_t \<times> ipc_kstate) option" where
  "ipc_port_make_send_locked port s =
     do { p \<leftarrow> st_objects s port;
          kassert (ip_active p);
          s1 \<leftarrow> set_object port make_send_counts s;
          s2 \<leftarrow> ip_reference port s1;
          s3 \<leftarrow> ip_unlock port s2;
          Some (port, s3) }"

definition ipc_port_make_send :: "ipc_port_t \<Rightarrow> ipc_kstate \<Rightarrow> (ipc_port_t \<times> ipc_kstate) option" where
  "ipc_port_make_send port s =
     (if \<not> IP_VALID port then Some (port, s)
      else do {
        s1 \<leftarrow> ip_lock port s;
        p \<leftarrow> st_objects s1 port;
        if ip_active p
        then do { s2 \<leftarrow> set_object port make_send_counts s1;
                  s3 \<leftarrow> ip_reference port s2;
                  s4 \<leftarrow> ip_unlock port s3;
                  Some (port, s4) }
        else do { s2 \<leftarrow> ip_unlock port s1; Some (IP_DEAD, s2) } })"

definition ipc_port_copy_send :: "ipc_port_t \<Rightarrow> ipc_kstate \<Rightarrow> (ipc_port_t \<times> ipc_kstate) option" where
  "ipc_port_copy_send port s =
     (if \<not> IP_VALID port then Some (port, s)
      else do {
        s1 \<leftarrow> ip_lock port s;
        p \<leftarrow> st_objects s1 port;
        (sright, s2) \<leftarrow>
          (if ip_active p
           then do { kassert (ip_srights p > 0);
                     s2 \<leftarrow> ip_reference port s1;
                     s3 \<leftarrow> set_object port (ip_srights_update (\<lambda>n. n + 1)) s2;
                     Some (port, s3) }
           else Some (IP_DEAD, s1));
        s3 \<leftarrow> ip_unlock port s2;
        Some (sright, s3) })"

definition ipc_port_release_send :: "ipc_kernel \<Rightarrow> ipc_port_t \<Rightarrow> ipc_kstate \<Rightarrow> ipc_kstate option" where
  "ipc_port_release_send k port s =
     do { kassert (IP_VALID port);
          s1 \<leftarrow> ip_lock port s;
          s2 \<leftarrow> ip_release port s1;
          p \<leftarrow> st_objects s2 port;
          if \<not> ip_active p then ip_check_unlock port s2
          else do {
            kassert (ip_srights p > 0);
            s3 \<leftarrow> set_object port (ip_srights_update (\<lambda>n. n - 1)) s2;
            if ip_srights p - 1 = 0 \<and> ip_nsrequest p \<noteq> IP_NULL
            then do { s4 \<leftarrow> set_object port (ip_nsrequest_update (\<lambda>_. IP_NULL)) s3;
                      s5 \<leftarrow> ip_unlock port s4;
                      ipc_notify_no_senders k (ip_nsrequest p) (ip_mscount p) s5 }
            else ip_unlock port s3 } }"

definition ipc_port_make_sonce :: "ipc_port_t \<Rightarrow> ipc_kstate \<Rightarrow> (ipc_port_t \<times> ipc_kstate) option" where
  "ipc_port_make_sonce port s =
     do { kassert (IP_VALID port);
          s1 \<leftarrow> ip_lock port s;
          p \<leftarrow> st_objects s1 port;
          kassert (ip_active p);
          s2 \<leftarrow> set_object port (ip_sorights_update (\<lambda>n. n + 1)) s1;
          s3 \<leftarrow> ip_reference port s2;
          s4 \<leftarrow> ip_unlock port s3;
          Some (port, s4) }"

text \<open>A port as \<open>bzero\<close> leaves it.\<close>

definition blank_port :: ipc_port where
  "blank_port = \<lparr>io_references = 0, io_bits = 0, io_receiver_name = 0, io_lock_data = False,
     ip_data = 0, ip_mscount = 0, ip_srights = 0, ip_sorights = 0, ip_nsrequest = 0,
     ip_pdrequest = 0, ip_dnrequests = 0, ip_pset_count = 0, imq_seqno = 0, ip_premsg = 0\<rparr>"

definition ipc_port_alloc_special ::
  "ipc_kernel \<Rightarrow> ipc_space_t \<Rightarrow> ipc_kstate \<Rightarrow> (ipc_port_t \<times> ipc_kstate) option" where
  "ipc_port_alloc_special k space s =
     (case k_io_alloc k IOT_PORT s of
        None \<Rightarrow> Some (IP_NULL, s)
      | Some port \<Rightarrow>
          do { let p = blank_port\<lparr>io_references := 1, io_bits := io_makebits True IOT_PORT 0\<rparr>;
               s1 \<leftarrow> ipc_port_init k port space 1 (s\<lparr>st_objects := (st_objects s)(port \<mapsto> p)\<rparr>);
               Some (port, s1) })"

definition ipc_port_dealloc_special ::
  "ipc_kernel \<Rightarrow> ipc_port_t \<Rightarrow> ipc_space_t \<Rightarrow> ipc_kstate \<Rightarrow> ipc_kstate option" where
  "ipc_port_dealloc_special k port space s =
     do { s1 \<leftarrow> ip_lock port s;
          p \<leftarrow> st_objects s1 port;
          kassert (ip_active p \<and> ip_receiver p = space);
          s2 \<leftarrow> set_object port (\<lambda>p. p\<lparr>io_receiver_name := MACH_PORT_NULL, ip_data := 0\<rparr>) s1;
          s3 \<leftarrow> ipc_port_set_mscount port 0 s2;
          s4 \<leftarrow> set_object port (imq_seqno_update (\<lambda>_. 0)) s3;
          ipc_port_destroy k port s4 }"

end
