(* ===== verification/Ipc_Pset.thy ===== *)
theory Ipc_Pset
  imports Ipc_Port
begin

text \<open>
  Port sets, \<open>osfmk/ipc/ipc_pset.c\<close>, over the operations of message queues.  The allocation of a
  port set in a space is in \<open>Ipc_Object_Ops\<close>.
\<close>

type_synonym ipc_pset_t = ipc_object_t

definition ipc_pset_member ::
  "ipc_kernel \<Rightarrow> ipc_pset_t \<Rightarrow> ipc_port_t \<Rightarrow> ipc_kstate \<Rightarrow> bool option" where
  "ipc_pset_member k pset port s =
     do { p \<leftarrow> st_objects s port;
          kassert (ip_active p);
          Some (k_mqueue_member k port pset s) }"

definition ipc_pset_add ::
  "ipc_kernel \<Rightarrow> ipc_pset_t \<Rightarrow> ipc_port_t \<Rightarrow> ipc_kstate \<Rightarrow> (kern_return_t \<times> ipc_kstate) option" where
  "ipc_pset_add k pset port s =
     do { ps \<leftarrow> st_objects s pset;
          p \<leftarrow> st_objects s port;
          kassert (io_active ps \<and> ip_active p);
          let (kr, s1) = k_mqueue_add k port pset s;
          s2 \<leftarrow> (if kr = KERN_SUCCESS then set_object port (ip_pset_count_update (\<lambda>n. n + 1)) s1
                 else Some s1);
          Some (kr, s2) }"

definition ipc_pset_remove ::
  "ipc_kernel \<Rightarrow> ipc_pset_t \<Rightarrow> ipc_port_t \<Rightarrow> ipc_kstate \<Rightarrow> (kern_return_t \<times> ipc_kstate) option" where
  "ipc_pset_remove k pset port s =
     do { p \<leftarrow> st_objects s port;
          kassert (ip_active p);
          if ip_pset_count p = 0 then Some (KERN_NOT_IN_SET, s)
          else do {
            let (kr, s1) = k_mqueue_remove k port pset s;
            s2 \<leftarrow> (if kr = KERN_SUCCESS then set_object port (ip_pset_count_update (\<lambda>n. n - 1)) s1
                   else Some s1);
            Some (kr, s2) } }"

definition ipc_pset_destroy :: "ipc_kernel \<Rightarrow> ipc_pset_t \<Rightarrow> ipc_kstate \<Rightarrow> ipc_kstate option" where
  "ipc_pset_destroy k pset s =
     do { ps \<leftarrow> st_objects s pset;
          kassert (io_active ps);
          s1 \<leftarrow> set_object pset (\<lambda>p. p\<lparr>io_bits := io_bits p AND NOT IO_BITS_ACTIVE\<rparr>) s;
          s2 \<leftarrow> io_release pset (k_mqueue_changed k pset (k_mqueue_remove_all k pset s1));
          io_check_unlock pset s2 }"

end
