(* ===== verification/Ipc_Right.thy ===== *)
theory Ipc_Right
  imports Ipc_Pset
begin

text \<open>
  Rights in a space, \<open>osfmk/ipc/ipc_right.c\<close>, first part: finding an entry by its name or by its
  object, dead-name requests, the check for a dead port, and the routines that give up rights.  A
  C routine with a \<open>switch\<close> is one definition per case and one for the \<open>switch\<close>.
\<close>

abbreviation has_bits :: "u32 \<Rightarrow> u32 \<Rightarrow> bool" where
  "has_bits bits m \<equiv> bits AND m \<noteq> 0"

section \<open>Finding an entry\<close>

definition ipc_right_lookup_write ::
  "mach_port_name_t \<Rightarrow> ipc_kstate \<Rightarrow> ((kern_return_t + ipc_entry_t) \<times> ipc_kstate) option" where
  "ipc_right_lookup_write name s =
     do { s1 \<leftarrow> is_write_lock s;
          if \<not> is_active (st_space s1)
          then do { s2 \<leftarrow> is_write_unlock s1; Some (Inl KERN_INVALID_TASK, s2) }
          else do {
            (r, s2) \<leftarrow> ipc_entry_lookup s1 name;
            case r of
              None \<Rightarrow> do { s3 \<leftarrow> is_write_unlock s2; Some (Inl KERN_INVALID_NAME, s3) }
            | Some entry \<Rightarrow> Some (Inr entry, s2) } }"

definition ipc_right_lookup_two_write ::
  "mach_port_name_t \<Rightarrow> mach_port_name_t \<Rightarrow> ipc_kstate
     \<Rightarrow> ((kern_return_t + ipc_entry_t \<times> ipc_entry_t) \<times> ipc_kstate) option" where
  "ipc_right_lookup_two_write name1 name2 s =
     do { s1 \<leftarrow> is_write_lock s;
          if \<not> is_active (st_space s1)
          then do { s2 \<leftarrow> is_write_unlock s1; Some (Inl KERN_INVALID_TASK, s2) }
          else do {
            (r1, s2) \<leftarrow> ipc_entry_lookup s1 name1;
            case r1 of
              None \<Rightarrow> do { s3 \<leftarrow> is_write_unlock s2; Some (Inl KERN_INVALID_NAME, s3) }
            | Some entry1 \<Rightarrow> do {
                (r2, s3) \<leftarrow> ipc_entry_lookup s2 name2;
                case r2 of
                  None \<Rightarrow> do { s4 \<leftarrow> is_write_unlock s3; Some (Inl KERN_INVALID_NAME, s4) }
                | Some entry2 \<Rightarrow> Some (Inr (entry1, entry2), s3) } } }"

definition ipc_right_reverse ::
  "ipc_object_t \<Rightarrow> ipc_kstate
     \<Rightarrow> ((mach_port_name_t \<times> ipc_entry_t) option \<times> ipc_kstate) option" where
  "ipc_right_reverse object s =
     do { kassert (is_active (st_space s));
          s1 \<leftarrow> ip_lock object s;
          p \<leftarrow> st_objects s1 object;
          kassert (io_otype p = IOT_PORT);
          if \<not> ip_active p then do { s2 \<leftarrow> ip_unlock object s1; Some (None, s2) }
          else if ip_receiver p = st_self s then do {
            let name = ip_receiver_name p;
            kassert (name \<noteq> MACH_PORT_NULL);
            (r, s2) \<leftarrow> ipc_entry_lookup s1 name;
            entry \<leftarrow> r;
            e \<leftarrow> entry_at s2 entry;
            kassert (has_bits (ie_bits e) MACH_PORT_TYPE_RECEIVE \<and> ie_object e = object);
            Some (Some (name, entry), s2) }
          else do {
            (r, s2) \<leftarrow> ipc_hash_lookup s1 object;
            case r of
              Some (name, entry) \<Rightarrow>
                do { e \<leftarrow> entry_at s2 entry;
                     kassert (IE_BITS_TYPE (ie_bits e) = MACH_PORT_TYPE_SEND \<and> ie_object e = object);
                     Some (Some (name, entry), s2) }
            | None \<Rightarrow> do { s3 \<leftarrow> ip_unlock object s2; Some (None, s3) } } }"

section \<open>Entries in use and dead ports\<close>

definition ipc_right_dncancel ::
  "ipc_port_t \<Rightarrow> mach_port_name_t \<Rightarrow> ipc_entry_t \<Rightarrow> ipc_kstate \<Rightarrow> (ipc_port_t \<times> ipc_kstate) option" where
  "ipc_right_dncancel port name entry s =
     do { p \<leftarrow> st_objects s port;
          e \<leftarrow> entry_at s entry;
          kassert (ip_active p \<and> port = ie_object e);
          (dnrequest, s1) \<leftarrow> ipc_port_dncancel port name (ie_request e) s;
          s2 \<leftarrow> set_entry entry (ie_request_update (\<lambda>_. 0)) s1;
          Some (dnrequest, s2) }"

definition ipc_right_dncancel_macro ::
  "ipc_port_t \<Rightarrow> mach_port_name_t \<Rightarrow> ipc_entry_t \<Rightarrow> ipc_kstate \<Rightarrow> (ipc_port_t \<times> ipc_kstate) option" where
  "ipc_right_dncancel_macro port name entry s =
     do { e \<leftarrow> entry_at s entry;
          if ie_request e = 0 then Some (IP_NULL, s) else ipc_right_dncancel port name entry s }"

definition ipc_right_inuse :: "ipc_entry_t \<Rightarrow> ipc_kstate \<Rightarrow> (bool \<times> ipc_kstate) option" where
  "ipc_right_inuse entry s =
     do { e \<leftarrow> entry_at s entry;
          if IE_BITS_TYPE (ie_bits e) \<noteq> MACH_PORT_TYPE_NONE
          then do { s1 \<leftarrow> is_write_unlock s; Some (True, s1) }
          else Some (False, s) }"

definition ipc_right_check ::
  "ipc_port_t \<Rightarrow> mach_port_name_t \<Rightarrow> ipc_entry_t \<Rightarrow> ipc_kstate \<Rightarrow> (bool \<times> ipc_kstate) option" where
  "ipc_right_check port name entry s =
     do { e \<leftarrow> entry_at s entry;
          kassert (is_active (st_space s) \<and> port = ie_object e);
          s1 \<leftarrow> ip_lock port s;
          p \<leftarrow> st_objects s1 port;
          if ip_active p then Some (False, s1)
          else do {
            s2 \<leftarrow> ip_unlock port s1;
            let bits = ie_bits e;
            kassert (\<not> has_bits bits MACH_PORT_TYPE_RECEIVE \<and> IE_BITS_UREFS bits > 0);
            kassert (if has_bits bits MACH_PORT_TYPE_SEND
                     then IE_BITS_TYPE bits = MACH_PORT_TYPE_SEND
                     else IE_BITS_TYPE bits = MACH_PORT_TYPE_SEND_ONCE \<and> IE_BITS_UREFS bits = 1);
            s3 \<leftarrow> ipc_port_release port s2;
            s4 \<leftarrow> (if has_bits bits MACH_PORT_TYPE_SEND \<and> \<not> has_bits bits MACH_PORT_TYPE_RECEIVE
                   then ipc_hash_delete s3 port name entry else Some s3);
            let bits1 = bits AND NOT IE_BITS_TYPE_MASK OR MACH_PORT_TYPE_DEAD_NAME;
            kassert (ie_request e \<noteq> 0 \<longrightarrow> IE_BITS_UREFS bits1 < MACH_PORT_UREFS_MAX);
            let bits2 = (if ie_request e \<noteq> 0 then bits1 + 1 else bits1);
            s5 \<leftarrow> set_entry entry (\<lambda>e. e\<lparr>ie_request := 0, ie_bits := bits2, ie_object := IO_NULL\<rparr>) s4;
            Some (True, s5) } }"

section \<open>Dead-name requests on a name\<close>

text \<open>The end of the loop of \<open>ipc_right_dnrequest\<close>, for an entry whose port is dead or missing.\<close>

definition dnrequest_dead ::
  "ipc_kernel \<Rightarrow> mach_port_name_t \<Rightarrow> bool \<Rightarrow> ipc_port_t \<Rightarrow> ipc_entry_t \<Rightarrow> u32 \<Rightarrow> ipc_kstate
     \<Rightarrow> ((kern_return_t + ipc_port_t) \<times> ipc_kstate) option" where
  "dnrequest_dead k name immediate notify entry bits s =
     (if has_bits bits MACH_PORT_TYPE_DEAD_NAME \<and> immediate \<and> notify \<noteq> IP_NULL
      then do {
        let urefs = IE_BITS_UREFS bits;
        kassert (IE_BITS_TYPE bits = MACH_PORT_TYPE_DEAD_NAME \<and> urefs > 0);
        if MACH_PORT_UREFS_OVERFLOW urefs 1
        then do { s1 \<leftarrow> is_write_unlock s; Some (Inl KERN_UREFS_OVERFLOW, s1) }
        else do { s1 \<leftarrow> set_entry entry (ie_bits_update (\<lambda>b. b + 1)) s;
                  s2 \<leftarrow> is_write_unlock s1;
                  s3 \<leftarrow> ipc_notify_dead_name k notify name s2;
                  Some (Inr IP_NULL, s3) } }
      else do {
        s1 \<leftarrow> is_write_unlock s;
        Some (Inl (if has_bits bits MACH_PORT_TYPE_PORT_OR_DEAD then KERN_INVALID_ARGUMENT
                   else KERN_INVALID_RIGHT), s1) })"

partial_function (option) ipc_right_dnrequest ::
  "ipc_kernel \<Rightarrow> mach_port_name_t \<Rightarrow> bool \<Rightarrow> ipc_port_t \<Rightarrow> ipc_kstate
     \<Rightarrow> ((kern_return_t + ipc_port_t) \<times> ipc_kstate) option" where
  "ipc_right_dnrequest k name immediate notify s =
     do { (r, s1) \<leftarrow> ipc_right_lookup_write name s;
          case r of
            Inl kr \<Rightarrow> Some (Inl kr, s1)
          | Inr entry \<Rightarrow> do {
              e \<leftarrow> entry_at s1 entry;
              if has_bits (ie_bits e) MACH_PORT_TYPE_PORT_RIGHTS
              then do {
                let port = ie_object e;
                kassert (port \<noteq> IP_NULL);
                (dead, s2) \<leftarrow> ipc_right_check port name entry s1;
                if \<not> dead
                then do {
                  (previous, s3) \<leftarrow> ipc_right_dncancel_macro port name entry s2;
                  if notify = IP_NULL
                  then do { s4 \<leftarrow> ip_unlock port s3;
                            s5 \<leftarrow> is_write_unlock s4;
                            Some (Inr previous, s5) }
                  else do {
                    (r, s4) \<leftarrow> ipc_port_dnrequest port name notify s3;
                    case r of
                      Inl _ \<Rightarrow> do {
                        kassert (previous = IP_NULL);
                        s5 \<leftarrow> is_write_unlock s4;
                        (kr, s6) \<leftarrow> ipc_port_dngrow k port ITS_SIZE_NONE s5;
                        if kr \<noteq> KERN_SUCCESS then Some (Inl kr, s6)
                        else ipc_right_dnrequest k name immediate notify s6 }
                    | Inr request \<Rightarrow> do {
                        kassert (request \<noteq> 0);
                        s5 \<leftarrow> ip_unlock port s4;
                        s6 \<leftarrow> set_entry entry (ie_request_update (\<lambda>_. request)) s5;
                        s7 \<leftarrow> is_write_unlock s6;
                        Some (Inr previous, s7) } } }
                else do {
                  e2 \<leftarrow> entry_at s2 entry;
                  kassert (has_bits (ie_bits e2) MACH_PORT_TYPE_DEAD_NAME);
                  dnrequest_dead k name immediate notify entry (ie_bits e2) s2 } }
              else dnrequest_dead k name immediate notify entry (ie_bits e) s1 } }"

section \<open>Giving up the rights of an entry\<close>

text \<open>
  The send right of an entry goes away.  If it was the last one, the no-senders request of the port
  is taken, with the make-send count to report.
\<close>

definition drop_send_right ::
  "ipc_port_t \<Rightarrow> ipc_kstate \<Rightarrow> (ipc_port_t \<times> u32 \<times> ipc_kstate) option" where
  "drop_send_right port s =
     do { p \<leftarrow> st_objects s port;
          kassert (ip_srights p > 0);
          s1 \<leftarrow> set_object port (ip_srights_update (\<lambda>n. n - 1)) s;
          if ip_srights p - 1 = 0 \<and> ip_nsrequest p \<noteq> IP_NULL
          then do { s2 \<leftarrow> set_object port (ip_nsrequest_update (\<lambda>_. IP_NULL)) s1;
                    Some (ip_nsrequest p, ip_mscount p, s2) }
          else Some (IP_NULL, 0, s1) }"

definition notify_requests ::
  "ipc_kernel \<Rightarrow> ipc_port_t \<Rightarrow> u32 \<Rightarrow> ipc_port_t \<Rightarrow> mach_port_name_t \<Rightarrow> ipc_kstate \<Rightarrow> ipc_kstate option" where
  "notify_requests k nsrequest mscount dnrequest name s =
     do { s1 \<leftarrow> (if nsrequest \<noteq> IP_NULL then ipc_notify_no_senders k nsrequest mscount s else Some s);
          if dnrequest \<noteq> IP_NULL then ipc_notify_port_deleted k dnrequest name s1 else Some s1 }"

text \<open>The common end of \<open>ipc_right_clean\<close> and \<open>ipc_right_destroy\<close> for a live port, which is locked.\<close>

definition release_port_right ::
  "ipc_kernel \<Rightarrow> u32 \<Rightarrow> ipc_port_t \<Rightarrow> ipc_port_t \<Rightarrow> mach_port_name_t \<Rightarrow> ipc_kstate \<Rightarrow> ipc_kstate option" where
  "release_port_right k type port dnrequest name s =
     do { (nsrequest, mscount, s1) \<leftarrow>
            (if has_bits type MACH_PORT_TYPE_SEND then drop_send_right port s
             else Some (IP_NULL, 0, s));
          p \<leftarrow> st_objects s1 port;
          s2 \<leftarrow> (if has_bits type MACH_PORT_TYPE_RECEIVE
                 then do { kassert (ip_receiver p = st_self s);
                           s2 \<leftarrow> ipc_port_clear_receiver k port s1;
                           ipc_port_destroy k port s2 }
                 else if has_bits type MACH_PORT_TYPE_SEND_ONCE
                 then do { kassert (ip_sorights p > 0);
                           s2 \<leftarrow> ip_unlock port s1;
                           ipc_notify_send_once k port s2 }
                 else do { kassert (ip_receiver p \<noteq> st_self s);
                           s2 \<leftarrow> ip_release port s1;
                           ip_unlock port s2 });
          notify_requests k nsrequest mscount dnrequest name s2 }"

abbreviation port_right_type :: "u32 \<Rightarrow> bool" where
  "port_right_type type \<equiv>
     type = MACH_PORT_TYPE_SEND \<or> type = MACH_PORT_TYPE_RECEIVE \<or>
     type = MACH_PORT_TYPE_SEND_RECEIVE \<or> type = MACH_PORT_TYPE_SEND_ONCE"

definition ipc_right_clean ::
  "ipc_kernel \<Rightarrow> mach_port_name_t \<Rightarrow> ipc_entry_t \<Rightarrow> ipc_kstate \<Rightarrow> ipc_kstate option" where
  "ipc_right_clean k name entry s =
     do { e \<leftarrow> entry_at s entry;
          let type = IE_BITS_TYPE (ie_bits e);
          kassert (\<not> is_active (st_space s));
          if type = MACH_PORT_TYPE_DEAD_NAME
          then do { kassert (ie_request e = 0 \<and> ie_object e = IO_NULL); Some s }
          else if type = MACH_PORT_TYPE_PORT_SET
          then do { let pset = ie_object e;
                    kassert (ie_request e = 0 \<and> pset \<noteq> IO_NULL);
                    s1 \<leftarrow> io_lock pset s;
                    ipc_pset_destroy k pset s1 }
          else if port_right_type type
          then do {
            let port = ie_object e;
            kassert (port \<noteq> IP_NULL);
            s1 \<leftarrow> ip_lock port s;
            p \<leftarrow> st_objects s1 port;
            if \<not> ip_active p
            then do { s2 \<leftarrow> ip_release port s1; ip_check_unlock port s2 }
            else do {
              (dnrequest, s2) \<leftarrow> ipc_right_dncancel_macro port name entry s1;
              kassert (has_bits type MACH_PORT_TYPE_RECEIVE \<longrightarrow> ip_receiver_name p = name);
              release_port_right k type port dnrequest name s2 } }
          else None }"

definition ipc_right_destroy ::
  "ipc_kernel \<Rightarrow> mach_port_name_t \<Rightarrow> ipc_entry_t \<Rightarrow> ipc_kstate \<Rightarrow> ipc_kstate option" where
  "ipc_right_destroy k name entry s =
     do { e \<leftarrow> entry_at s entry;
          let type = IE_BITS_TYPE (ie_bits e);
          s1 \<leftarrow> set_entry entry (ie_bits_update (\<lambda>b. b AND NOT IE_BITS_TYPE_MASK)) s;
          kassert (is_active (st_space s1));
          if type = MACH_PORT_TYPE_DEAD_NAME
          then do { kassert (ie_request e = 0 \<and> ie_object e = IO_NULL);
                    ipc_entry_dealloc s1 name entry }
          else if type = MACH_PORT_TYPE_PORT_SET
          then do { let pset = ie_object e;
                    kassert (ie_request e = 0 \<and> pset \<noteq> IO_NULL);
                    s2 \<leftarrow> set_entry entry (ie_object_update (\<lambda>_. IO_NULL)) s1;
                    s3 \<leftarrow> ipc_entry_dealloc s2 name entry;
                    s4 \<leftarrow> io_lock pset s3;
                    ipc_pset_destroy k pset s4 }
          else if port_right_type type
          then do {
            let port = ie_object e;
            kassert (port \<noteq> IP_NULL);
            s2 \<leftarrow> (if type = MACH_PORT_TYPE_SEND then ipc_hash_delete s1 port name entry else Some s1);
            s3 \<leftarrow> ip_lock port s2;
            p \<leftarrow> st_objects s3 port;
            if \<not> ip_active p
            then do { kassert (\<not> has_bits type MACH_PORT_TYPE_RECEIVE);
                      s4 \<leftarrow> ip_release port s3;
                      s5 \<leftarrow> ip_check_unlock port s4;
                      s6 \<leftarrow> set_entry entry (\<lambda>e. e\<lparr>ie_request := 0, ie_object := IO_NULL\<rparr>) s5;
                      ipc_entry_dealloc s6 name entry }
            else do {
              (dnrequest, s4) \<leftarrow> ipc_right_dncancel_macro port name entry s3;
              s5 \<leftarrow> set_entry entry (ie_object_update (\<lambda>_. IO_NULL)) s4;
              s6 \<leftarrow> ipc_entry_dealloc s5 name entry;
              release_port_right k type port dnrequest name s6 } }
          else None }"

section \<open>Releasing one user reference\<close>

text \<open>Writing off an entry whose object is gone from it.\<close>

definition clear_entry ::
  "mach_port_name_t \<Rightarrow> ipc_entry_t \<Rightarrow> ipc_kstate \<Rightarrow> ipc_kstate option" where
  "clear_entry name entry s =
     do { s1 \<leftarrow> set_entry entry (ie_object_update (\<lambda>_. IO_NULL)) s; ipc_entry_dealloc s1 name entry }"

definition dealloc_dead_name ::
  "mach_port_name_t \<Rightarrow> ipc_entry_t \<Rightarrow> ipc_kstate \<Rightarrow> (kern_return_t \<times> ipc_kstate) option" where
  "dealloc_dead_name name entry s =
     do { e \<leftarrow> entry_at s entry;
          let bits = ie_bits e;
          kassert (IE_BITS_UREFS bits > 0 \<and> ie_request e = 0 \<and> ie_object e = IO_NULL);
          s1 \<leftarrow> (if IE_BITS_UREFS bits = 1 then ipc_entry_dealloc s name entry
                 else set_entry entry (ie_bits_update (\<lambda>_. bits - 1)) s);
          s2 \<leftarrow> is_write_unlock s1;
          Some (KERN_SUCCESS, s2) }"

definition dealloc_send_once ::
  "ipc_kernel \<Rightarrow> mach_port_name_t \<Rightarrow> ipc_entry_t \<Rightarrow> ipc_kstate \<Rightarrow> (kern_return_t \<times> ipc_kstate) option" where
  "dealloc_send_once k name entry s =
     do { e \<leftarrow> entry_at s entry;
          kassert (IE_BITS_UREFS (ie_bits e) = 1);
          let port = ie_object e;
          kassert (port \<noteq> IP_NULL);
          (dead, s1) \<leftarrow> ipc_right_check port name entry s;
          if dead
          then do { e1 \<leftarrow> entry_at s1 entry;
                    kassert (IE_BITS_TYPE (ie_bits e1) = MACH_PORT_TYPE_DEAD_NAME);
                    dealloc_dead_name name entry s1 }
          else do {
            p \<leftarrow> st_objects s1 port;
            kassert (ip_sorights p > 0);
            (dnrequest, s2) \<leftarrow> ipc_right_dncancel_macro port name entry s1;
            s3 \<leftarrow> ip_unlock port s2;
            s4 \<leftarrow> clear_entry name entry s3;
            s5 \<leftarrow> is_write_unlock s4;
            s6 \<leftarrow> ipc_notify_send_once k port s5;
            s7 \<leftarrow> notify_requests k IP_NULL 0 dnrequest name s6;
            Some (KERN_SUCCESS, s7) } }"

text \<open>
  A send right goes away with its last user reference: the part of \<open>ipc_right_dealloc\<close> and
  \<open>ipc_right_delta\<close> for an entry with a send right only.
\<close>

definition give_up_send ::
  "ipc_port_t \<Rightarrow> mach_port_name_t \<Rightarrow> ipc_entry_t \<Rightarrow> ipc_kstate
     \<Rightarrow> (ipc_port_t \<times> u32 \<times> ipc_port_t \<times> ipc_kstate) option" where
  "give_up_send port name entry s =
     do { (nsrequest, mscount, s1) \<leftarrow> drop_send_right port s;
          (dnrequest, s2) \<leftarrow> ipc_right_dncancel_macro port name entry s1;
          s3 \<leftarrow> ipc_hash_delete s2 port name entry;
          s4 \<leftarrow> ip_release port s3;
          s5 \<leftarrow> clear_entry name entry s4;
          Some (nsrequest, mscount, dnrequest, s5) }"

text \<open>The end of the cases that release user references of a send right: unlock, then notify.\<close>

definition finish_send ::
  "ipc_kernel \<Rightarrow> ipc_port_t \<Rightarrow> mach_port_name_t \<Rightarrow> ipc_port_t \<times> u32 \<times> ipc_port_t \<times> ipc_kstate
     \<Rightarrow> (kern_return_t \<times> ipc_kstate) option" where
  "finish_send k port name r =
     (case r of (nsrequest, mscount, dnrequest, s) \<Rightarrow>
        do { s1 \<leftarrow> ip_unlock port s;
             s2 \<leftarrow> is_write_unlock s1;
             s3 \<leftarrow> notify_requests k nsrequest mscount dnrequest name s2;
             Some (KERN_SUCCESS, s3) })"

definition dealloc_send ::
  "ipc_kernel \<Rightarrow> mach_port_name_t \<Rightarrow> ipc_entry_t \<Rightarrow> ipc_kstate \<Rightarrow> (kern_return_t \<times> ipc_kstate) option" where
  "dealloc_send k name entry s =
     do { e \<leftarrow> entry_at s entry;
          let bits = ie_bits e;
          kassert (IE_BITS_UREFS bits > 0);
          let port = ie_object e;
          kassert (port \<noteq> IP_NULL);
          (dead, s1) \<leftarrow> ipc_right_check port name entry s;
          if dead
          then do { e1 \<leftarrow> entry_at s1 entry;
                    kassert (IE_BITS_TYPE (ie_bits e1) = MACH_PORT_TYPE_DEAD_NAME);
                    dealloc_dead_name name entry s1 }
          else do {
            p \<leftarrow> st_objects s1 port;
            kassert (ip_srights p > 0);
            r \<leftarrow> (if IE_BITS_UREFS bits = 1 then give_up_send port name entry s1
                  else do { s2 \<leftarrow> set_entry entry (ie_bits_update (\<lambda>_. bits - 1)) s1;
                            Some (IP_NULL, 0, IP_NULL, s2) });
            finish_send k port name r } }"

definition dealloc_send_receive ::
  "ipc_kernel \<Rightarrow> mach_port_name_t \<Rightarrow> ipc_entry_t \<Rightarrow> ipc_kstate \<Rightarrow> (kern_return_t \<times> ipc_kstate) option" where
  "dealloc_send_receive k name entry s =
     do { e \<leftarrow> entry_at s entry;
          let bits = ie_bits e;
          kassert (IE_BITS_UREFS bits > 0);
          let port = ie_object e;
          kassert (port \<noteq> IP_NULL);
          s1 \<leftarrow> ip_lock port s;
          p \<leftarrow> st_objects s1 port;
          kassert (ip_active p \<and> ip_receiver_name p = name \<and> ip_receiver p = st_self s \<and> ip_srights p > 0);
          r \<leftarrow> (if IE_BITS_UREFS bits = 1
                then do { (nsrequest, mscount, s2) \<leftarrow> drop_send_right port s1;
                          s3 \<leftarrow> set_entry entry (ie_bits_update
                                  (\<lambda>_. bits AND NOT (IE_BITS_UREFS_MASK OR MACH_PORT_TYPE_SEND))) s2;
                          Some (nsrequest, mscount, IP_NULL, s3) }
                else do { s2 \<leftarrow> set_entry entry (ie_bits_update (\<lambda>_. bits - 1)) s1;
                          Some (IP_NULL, 0, IP_NULL, s2) });
          finish_send k port name r }"

definition ipc_right_dealloc ::
  "ipc_kernel \<Rightarrow> mach_port_name_t \<Rightarrow> ipc_entry_t \<Rightarrow> ipc_kstate \<Rightarrow> (kern_return_t \<times> ipc_kstate) option" where
  "ipc_right_dealloc k name entry s =
     do { e \<leftarrow> entry_at s entry;
          let type = IE_BITS_TYPE (ie_bits e);
          kassert (is_active (st_space s));
          if type = MACH_PORT_TYPE_DEAD_NAME then dealloc_dead_name name entry s
          else if type = MACH_PORT_TYPE_SEND_ONCE then dealloc_send_once k name entry s
          else if type = MACH_PORT_TYPE_SEND then dealloc_send k name entry s
          else if type = MACH_PORT_TYPE_SEND_RECEIVE then dealloc_send_receive k name entry s
          else do { s1 \<leftarrow> is_write_unlock s; Some (KERN_INVALID_RIGHT, s1) } }"

end
