(* ===== verification/Ipc_Right_Delta.thy ===== *)
theory Ipc_Right_Delta
  imports Ipc_Right
begin

text \<open>
  Rights in a space, \<open>osfmk/ipc/ipc_right.c\<close>, second part: \<open>ipc_right_delta\<close>, which changes the count
  of user references of a right by a signed amount, one definition per right, and
  \<open>ipc_right_info\<close>.
\<close>

text \<open>The labels \<open>success\<close>, \<open>invalid_right\<close>, \<open>invalid_value\<close> and \<open>urefs_overflow\<close>.\<close>

definition delta_return :: "kern_return_t \<Rightarrow> ipc_kstate \<Rightarrow> (kern_return_t \<times> ipc_kstate) option" where
  "delta_return kr s = do { s1 \<leftarrow> is_write_unlock s; Some (kr, s1) }"

definition delta_port_set ::
  "ipc_kernel \<Rightarrow> mach_port_name_t \<Rightarrow> ipc_entry_t \<Rightarrow> u32 \<Rightarrow> ipc_kstate \<Rightarrow> (kern_return_t \<times> ipc_kstate) option" where
  "delta_port_set k name entry delta s =
     do { e \<leftarrow> entry_at s entry;
          let bits = ie_bits e;
          if \<not> has_bits bits MACH_PORT_TYPE_PORT_SET then delta_return KERN_INVALID_RIGHT s
          else do {
            kassert (IE_BITS_TYPE bits = MACH_PORT_TYPE_PORT_SET \<and> IE_BITS_UREFS bits = 0 \<and> ie_request e = 0);
            if delta = 0 then delta_return KERN_SUCCESS s
            else if delta \<noteq> - 1 then delta_return KERN_INVALID_VALUE s
            else do {
              let pset = ie_object e;
              kassert (pset \<noteq> IO_NULL);
              s1 \<leftarrow> clear_entry name entry s;
              s2 \<leftarrow> io_lock pset s1;
              s3 \<leftarrow> is_write_unlock s2;
              s4 \<leftarrow> ipc_pset_destroy k pset s3;
              Some (KERN_SUCCESS, s4) } } }"

definition delta_receive ::
  "ipc_kernel \<Rightarrow> mach_port_name_t \<Rightarrow> ipc_entry_t \<Rightarrow> u32 \<Rightarrow> ipc_kstate \<Rightarrow> (kern_return_t \<times> ipc_kstate) option" where
  "delta_receive k name entry delta s =
     do { e \<leftarrow> entry_at s entry;
          let bits = ie_bits e;
          if \<not> has_bits bits MACH_PORT_TYPE_RECEIVE then delta_return KERN_INVALID_RIGHT s
          else if delta = 0 then delta_return KERN_SUCCESS s
          else if delta \<noteq> - 1 then delta_return KERN_INVALID_VALUE s
          else do {
            let port = ie_object e;
            kassert (port \<noteq> IP_NULL);
            s1 \<leftarrow> ip_lock port s;
            p \<leftarrow> st_objects s1 port;
            kassert (ip_active p \<and> ip_receiver_name p = name \<and> ip_receiver p = st_self s);
            (dnrequest, s2) \<leftarrow>
              (if has_bits bits MACH_PORT_TYPE_SEND
               then do {
                 kassert (IE_BITS_TYPE bits = MACH_PORT_TYPE_SEND_RECEIVE \<and> IE_BITS_UREFS bits > 0 \<and>
                          IE_BITS_UREFS bits < MACH_PORT_UREFS_MAX \<and> ip_srights p > 0);
                 let bits1 = bits AND NOT IE_BITS_TYPE_MASK OR MACH_PORT_TYPE_DEAD_NAME;
                 let bits2 = (if ie_request e \<noteq> 0 then bits1 + 1 else bits1);
                 s2 \<leftarrow> set_entry entry (\<lambda>e. e\<lparr>ie_request := 0, ie_bits := bits2, ie_object := IO_NULL\<rparr>) s1;
                 Some (IP_NULL, s2) }
               else do {
                 kassert (IE_BITS_TYPE bits = MACH_PORT_TYPE_RECEIVE \<and> IE_BITS_UREFS bits = 0);
                 (dnrequest, s2) \<leftarrow> ipc_right_dncancel_macro port name entry s1;
                 s3 \<leftarrow> clear_entry name entry s2;
                 Some (dnrequest, s3) });
            s3 \<leftarrow> is_write_unlock s2;
            s4 \<leftarrow> ipc_port_clear_receiver k port s3;
            s5 \<leftarrow> ipc_port_destroy k port s4;
            s6 \<leftarrow> notify_requests k IP_NULL 0 dnrequest name s5;
            Some (KERN_SUCCESS, s6) } }"

definition delta_send_once ::
  "ipc_kernel \<Rightarrow> mach_port_name_t \<Rightarrow> ipc_entry_t \<Rightarrow> u32 \<Rightarrow> ipc_kstate \<Rightarrow> (kern_return_t \<times> ipc_kstate) option" where
  "delta_send_once k name entry delta s =
     do { e \<leftarrow> entry_at s entry;
          let bits = ie_bits e;
          if \<not> has_bits bits MACH_PORT_TYPE_SEND_ONCE then delta_return KERN_INVALID_RIGHT s
          else do {
            kassert (IE_BITS_TYPE bits = MACH_PORT_TYPE_SEND_ONCE \<and> IE_BITS_UREFS bits = 1);
            let port = ie_object e;
            kassert (port \<noteq> IP_NULL);
            (dead, s1) \<leftarrow> ipc_right_check port name entry s;
            if dead
            then do { e1 \<leftarrow> entry_at s1 entry;
                      kassert (\<not> has_bits (ie_bits e1) MACH_PORT_TYPE_SEND_ONCE);
                      delta_return KERN_INVALID_RIGHT s1 }
            else do {
              p \<leftarrow> st_objects s1 port;
              kassert (ip_sorights p > 0);
              if sint delta > 0 \<or> sint delta < - 1
              then do { s2 \<leftarrow> ip_unlock port s1; delta_return KERN_INVALID_VALUE s2 }
              else if delta = 0
              then do { s2 \<leftarrow> ip_unlock port s1; delta_return KERN_SUCCESS s2 }
              else do {
                (dnrequest, s2) \<leftarrow> ipc_right_dncancel_macro port name entry s1;
                s3 \<leftarrow> ip_unlock port s2;
                s4 \<leftarrow> clear_entry name entry s3;
                s5 \<leftarrow> is_write_unlock s4;
                s6 \<leftarrow> ipc_notify_send_once k port s5;
                s7 \<leftarrow> notify_requests k IP_NULL 0 dnrequest name s6;
                Some (KERN_SUCCESS, s7) } } } }"

text \<open>The change of the count of a dead name, after the check of the port.\<close>

definition delta_dead_urefs ::
  "mach_port_name_t \<Rightarrow> ipc_entry_t \<Rightarrow> u32 \<Rightarrow> ipc_kstate \<Rightarrow> (kern_return_t \<times> ipc_kstate) option" where
  "delta_dead_urefs name entry delta s =
     do { e \<leftarrow> entry_at s entry;
          let bits = ie_bits e;
          kassert (IE_BITS_TYPE bits = MACH_PORT_TYPE_DEAD_NAME \<and> IE_BITS_UREFS bits > 0 \<and>
                   ie_object e = IO_NULL \<and> ie_request e = 0);
          let urefs = IE_BITS_UREFS bits;
          if MACH_PORT_UREFS_UNDERFLOW urefs delta then delta_return KERN_INVALID_VALUE s
          else if MACH_PORT_UREFS_OVERFLOW urefs delta then delta_return KERN_UREFS_OVERFLOW s
          else do {
            s1 \<leftarrow> (if urefs + delta = 0 then ipc_entry_dealloc s name entry
                   else set_entry entry (ie_bits_update (\<lambda>_. bits + delta)) s);
            delta_return KERN_SUCCESS s1 } }"

definition delta_dead_name ::
  "mach_port_name_t \<Rightarrow> ipc_entry_t \<Rightarrow> u32 \<Rightarrow> ipc_kstate \<Rightarrow> (kern_return_t \<times> ipc_kstate) option" where
  "delta_dead_name name entry delta s =
     do { e \<leftarrow> entry_at s entry;
          let bits = ie_bits e;
          if has_bits bits MACH_PORT_TYPE_SEND_RIGHTS
          then do {
            let port = ie_object e;
            kassert (port \<noteq> IP_NULL);
            (dead, s1) \<leftarrow> ipc_right_check port name entry s;
            if \<not> dead then do { s2 \<leftarrow> ip_unlock port s1; delta_return KERN_INVALID_RIGHT s2 }
            else delta_dead_urefs name entry delta s1 }
          else if \<not> has_bits bits MACH_PORT_TYPE_DEAD_NAME then delta_return KERN_INVALID_RIGHT s
          else delta_dead_urefs name entry delta s }"

definition delta_send ::
  "ipc_kernel \<Rightarrow> mach_port_name_t \<Rightarrow> ipc_entry_t \<Rightarrow> u32 \<Rightarrow> ipc_kstate \<Rightarrow> (kern_return_t \<times> ipc_kstate) option" where
  "delta_send k name entry delta s =
     do { e \<leftarrow> entry_at s entry;
          let bits = ie_bits e;
          if \<not> has_bits bits MACH_PORT_TYPE_SEND then delta_return KERN_INVALID_RIGHT s
          else do {
            let port = ie_object e;
            kassert (port \<noteq> IP_NULL);
            (dead, s1) \<leftarrow> ipc_right_check port name entry s;
            if dead
            then do { e1 \<leftarrow> entry_at s1 entry;
                      kassert (\<not> has_bits (ie_bits e1) MACH_PORT_TYPE_SEND);
                      delta_return KERN_INVALID_RIGHT s1 }
            else do {
              p \<leftarrow> st_objects s1 port;
              kassert (ip_srights p > 0);
              let urefs = IE_BITS_UREFS bits;
              if MACH_PORT_UREFS_UNDERFLOW urefs delta
              then do { s2 \<leftarrow> ip_unlock port s1; delta_return KERN_INVALID_VALUE s2 }
              else if MACH_PORT_UREFS_OVERFLOW (urefs + 1) delta
              then do { s2 \<leftarrow> ip_unlock port s1; delta_return KERN_UREFS_OVERFLOW s2 }
              else do {
                r \<leftarrow> (if urefs + delta = 0
                      then if has_bits bits MACH_PORT_TYPE_RECEIVE
                           then do {
                             (nsrequest, mscount, s2) \<leftarrow> drop_send_right port s1;
                             kassert (ip_receiver_name p = name \<and> ip_receiver p = st_self s \<and>
                                      IE_BITS_TYPE bits = MACH_PORT_TYPE_SEND_RECEIVE);
                             s3 \<leftarrow> set_entry entry (ie_bits_update
                                     (\<lambda>_. bits AND NOT (IE_BITS_UREFS_MASK OR MACH_PORT_TYPE_SEND))) s2;
                             Some (nsrequest, mscount, IP_NULL, s3) }
                           else do {
                             kassert (IE_BITS_TYPE bits = MACH_PORT_TYPE_SEND);
                             give_up_send port name entry s1 }
                      else do { s2 \<leftarrow> set_entry entry (ie_bits_update (\<lambda>_. bits + delta)) s1;
                                Some (IP_NULL, 0, IP_NULL, s2) });
                finish_send k port name r } } } }"

definition ipc_right_delta ::
  "ipc_kernel \<Rightarrow> mach_port_name_t \<Rightarrow> ipc_entry_t \<Rightarrow> u32 \<Rightarrow> u32 \<Rightarrow> ipc_kstate
     \<Rightarrow> (kern_return_t \<times> ipc_kstate) option" where
  "ipc_right_delta k name entry rt delta s =
     do { kassert (is_active (st_space s) \<and> rt < MACH_PORT_RIGHT_NUMBER);
          if rt = MACH_PORT_RIGHT_PORT_SET then delta_port_set k name entry delta s
          else if rt = MACH_PORT_RIGHT_RECEIVE then delta_receive k name entry delta s
          else if rt = MACH_PORT_RIGHT_SEND_ONCE then delta_send_once k name entry delta s
          else if rt = MACH_PORT_RIGHT_DEAD_NAME then delta_dead_name name entry delta s
          else if rt = MACH_PORT_RIGHT_SEND then delta_send k name entry delta s
          else None }"

definition ipc_right_info ::
  "mach_port_name_t \<Rightarrow> ipc_entry_t \<Rightarrow> ipc_kstate \<Rightarrow> ((u32 \<times> u32) \<times> ipc_kstate) option" where
  "ipc_right_info name entry s =
     do { e \<leftarrow> entry_at s entry;
          s1 \<leftarrow> (if has_bits (ie_bits e) MACH_PORT_TYPE_SEND_RIGHTS
                 then do { (dead, s1) \<leftarrow> ipc_right_check (ie_object e) name entry s;
                           if dead
                           then do { e1 \<leftarrow> entry_at s1 entry;
                                     kassert (IE_BITS_TYPE (ie_bits e1) = MACH_PORT_TYPE_DEAD_NAME);
                                     Some s1 }
                           else ip_unlock (ie_object e) s1 }
                 else Some s);
          e1 \<leftarrow> entry_at s1 entry;
          let type = IE_BITS_TYPE (ie_bits e1);
          Some ((if ie_request e1 \<noteq> 0 then type OR MACH_PORT_TYPE_DNREQUEST else type,
                 IE_BITS_UREFS (ie_bits e1)), s1) }"

end
