(* ===== verification/Ipc_Copy.thy ===== *)
theory Ipc_Copy
  imports Ipc_Right_Delta
begin

text \<open>
  Rights in a space, \<open>osfmk/ipc/ipc_right.c\<close>, third part: capabilities move from a space into a
  message (\<open>ipc_right_copyin\<close> and its relatives), from a message into a space
  (\<open>ipc_right_copyout\<close>), and from one name to another (\<open>ipc_right_rename\<close>).
\<close>

section \<open>Copyin\<close>

definition ipc_right_copyin_check ::
  "ipc_entry_t \<Rightarrow> mach_msg_type_name_t \<Rightarrow> ipc_kstate \<Rightarrow> (bool \<times> ipc_kstate) option" where
  "ipc_right_copyin_check entry msgt_name s =
     do { e \<leftarrow> entry_at s entry;
          let bits = ie_bits e;
          kassert (is_active (st_space s));
          if msgt_name = MACH_MSG_TYPE_MAKE_SEND \<or> msgt_name = MACH_MSG_TYPE_MAKE_SEND_ONCE \<or>
             msgt_name = MACH_MSG_TYPE_MOVE_RECEIVE
          then Some (has_bits bits MACH_PORT_TYPE_RECEIVE, s)
          else if msgt_name = MACH_MSG_TYPE_COPY_SEND \<or> msgt_name = MACH_MSG_TYPE_MOVE_SEND \<or>
                  msgt_name = MACH_MSG_TYPE_MOVE_SEND_ONCE
          then if has_bits bits MACH_PORT_TYPE_DEAD_NAME then Some (True, s)
               else if \<not> has_bits bits MACH_PORT_TYPE_SEND_RIGHTS then Some (False, s)
               else do {
                 let port = ie_object e;
                 kassert (port \<noteq> IP_NULL);
                 s1 \<leftarrow> ip_lock port s;
                 p \<leftarrow> st_objects s1 port;
                 s2 \<leftarrow> ip_unlock port s1;
                 Some (if \<not> ip_active p then True
                       else if msgt_name = MACH_MSG_TYPE_MOVE_SEND_ONCE
                       then has_bits bits MACH_PORT_TYPE_SEND_ONCE
                       else has_bits bits MACH_PORT_TYPE_SEND, s2) }
          else None }"

text \<open>The result of a copyin: an error, or the object and the send-once right for a notification.\<close>

type_synonym copyin_result = "(kern_return_t + ipc_object_t \<times> ipc_port_t) \<times> ipc_kstate"

definition copyin_make_send ::
  "mach_port_name_t \<Rightarrow> ipc_entry_t \<Rightarrow> ipc_kstate \<Rightarrow> copyin_result option" where
  "copyin_make_send name entry s =
     do { e \<leftarrow> entry_at s entry;
          if \<not> has_bits (ie_bits e) MACH_PORT_TYPE_RECEIVE then Some (Inl KERN_INVALID_RIGHT, s)
          else do {
            let port = ie_object e;
            kassert (port \<noteq> IP_NULL);
            s1 \<leftarrow> ip_lock port s;
            p \<leftarrow> st_objects s1 port;
            kassert (ip_active p \<and> ip_receiver_name p = name \<and> ip_receiver p = st_self s);
            s2 \<leftarrow> set_object port make_send_counts s1;
            s3 \<leftarrow> ip_reference port s2;
            s4 \<leftarrow> ip_unlock port s3;
            Some (Inr (port, IP_NULL), s4) } }"

definition copyin_make_send_once ::
  "mach_port_name_t \<Rightarrow> ipc_entry_t \<Rightarrow> ipc_kstate \<Rightarrow> copyin_result option" where
  "copyin_make_send_once name entry s =
     do { e \<leftarrow> entry_at s entry;
          if \<not> has_bits (ie_bits e) MACH_PORT_TYPE_RECEIVE then Some (Inl KERN_INVALID_RIGHT, s)
          else do {
            let port = ie_object e;
            kassert (port \<noteq> IP_NULL);
            s1 \<leftarrow> ip_lock port s;
            p \<leftarrow> st_objects s1 port;
            kassert (ip_active p \<and> ip_receiver_name p = name \<and> ip_receiver p = st_self s);
            s2 \<leftarrow> set_object port (ip_sorights_update (\<lambda>n. n + 1)) s1;
            s3 \<leftarrow> ip_reference port s2;
            s4 \<leftarrow> ip_unlock port s3;
            Some (Inr (port, IP_NULL), s4) } }"

definition copyin_move_receive ::
  "ipc_kernel \<Rightarrow> mach_port_name_t \<Rightarrow> ipc_entry_t \<Rightarrow> ipc_kstate \<Rightarrow> copyin_result option" where
  "copyin_move_receive k name entry s =
     do { e \<leftarrow> entry_at s entry;
          let bits = ie_bits e;
          if \<not> has_bits bits MACH_PORT_TYPE_RECEIVE then Some (Inl KERN_INVALID_RIGHT, s)
          else do {
            let port = ie_object e;
            kassert (port \<noteq> IP_NULL);
            s1 \<leftarrow> ip_lock port s;
            p \<leftarrow> st_objects s1 port;
            kassert (ip_active p \<and> ip_receiver_name p = name \<and> ip_receiver p = st_self s);
            (dnrequest, s2) \<leftarrow>
              (if has_bits bits MACH_PORT_TYPE_SEND
               then do {
                 kassert (IE_BITS_TYPE bits = MACH_PORT_TYPE_SEND_RECEIVE \<and>
                          IE_BITS_UREFS bits > 0 \<and> ip_srights p > 0);
                 s2 \<leftarrow> ipc_hash_insert s1 port name entry;
                 s3 \<leftarrow> ip_reference port s2;
                 Some (IP_NULL, s3) }
               else do {
                 kassert (IE_BITS_TYPE bits = MACH_PORT_TYPE_RECEIVE \<and> IE_BITS_UREFS bits = 0);
                 (dnrequest, s2) \<leftarrow> ipc_right_dncancel_macro port name entry s1;
                 s3 \<leftarrow> set_entry entry (ie_object_update (\<lambda>_. IO_NULL)) s2;
                 Some (dnrequest, s3) });
            s3 \<leftarrow> set_entry entry (ie_bits_update (\<lambda>_. bits AND NOT MACH_PORT_TYPE_RECEIVE)) s2;
            s4 \<leftarrow> ipc_port_clear_receiver k port s3;
            s5 \<leftarrow> set_object port (\<lambda>p. p\<lparr>io_receiver_name := MACH_PORT_NULL, ip_data := IP_NULL\<rparr>) s4;
            s6 \<leftarrow> ip_unlock port s5;
            Some (Inr (port, dnrequest), s6) } }"

text \<open>The labels \<open>copy_dead\<close> and \<open>move_dead\<close>.\<close>

definition copyin_dead ::
  "bool \<Rightarrow> bool \<Rightarrow> ipc_entry_t \<Rightarrow> ipc_kstate \<Rightarrow> copyin_result option" where
  "copyin_dead move deadok entry s =
     do { e \<leftarrow> entry_at s entry;
          let bits = ie_bits e;
          kassert (IE_BITS_TYPE bits = MACH_PORT_TYPE_DEAD_NAME \<and> IE_BITS_UREFS bits > 0 \<and>
                   ie_request e = 0 \<and> ie_object e = IO_NULL);
          if \<not> deadok then Some (Inl KERN_INVALID_RIGHT, s)
          else if \<not> move then Some (Inr (IO_DEAD, IP_NULL), s)
          else do {
            let bits1 = (if IE_BITS_UREFS bits = 1 then bits AND NOT MACH_PORT_TYPE_DEAD_NAME else bits);
            s1 \<leftarrow> set_entry entry (ie_bits_update (\<lambda>_. bits1 - 1)) s;
            Some (Inr (IO_DEAD, IP_NULL), s1) } }"

definition copyin_copy_send ::
  "bool \<Rightarrow> mach_port_name_t \<Rightarrow> ipc_entry_t \<Rightarrow> ipc_kstate \<Rightarrow> copyin_result option" where
  "copyin_copy_send deadok name entry s =
     do { e \<leftarrow> entry_at s entry;
          let bits = ie_bits e;
          if has_bits bits MACH_PORT_TYPE_DEAD_NAME then copyin_dead False deadok entry s
          else if \<not> has_bits bits MACH_PORT_TYPE_SEND_RIGHTS then Some (Inl KERN_INVALID_RIGHT, s)
          else do {
            kassert (IE_BITS_UREFS bits > 0);
            let port = ie_object e;
            kassert (port \<noteq> IP_NULL);
            (dead, s1) \<leftarrow> ipc_right_check port name entry s;
            if dead then copyin_dead False deadok entry s1
            else do {
              p \<leftarrow> st_objects s1 port;
              if \<not> has_bits bits MACH_PORT_TYPE_SEND
              then do { kassert (IE_BITS_TYPE bits = MACH_PORT_TYPE_SEND_ONCE \<and> ip_sorights p > 0);
                        s2 \<leftarrow> ip_unlock port s1;
                        Some (Inl KERN_INVALID_RIGHT, s2) }
              else do {
                kassert (ip_srights p > 0);
                s2 \<leftarrow> set_object port (ip_srights_update (\<lambda>n. n + 1)) s1;
                s3 \<leftarrow> ip_reference port s2;
                s4 \<leftarrow> ip_unlock port s3;
                Some (Inr (port, IP_NULL), s4) } } } }"

text \<open>The last user reference of a send right moves into the message.\<close>

definition move_last_send ::
  "ipc_port_t \<Rightarrow> mach_port_name_t \<Rightarrow> ipc_entry_t \<Rightarrow> u32 \<Rightarrow> ipc_kstate
     \<Rightarrow> (ipc_port_t \<times> ipc_kstate) option" where
  "move_last_send port name entry bits s =
     do { p \<leftarrow> st_objects s port;
          (dnrequest, s2) \<leftarrow>
            (if has_bits bits MACH_PORT_TYPE_RECEIVE
             then do { kassert (ip_receiver_name p = name \<and> ip_receiver p = st_self s \<and>
                                IE_BITS_TYPE bits = MACH_PORT_TYPE_SEND_RECEIVE);
                       s1 \<leftarrow> ip_reference port s;
                       Some (IP_NULL, s1) }
             else do { kassert (IE_BITS_TYPE bits = MACH_PORT_TYPE_SEND);
                       (dnrequest, s1) \<leftarrow> ipc_right_dncancel_macro port name entry s;
                       s2 \<leftarrow> ipc_hash_delete s1 port name entry;
                       s3 \<leftarrow> set_entry entry (ie_object_update (\<lambda>_. IO_NULL)) s2;
                       Some (dnrequest, s3) });
          s3 \<leftarrow> set_entry entry (ie_bits_update
                  (\<lambda>_. bits AND NOT (IE_BITS_UREFS_MASK OR MACH_PORT_TYPE_SEND))) s2;
          Some (dnrequest, s3) }"

definition copyin_move_send ::
  "bool \<Rightarrow> mach_port_name_t \<Rightarrow> ipc_entry_t \<Rightarrow> ipc_kstate \<Rightarrow> copyin_result option" where
  "copyin_move_send deadok name entry s =
     do { e \<leftarrow> entry_at s entry;
          let bits = ie_bits e;
          if has_bits bits MACH_PORT_TYPE_DEAD_NAME then copyin_dead True deadok entry s
          else if \<not> has_bits bits MACH_PORT_TYPE_SEND_RIGHTS then Some (Inl KERN_INVALID_RIGHT, s)
          else do {
            kassert (IE_BITS_UREFS bits > 0);
            let port = ie_object e;
            kassert (port \<noteq> IP_NULL);
            (dead, s1) \<leftarrow> ipc_right_check port name entry s;
            if dead then copyin_dead True deadok entry s1
            else do {
              p \<leftarrow> st_objects s1 port;
              if \<not> has_bits bits MACH_PORT_TYPE_SEND
              then do { kassert (IE_BITS_TYPE bits = MACH_PORT_TYPE_SEND_ONCE \<and> ip_sorights p > 0);
                        s2 \<leftarrow> ip_unlock port s1;
                        Some (Inl KERN_INVALID_RIGHT, s2) }
              else do {
                kassert (ip_srights p > 0);
                (dnrequest, s2) \<leftarrow>
                  (if IE_BITS_UREFS bits = 1 then move_last_send port name entry bits s1
                   else do { s2 \<leftarrow> set_object port (ip_srights_update (\<lambda>n. n + 1)) s1;
                             s3 \<leftarrow> ip_reference port s2;
                             s4 \<leftarrow> set_entry entry (ie_bits_update (\<lambda>_. bits - 1)) s3;
                             Some (IP_NULL, s4) });
                s3 \<leftarrow> ip_unlock port s2;
                Some (Inr (port, dnrequest), s3) } } } }"

definition copyin_move_send_once ::
  "bool \<Rightarrow> mach_port_name_t \<Rightarrow> ipc_entry_t \<Rightarrow> ipc_kstate \<Rightarrow> copyin_result option" where
  "copyin_move_send_once deadok name entry s =
     do { e \<leftarrow> entry_at s entry;
          let bits = ie_bits e;
          if has_bits bits MACH_PORT_TYPE_DEAD_NAME then copyin_dead True deadok entry s
          else if \<not> has_bits bits MACH_PORT_TYPE_SEND_RIGHTS then Some (Inl KERN_INVALID_RIGHT, s)
          else do {
            kassert (IE_BITS_UREFS bits > 0);
            let port = ie_object e;
            kassert (port \<noteq> IP_NULL);
            (dead, s1) \<leftarrow> ipc_right_check port name entry s;
            if dead then copyin_dead True deadok entry s1
            else do {
              p \<leftarrow> st_objects s1 port;
              if \<not> has_bits bits MACH_PORT_TYPE_SEND_ONCE
              then do { kassert (has_bits bits MACH_PORT_TYPE_SEND \<and> ip_srights p > 0);
                        s2 \<leftarrow> ip_unlock port s1;
                        Some (Inl KERN_INVALID_RIGHT, s2) }
              else do {
                kassert (IE_BITS_TYPE bits = MACH_PORT_TYPE_SEND_ONCE \<and> IE_BITS_UREFS bits = 1 \<and>
                         ip_sorights p > 0);
                (dnrequest, s2) \<leftarrow> ipc_right_dncancel_macro port name entry s1;
                s3 \<leftarrow> ip_unlock port s2;
                s4 \<leftarrow> set_entry entry (\<lambda>e. e\<lparr>ie_object := IO_NULL,
                        ie_bits := bits AND NOT (IE_BITS_UREFS_MASK OR MACH_PORT_TYPE_SEND_ONCE)\<rparr>) s3;
                Some (Inr (port, dnrequest), s4) } } } }"

definition ipc_right_copyin ::
  "ipc_kernel \<Rightarrow> mach_port_name_t \<Rightarrow> ipc_entry_t \<Rightarrow> mach_msg_type_name_t \<Rightarrow> bool \<Rightarrow> ipc_kstate
     \<Rightarrow> copyin_result option" where
  "ipc_right_copyin k name entry msgt_name deadok s =
     do { kassert (is_active (st_space s));
          if msgt_name = MACH_MSG_TYPE_MAKE_SEND then copyin_make_send name entry s
          else if msgt_name = MACH_MSG_TYPE_MAKE_SEND_ONCE then copyin_make_send_once name entry s
          else if msgt_name = MACH_MSG_TYPE_MOVE_RECEIVE then copyin_move_receive k name entry s
          else if msgt_name = MACH_MSG_TYPE_COPY_SEND then copyin_copy_send deadok name entry s
          else if msgt_name = MACH_MSG_TYPE_MOVE_SEND then copyin_move_send deadok name entry s
          else if msgt_name = MACH_MSG_TYPE_MOVE_SEND_ONCE then copyin_move_send_once deadok name entry s
          else Some (Inl KERN_INVALID_RIGHT, s) }"

text \<open>
  Undoing the copyin of a send or send-once right that turned out to be dead.
\<close>

definition ipc_right_copyin_undo ::
  "mach_port_name_t \<Rightarrow> ipc_entry_t \<Rightarrow> mach_msg_type_name_t \<Rightarrow> ipc_object_t \<Rightarrow> ipc_port_t \<Rightarrow> ipc_kstate
     \<Rightarrow> ipc_kstate option" where
  "ipc_right_copyin_undo name entry msgt_name object soright s =
     do { e \<leftarrow> entry_at s entry;
          let bits = ie_bits e;
          let move = (msgt_name = MACH_MSG_TYPE_MOVE_SEND \<or> msgt_name = MACH_MSG_TYPE_MOVE_SEND_ONCE);
          kassert (is_active (st_space s));
          kassert (move \<or> msgt_name = MACH_MSG_TYPE_COPY_SEND);
          s1 \<leftarrow>
            (if soright \<noteq> IP_NULL
             then do { kassert (move \<and> IE_BITS_TYPE bits = MACH_PORT_TYPE_NONE \<and> object \<noteq> IO_DEAD);
                       set_entry entry (ie_bits_update
                         (\<lambda>_. bits AND NOT IE_BITS_RIGHT_MASK OR MACH_PORT_TYPE_DEAD_NAME OR 2)) s }
             else if IE_BITS_TYPE bits = MACH_PORT_TYPE_NONE
             then do { kassert move;
                       set_entry entry (ie_bits_update
                         (\<lambda>_. bits AND NOT IE_BITS_RIGHT_MASK OR MACH_PORT_TYPE_DEAD_NAME OR 1)) s }
             else if IE_BITS_TYPE bits = MACH_PORT_TYPE_DEAD_NAME
             then do { kassert (object = IO_DEAD \<and> IE_BITS_UREFS bits > 0);
                       if msgt_name \<noteq> MACH_MSG_TYPE_COPY_SEND
                       then do { kassert (IE_BITS_UREFS bits < MACH_PORT_UREFS_MAX);
                                 set_entry entry (ie_bits_update (\<lambda>_. bits + 1)) s }
                       else Some s }
             else do { kassert (msgt_name = MACH_MSG_TYPE_MOVE_SEND \<or> msgt_name = MACH_MSG_TYPE_COPY_SEND);
                       kassert (IE_BITS_TYPE bits = MACH_PORT_TYPE_SEND \<and> object \<noteq> IO_DEAD \<and>
                                ie_object e = object \<and> IE_BITS_UREFS bits > 0);
                       s1 \<leftarrow> (if msgt_name \<noteq> MACH_MSG_TYPE_COPY_SEND
                              then do { kassert (IE_BITS_UREFS bits < MACH_PORT_UREFS_MAX - 1);
                                        set_entry entry (ie_bits_update (\<lambda>_. bits + 1)) s }
                              else Some s);
                       (_, s2) \<leftarrow> ipc_right_check object name entry s1;
                       Some s2 });
          if object \<noteq> IO_DEAD then ipc_object_release object s1 else Some s1 }"

definition ipc_right_copyin_two ::
  "mach_port_name_t \<Rightarrow> ipc_entry_t \<Rightarrow> ipc_kstate \<Rightarrow> copyin_result option" where
  "ipc_right_copyin_two name entry s =
     do { kassert (is_active (st_space s));
          e \<leftarrow> entry_at s entry;
          let bits = ie_bits e;
          let urefs = IE_BITS_UREFS bits;
          if \<not> has_bits bits MACH_PORT_TYPE_SEND \<or> urefs < 2 then Some (Inl KERN_INVALID_RIGHT, s)
          else do {
            let port = ie_object e;
            kassert (port \<noteq> IP_NULL);
            (dead, s1) \<leftarrow> ipc_right_check port name entry s;
            if dead then Some (Inl KERN_INVALID_RIGHT, s1)
            else do {
              p \<leftarrow> st_objects s1 port;
              kassert (ip_srights p > 0);
              (dnrequest, s2) \<leftarrow>
                (if urefs = 2
                 then do {
                   (dnrequest, s4) \<leftarrow>
                     (if has_bits bits MACH_PORT_TYPE_RECEIVE
                      then do { kassert (ip_receiver_name p = name \<and> ip_receiver p = st_self s \<and>
                                         IE_BITS_TYPE bits = MACH_PORT_TYPE_SEND_RECEIVE);
                                s2 \<leftarrow> set_object port (ip_srights_update (\<lambda>n. n + 1)) s1;
                                s3 \<leftarrow> ip_reference port s2;
                                s4 \<leftarrow> ip_reference port s3;
                                Some (IP_NULL, s4) }
                      else do { kassert (IE_BITS_TYPE bits = MACH_PORT_TYPE_SEND);
                                (dnrequest, s2) \<leftarrow> ipc_right_dncancel_macro port name entry s1;
                                s3 \<leftarrow> set_object port (ip_srights_update (\<lambda>n. n + 1)) s2;
                                s4 \<leftarrow> ip_reference port s3;
                                s5 \<leftarrow> ipc_hash_delete s4 port name entry;
                                s6 \<leftarrow> set_entry entry (ie_object_update (\<lambda>_. IO_NULL)) s5;
                                Some (dnrequest, s6) });
                   s5 \<leftarrow> set_entry entry (ie_bits_update
                           (\<lambda>_. bits AND NOT (IE_BITS_UREFS_MASK OR MACH_PORT_TYPE_SEND))) s4;
                   Some (dnrequest, s5) }
                 else do {
                   s2 \<leftarrow> set_object port (ip_srights_update (\<lambda>n. n + 2)) s1;
                   s3 \<leftarrow> ip_reference port s2;
                   s4 \<leftarrow> ip_reference port s3;
                   s5 \<leftarrow> set_entry entry (ie_bits_update (\<lambda>_. bits - 2)) s4;
                   Some (IP_NULL, s5) });
              s3 \<leftarrow> ip_unlock port s2;
              Some (Inr (port, dnrequest), s3) } } }"

section \<open>Copyout\<close>

definition copyout_send_once ::
  "ipc_entry_t \<Rightarrow> ipc_port_t \<Rightarrow> ipc_kstate \<Rightarrow> (kern_return_t \<times> ipc_kstate) option" where
  "copyout_send_once entry port s =
     do { e \<leftarrow> entry_at s entry;
          p \<leftarrow> st_objects s port;
          let bits = ie_bits e;
          kassert (IE_BITS_TYPE bits = MACH_PORT_TYPE_NONE \<and> ip_sorights p > 0);
          s1 \<leftarrow> ip_unlock port s;
          s2 \<leftarrow> set_entry entry (ie_bits_update (\<lambda>_. bits OR (MACH_PORT_TYPE_SEND_ONCE OR 1))) s1;
          Some (KERN_SUCCESS, s2) }"

text \<open>The entry has a send right already, and this one is merged into it.\<close>

definition copyout_merge ::
  "ipc_port_t \<Rightarrow> ipc_kstate \<Rightarrow> ipc_kstate option" where
  "copyout_merge port s =
     do { s1 \<leftarrow> set_object port (ip_srights_update (\<lambda>n. n - 1)) s;
          s2 \<leftarrow> ip_release port s1;
          ip_unlock port s2 }"

definition copyout_send ::
  "mach_port_name_t \<Rightarrow> ipc_entry_t \<Rightarrow> bool \<Rightarrow> ipc_port_t \<Rightarrow> ipc_kstate
     \<Rightarrow> (kern_return_t \<times> ipc_kstate) option" where
  "copyout_send name entry overflow port s =
     do { e \<leftarrow> entry_at s entry;
          p \<leftarrow> st_objects s port;
          let bits = ie_bits e;
          let urefs = IE_BITS_UREFS bits;
          kassert (ip_srights p > 0);
          kassert (has_bits bits MACH_PORT_TYPE_SEND \<longrightarrow>
                   ip_srights p > 1 \<and> urefs > 0 \<and> urefs < MACH_PORT_UREFS_MAX);
          if has_bits bits MACH_PORT_TYPE_SEND \<and> urefs + 1 = MACH_PORT_UREFS_MAX
          then if overflow then do { s1 \<leftarrow> copyout_merge port s; Some (KERN_SUCCESS, s1) }
               else do { s1 \<leftarrow> ip_unlock port s; Some (KERN_UREFS_OVERFLOW, s1) }
          else do {
            s2 \<leftarrow>
              (if has_bits bits MACH_PORT_TYPE_SEND then copyout_merge port s
               else if has_bits bits MACH_PORT_TYPE_RECEIVE
               then do { kassert (IE_BITS_TYPE bits = MACH_PORT_TYPE_RECEIVE \<and> urefs = 0);
                         s1 \<leftarrow> ip_release port s;
                         ip_unlock port s1 }
               else do { kassert (IE_BITS_TYPE bits = MACH_PORT_TYPE_NONE \<and> urefs = 0);
                         s1 \<leftarrow> ip_unlock port s;
                         ipc_hash_insert s1 port name entry });
            s3 \<leftarrow> set_entry entry (ie_bits_update (\<lambda>_. (bits OR MACH_PORT_TYPE_SEND) + 1)) s2;
            Some (KERN_SUCCESS, s3) } }"

definition copyout_receive ::
  "mach_port_name_t \<Rightarrow> ipc_entry_t \<Rightarrow> ipc_port_t \<Rightarrow> ipc_kstate \<Rightarrow> (kern_return_t \<times> ipc_kstate) option" where
  "copyout_receive name entry port s =
     do { e \<leftarrow> entry_at s entry;
          p \<leftarrow> st_objects s port;
          let bits = ie_bits e;
          kassert (ip_mscount p = 0 \<and> ip_receiver_name p = MACH_PORT_NULL);
          let dest = ip_destination p;
          s1 \<leftarrow> set_object port (\<lambda>p. p\<lparr>io_receiver_name := name, ip_data := st_self s\<rparr>) s;
          kassert (\<not> has_bits bits MACH_PORT_TYPE_RECEIVE);
          s2 \<leftarrow>
            (if has_bits bits MACH_PORT_TYPE_SEND
             then do { kassert (IE_BITS_TYPE bits = MACH_PORT_TYPE_SEND \<and> IE_BITS_UREFS bits > 0 \<and>
                                ip_srights p > 0);
                       s2 \<leftarrow> ip_release port s1;
                       s3 \<leftarrow> ip_unlock port s2;
                       ipc_hash_delete s3 port name entry }
             else do { kassert (IE_BITS_TYPE bits = MACH_PORT_TYPE_NONE \<and> IE_BITS_UREFS bits = 0);
                       ip_unlock port s1 });
          s3 \<leftarrow> set_entry entry (ie_bits_update (\<lambda>_. bits OR MACH_PORT_TYPE_RECEIVE)) s2;
          s4 \<leftarrow> (if dest \<noteq> IP_NULL then ipc_port_release dest s3 else Some s3);
          Some (KERN_SUCCESS, s4) }"

definition ipc_right_copyout ::
  "mach_port_name_t \<Rightarrow> ipc_entry_t \<Rightarrow> mach_msg_type_name_t \<Rightarrow> bool \<Rightarrow> ipc_object_t \<Rightarrow> ipc_kstate
     \<Rightarrow> (kern_return_t \<times> ipc_kstate) option" where
  "ipc_right_copyout name entry msgt_name overflow object s =
     do { e \<leftarrow> entry_at s entry;
          p \<leftarrow> st_objects s object;
          kassert (IO_VALID object \<and> io_otype p = IOT_PORT \<and> io_active p \<and> ie_object e = object);
          if msgt_name = MACH_MSG_TYPE_PORT_SEND_ONCE then copyout_send_once entry object s
          else if msgt_name = MACH_MSG_TYPE_PORT_SEND then copyout_send name entry overflow object s
          else if msgt_name = MACH_MSG_TYPE_PORT_RECEIVE then copyout_receive name entry object s
          else None }"

section \<open>Renaming\<close>

text \<open>The outstanding dead-name request of the old name: forgotten with a dead port, or renamed.\<close>

definition rename_request ::
  "mach_port_name_t \<Rightarrow> ipc_entry_t \<Rightarrow> mach_port_name_t \<Rightarrow> ipc_kstate
     \<Rightarrow> (nat \<times> u32 \<times> ipc_object_t \<times> ipc_kstate) option" where
  "rename_request oname oentry nname s =
     do { e \<leftarrow> entry_at s oentry;
          if ie_request e \<noteq> 0
          then do {
            let port = ie_object e;
            kassert (has_bits (ie_bits e) MACH_PORT_TYPE_PORT_RIGHTS \<and> port \<noteq> IP_NULL);
            (dead, s1) \<leftarrow> ipc_right_check port oname oentry s;
            if dead
            then do { e1 \<leftarrow> entry_at s1 oentry;
                      kassert (IE_BITS_TYPE (ie_bits e1) = MACH_PORT_TYPE_DEAD_NAME \<and> ie_request e1 = 0);
                      Some (0, ie_bits e1, IO_NULL, s1) }
            else do { s2 \<leftarrow> ipc_port_dnrename port (ie_request e) oname nname s1;
                      s3 \<leftarrow> ip_unlock port s2;
                      s4 \<leftarrow> set_entry oentry (ie_request_update (\<lambda>_. 0)) s3;
                      Some (ie_request e, ie_bits e, port, s4) } }
          else Some (0, ie_bits e, ie_object e, s) }"

text \<open>What refers to the old name from outside: the reverse hash table, a port, a port set.\<close>

definition rename_references ::
  "u32 \<Rightarrow> ipc_object_t \<Rightarrow> mach_port_name_t \<Rightarrow> ipc_entry_t \<Rightarrow> mach_port_name_t \<Rightarrow> ipc_entry_t
     \<Rightarrow> ipc_kstate \<Rightarrow> ipc_kstate option" where
  "rename_references type object oname oentry nname nentry s =
     (if type = MACH_PORT_TYPE_SEND
      then do { kassert (object \<noteq> IP_NULL);
                s1 \<leftarrow> ipc_hash_delete s object oname oentry;
                ipc_hash_insert s1 object nname nentry }
      else if type = MACH_PORT_TYPE_RECEIVE \<or> type = MACH_PORT_TYPE_SEND_RECEIVE
      then do { kassert (object \<noteq> IP_NULL);
                s1 \<leftarrow> ip_lock object s;
                p \<leftarrow> st_objects s1 object;
                kassert (ip_active p \<and> ip_receiver_name p = oname \<and> ip_receiver p = st_self s);
                s2 \<leftarrow> set_object object (io_receiver_name_update (\<lambda>_. nname)) s1;
                ip_unlock object s2 }
      else if type = MACH_PORT_TYPE_PORT_SET
      then do { kassert (object \<noteq> IO_NULL);
                s1 \<leftarrow> io_lock object s;
                p \<leftarrow> st_objects s1 object;
                kassert (io_active p \<and> ips_local_name p = oname);
                s2 \<leftarrow> set_object object (io_receiver_name_update (\<lambda>_. nname)) s1;
                io_unlock object s2 }
      else if type = MACH_PORT_TYPE_SEND_ONCE \<or> type = MACH_PORT_TYPE_DEAD_NAME then Some s
      else None)"

definition ipc_right_rename ::
  "mach_port_name_t \<Rightarrow> ipc_entry_t \<Rightarrow> mach_port_name_t \<Rightarrow> ipc_entry_t \<Rightarrow> ipc_kstate
     \<Rightarrow> (kern_return_t \<times> ipc_kstate) option" where
  "ipc_right_rename oname oentry nname nentry s =
     do { kassert (is_active (st_space s) \<and> oname \<noteq> nname);
          (request, bits, object, s1) \<leftarrow> rename_request oname oentry nname s;
          n \<leftarrow> entry_at s1 nentry;
          kassert (\<not> has_bits (ie_bits n) IE_BITS_RIGHT_MASK);
          s2 \<leftarrow> set_entry nentry (\<lambda>n. n\<lparr>ie_bits := ie_bits n OR bits AND IE_BITS_RIGHT_MASK,
                  ie_request := request, ie_object := object\<rparr>) s1;
          s3 \<leftarrow> rename_references (IE_BITS_TYPE bits) object oname oentry nname nentry s2;
          old \<leftarrow> entry_at s3 oentry;
          kassert (ie_request old = 0);
          s4 \<leftarrow> set_entry oentry (ie_object_update (\<lambda>_. IO_NULL)) s3;
          s5 \<leftarrow> ipc_entry_dealloc s4 oname oentry;
          s6 \<leftarrow> is_write_unlock s5;
          Some (KERN_SUCCESS, s6) }"

end
