(* ===== verification/Ipc_Object_Ops.thy ===== *)
theory Ipc_Object_Ops
  imports Ipc_Copy
begin

text \<open>
  Capabilities between spaces and the kernel, \<open>osfmk/ipc/ipc_object.c\<close>, with the allocation of ports
  and port sets in a space (\<open>osfmk/ipc/ipc_port.c\<close>, \<open>osfmk/ipc/ipc_pset.c\<close>).
\<close>

section \<open>Translation\<close>

definition ipc_object_translate ::
  "mach_port_name_t \<Rightarrow> u32 \<Rightarrow> ipc_kstate \<Rightarrow> ((kern_return_t + ipc_object_t) \<times> ipc_kstate) option" where
  "ipc_object_translate name rt s =
     do { (r, s1) \<leftarrow> ipc_right_lookup_write name s;
          case r of
            Inl kr \<Rightarrow> Some (Inl kr, s1)
          | Inr entry \<Rightarrow> do {
              e \<leftarrow> entry_at s1 entry;
              if ie_bits e AND MACH_PORT_TYPE rt = MACH_PORT_TYPE_NONE
              then do { s2 \<leftarrow> is_write_unlock s1; Some (Inl KERN_INVALID_RIGHT, s2) }
              else do {
                let object = ie_object e;
                kassert (object \<noteq> IO_NULL);
                s2 \<leftarrow> io_lock object s1;
                s3 \<leftarrow> is_write_unlock s2;
                Some (Inr object, s3) } } }"

definition ipc_object_translate_two ::
  "mach_port_name_t \<Rightarrow> u32 \<Rightarrow> mach_port_name_t \<Rightarrow> u32 \<Rightarrow> ipc_kstate
     \<Rightarrow> ((kern_return_t + ipc_object_t \<times> ipc_object_t) \<times> ipc_kstate) option" where
  "ipc_object_translate_two name1 right1 name2 right2 s =
     do { (r, s1) \<leftarrow> ipc_right_lookup_two_write name1 name2 s;
          case r of
            Inl kr \<Rightarrow> Some (Inl kr, s1)
          | Inr (entry1, entry2) \<Rightarrow> do {
              e1 \<leftarrow> entry_at s1 entry1;
              e2 \<leftarrow> entry_at s1 entry2;
              if ie_bits e1 AND MACH_PORT_TYPE right1 = MACH_PORT_TYPE_NONE
              then do { s2 \<leftarrow> is_write_unlock s1; Some (Inl KERN_INVALID_RIGHT, s2) }
              else if ie_bits e2 AND MACH_PORT_TYPE right2 = MACH_PORT_TYPE_NONE
              then do { s2 \<leftarrow> is_write_unlock s1; Some (Inl KERN_INVALID_RIGHT, s2) }
              else do {
                kassert (ie_object e1 \<noteq> IO_NULL);
                s2 \<leftarrow> io_lock (ie_object e1) s1;
                kassert (ie_object e2 \<noteq> IO_NULL);
                s3 \<leftarrow> io_lock (ie_object e2) s2;
                s4 \<leftarrow> is_write_unlock s3;
                Some (Inr (ie_object e1, ie_object e2), s4) } } }"

section \<open>Allocation\<close>

definition MACH_PORT_TYPE_ALL_RIGHTS :: u32 where
  "MACH_PORT_TYPE_ALL_RIGHTS = MACH_PORT_TYPE_PORT_OR_DEAD OR MACH_PORT_TYPE_PORT_SET"

definition ipc_object_alloc_dead ::
  "ipc_kernel \<Rightarrow> ipc_kstate \<Rightarrow> ((kern_return_t + mach_port_name_t) \<times> ipc_kstate) option" where
  "ipc_object_alloc_dead k s =
     do { (r, s1) \<leftarrow> ipc_entry_alloc (k_env k) s;
          case r of
            Inl kr \<Rightarrow> Some (Inl kr, s1)
          | Inr (name, entry) \<Rightarrow> do {
              e \<leftarrow> entry_at s1 entry;
              kassert (ie_object e = IO_NULL);
              s2 \<leftarrow> set_entry entry (ie_bits_update (\<lambda>b. b OR (MACH_PORT_TYPE_DEAD_NAME OR 1))) s1;
              s3 \<leftarrow> is_write_unlock s2;
              Some (Inr name, s3) } }"

definition ipc_object_alloc_dead_name ::
  "ipc_kernel \<Rightarrow> mach_port_name_t \<Rightarrow> ipc_kstate \<Rightarrow> (kern_return_t \<times> ipc_kstate) option" where
  "ipc_object_alloc_dead_name k name s =
     do { (r, s1) \<leftarrow> ipc_entry_alloc_name (k_env k) name s;
          case r of
            Inl kr \<Rightarrow> Some (kr, s1)
          | Inr entry \<Rightarrow> do {
              (inuse, s2) \<leftarrow> ipc_right_inuse entry s1;
              if inuse then Some (KERN_NAME_EXISTS, s2)
              else do {
                e \<leftarrow> entry_at s2 entry;
                kassert (ie_object e = IO_NULL);
                s3 \<leftarrow> set_entry entry (ie_bits_update (\<lambda>b. b OR (MACH_PORT_TYPE_DEAD_NAME OR 1))) s2;
                s4 \<leftarrow> is_write_unlock s3;
                Some (KERN_SUCCESS, s4) } } }"

text \<open>A new object gets its entry, which is locked together with the space.\<close>

definition object_enter ::
  "u32 \<Rightarrow> u32 \<Rightarrow> u32 \<Rightarrow> ipc_object_t \<Rightarrow> ipc_entry_t \<Rightarrow> ipc_kstate \<Rightarrow> ipc_kstate option" where
  "object_enter otype type urefs object entry s =
     do { s1 \<leftarrow> set_entry entry (\<lambda>e. e\<lparr>ie_bits := ie_bits e OR (type OR urefs), ie_object := object\<rparr>) s;
          s2 \<leftarrow> io_lock object s1;
          s3 \<leftarrow> is_write_unlock s2;
          set_object object (\<lambda>p. p\<lparr>io_references := 1, io_bits := io_makebits True otype 0\<rparr>) s3 }"

definition ipc_object_alloc ::
  "ipc_kernel \<Rightarrow> u32 \<Rightarrow> u32 \<Rightarrow> u32 \<Rightarrow> ipc_kstate
     \<Rightarrow> ((kern_return_t + mach_port_name_t \<times> ipc_object_t) \<times> ipc_kstate) option" where
  "ipc_object_alloc k otype type urefs s =
     do { kassert (otype < IOT_NUMBER \<and> type AND MACH_PORT_TYPE_ALL_RIGHTS = type \<and>
                   type \<noteq> MACH_PORT_TYPE_NONE \<and> urefs \<le> MACH_PORT_UREFS_MAX);
          case k_io_alloc k otype s of
            None \<Rightarrow> Some (Inl KERN_RESOURCE_SHORTAGE, s)
          | Some object \<Rightarrow> do {
              (r, s1) \<leftarrow> ipc_entry_alloc (k_env k) (io_put object blank_port s);
              case r of
                Inl kr \<Rightarrow> Some (Inl kr, io_free object s1)
              | Inr (name, entry) \<Rightarrow>
                  do { s2 \<leftarrow> object_enter otype type urefs object entry s1;
                       Some (Inr (name, object), s2) } } }"

definition ipc_object_alloc_name ::
  "ipc_kernel \<Rightarrow> u32 \<Rightarrow> u32 \<Rightarrow> u32 \<Rightarrow> mach_port_name_t \<Rightarrow> ipc_kstate
     \<Rightarrow> ((kern_return_t + ipc_object_t) \<times> ipc_kstate) option" where
  "ipc_object_alloc_name k otype type urefs name s =
     do { kassert (otype < IOT_NUMBER \<and> type AND MACH_PORT_TYPE_ALL_RIGHTS = type \<and>
                   type \<noteq> MACH_PORT_TYPE_NONE \<and> urefs \<le> MACH_PORT_UREFS_MAX);
          case k_io_alloc k otype s of
            None \<Rightarrow> Some (Inl KERN_RESOURCE_SHORTAGE, s)
          | Some object \<Rightarrow> do {
              (r, s1) \<leftarrow> ipc_entry_alloc_name (k_env k) name (io_put object blank_port s);
              case r of
                Inl kr \<Rightarrow> Some (Inl kr, io_free object s1)
              | Inr entry \<Rightarrow> do {
                  (inuse, s2) \<leftarrow> ipc_right_inuse entry s1;
                  if inuse then Some (Inl KERN_NAME_EXISTS, io_free object s2)
                  else do { s3 \<leftarrow> object_enter otype type urefs object entry s2;
                            Some (Inr object, s3) } } } }"

definition ipc_port_alloc ::
  "ipc_kernel \<Rightarrow> ipc_kstate
     \<Rightarrow> ((kern_return_t + mach_port_name_t \<times> ipc_port_t) \<times> ipc_kstate) option" where
  "ipc_port_alloc k s =
     do { (r, s1) \<leftarrow> ipc_object_alloc k IOT_PORT MACH_PORT_TYPE_RECEIVE 0 s;
          case r of
            Inl kr \<Rightarrow> Some (Inl kr, s1)
          | Inr (name, port) \<Rightarrow>
              do { s2 \<leftarrow> ipc_port_init k port (st_self s) name s1; Some (Inr (name, port), s2) } }"

definition ipc_port_alloc_name ::
  "ipc_kernel \<Rightarrow> mach_port_name_t \<Rightarrow> ipc_kstate
     \<Rightarrow> ((kern_return_t + ipc_port_t) \<times> ipc_kstate) option" where
  "ipc_port_alloc_name k name s =
     do { (r, s1) \<leftarrow> ipc_object_alloc_name k IOT_PORT MACH_PORT_TYPE_RECEIVE 0 name s;
          case r of
            Inl kr \<Rightarrow> Some (Inl kr, s1)
          | Inr port \<Rightarrow>
              do { s2 \<leftarrow> ipc_port_init k port (st_self s) name s1; Some (Inr port, s2) } }"

text \<open>Initialisation of a port set: its name, and its message queue.\<close>

definition pset_init ::
  "ipc_kernel \<Rightarrow> ipc_pset_t \<Rightarrow> mach_port_name_t \<Rightarrow> ipc_kstate \<Rightarrow> ipc_kstate option" where
  "pset_init k pset name s =
     do { s1 \<leftarrow> set_object pset (io_receiver_name_update (\<lambda>_. name)) s;
          Some (k_mqueue_init k pset True s1) }"

definition ipc_pset_alloc ::
  "ipc_kernel \<Rightarrow> ipc_kstate
     \<Rightarrow> ((kern_return_t + mach_port_name_t \<times> ipc_pset_t) \<times> ipc_kstate) option" where
  "ipc_pset_alloc k s =
     do { (r, s1) \<leftarrow> ipc_object_alloc k IOT_PORT_SET MACH_PORT_TYPE_PORT_SET 0 s;
          case r of
            Inl kr \<Rightarrow> Some (Inl kr, s1)
          | Inr (name, pset) \<Rightarrow>
              do { s2 \<leftarrow> pset_init k pset name s1; Some (Inr (name, pset), s2) } }"

definition ipc_pset_alloc_name ::
  "ipc_kernel \<Rightarrow> mach_port_name_t \<Rightarrow> ipc_kstate
     \<Rightarrow> ((kern_return_t + ipc_pset_t) \<times> ipc_kstate) option" where
  "ipc_pset_alloc_name k name s =
     do { (r, s1) \<leftarrow> ipc_object_alloc_name k IOT_PORT_SET MACH_PORT_TYPE_PORT_SET 0 name s;
          case r of
            Inl kr \<Rightarrow> Some (Inl kr, s1)
          | Inr pset \<Rightarrow> do { s2 \<leftarrow> pset_init k pset name s1; Some (Inr pset, s2) } }"

section \<open>Copyin\<close>

definition ipc_object_copyin ::
  "ipc_kernel \<Rightarrow> mach_port_name_t \<Rightarrow> mach_msg_type_name_t \<Rightarrow> ipc_kstate
     \<Rightarrow> ((kern_return_t + ipc_object_t) \<times> ipc_kstate) option" where
  "ipc_object_copyin k name msgt_name s =
     do { (r, s1) \<leftarrow> ipc_right_lookup_write name s;
          case r of
            Inl kr \<Rightarrow> Some (Inl kr, s1)
          | Inr entry \<Rightarrow> do {
              (c, s2) \<leftarrow> ipc_right_copyin k name entry msgt_name True s1;
              e \<leftarrow> entry_at s2 entry;
              s3 \<leftarrow> (if IE_BITS_TYPE (ie_bits e) = MACH_PORT_TYPE_NONE
                     then ipc_entry_dealloc s2 name entry else Some s2);
              s4 \<leftarrow> is_write_unlock s3;
              case c of
                Inl kr \<Rightarrow> Some (Inl kr, s4)
              | Inr (object, soright) \<Rightarrow>
                  do { s5 \<leftarrow> (if soright \<noteq> IP_NULL then ipc_notify_port_deleted k soright name s4
                              else Some s4);
                       Some (Inr object, s5) } } }"

text \<open>
  The kernel's own capabilities.  For \<open>MACH_MSG_TYPE_MOVE_RECEIVE\<close> the test of \<open>ip_destination\<close> reads
  the same word as \<open>ip_receiver\<close>.
\<close>

definition ipc_object_copyin_from_kernel ::
  "ipc_kernel \<Rightarrow> ipc_object_t \<Rightarrow> mach_msg_type_name_t \<Rightarrow> ipc_kstate \<Rightarrow> ipc_kstate option" where
  "ipc_object_copyin_from_kernel k object msgt_name s =
     do { kassert (IO_VALID object);
          if msgt_name = MACH_MSG_TYPE_MOVE_RECEIVE
          then do { s1 \<leftarrow> ip_lock object s;
                    p \<leftarrow> st_objects s1 object;
                    kassert (ip_active p);
                    s2 \<leftarrow> (if ip_destination p \<noteq> IP_NULL
                           then do { kassert (ip_receiver p = ipc_space_kernel k);
                                     s2 \<leftarrow> ipc_port_set_mscount object 0 s1;
                                     set_object object (\<lambda>p. p\<lparr>io_receiver_name := MACH_PORT_NULL,
                                       ip_data := IP_NULL\<rparr>) s2 }
                           else Some s1);
                    ip_unlock object s2 }
          else if msgt_name = MACH_MSG_TYPE_COPY_SEND
          then do { s1 \<leftarrow> ip_lock object s;
                    p \<leftarrow> st_objects s1 object;
                    s2 \<leftarrow> (if ip_active p
                           then do { kassert (ip_srights p > 0);
                                     set_object object (ip_srights_update (\<lambda>n. n + 1)) s1 }
                           else Some s1);
                    s3 \<leftarrow> ip_reference object s2;
                    ip_unlock object s3 }
          else if msgt_name = MACH_MSG_TYPE_MAKE_SEND
          then do { s1 \<leftarrow> ip_lock object s;
                    p \<leftarrow> st_objects s1 object;
                    kassert (ip_active p \<and> ip_receiver_name p \<noteq> MACH_PORT_NULL \<and>
                             ip_receiver p = ipc_space_kernel k);
                    s2 \<leftarrow> ip_reference object s1;
                    s3 \<leftarrow> set_object object make_send_counts s2;
                    ip_unlock object s3 }
          else if msgt_name = MACH_MSG_TYPE_MOVE_SEND
          then do { p \<leftarrow> st_objects s object; kassert (ip_srights p \<noteq> 0); Some s }
          else if msgt_name = MACH_MSG_TYPE_MAKE_SEND_ONCE
          then do { s1 \<leftarrow> ip_lock object s;
                    p \<leftarrow> st_objects s1 object;
                    kassert (ip_active p \<and> ip_receiver_name p \<noteq> MACH_PORT_NULL);
                    s2 \<leftarrow> ip_reference object s1;
                    s3 \<leftarrow> set_object object (ip_sorights_update (\<lambda>n. n + 1)) s2;
                    ip_unlock object s3 }
          else if msgt_name = MACH_MSG_TYPE_MOVE_SEND_ONCE
          then do { p \<leftarrow> st_objects s object; kassert (ip_sorights p \<noteq> 0); Some s }
          else None }"

definition ipc_object_destroy ::
  "ipc_kernel \<Rightarrow> ipc_object_t \<Rightarrow> mach_msg_type_name_t \<Rightarrow> ipc_kstate \<Rightarrow> ipc_kstate option" where
  "ipc_object_destroy k object msgt_name s =
     do { p \<leftarrow> st_objects s object;
          kassert (IO_VALID object \<and> io_otype p = IOT_PORT);
          if msgt_name = MACH_MSG_TYPE_PORT_SEND then ipc_port_release_send k object s
          else if msgt_name = MACH_MSG_TYPE_PORT_SEND_ONCE then ipc_notify_send_once k object s
          else if msgt_name = MACH_MSG_TYPE_PORT_RECEIVE then ipc_port_release_receive k object s
          else None }"

section \<open>Copyout\<close>

text \<open>A new entry receives the object, if the object is alive.\<close>

definition copyout_fresh ::
  "ipc_object_t \<Rightarrow> mach_port_name_t \<Rightarrow> ipc_entry_t \<Rightarrow> ipc_kstate
     \<Rightarrow> ((kern_return_t + mach_port_name_t \<times> ipc_entry_t) \<times> ipc_kstate) option" where
  "copyout_fresh object name entry s =
     do { e \<leftarrow> entry_at s entry;
          kassert (IE_BITS_TYPE (ie_bits e) = MACH_PORT_TYPE_NONE \<and> ie_object e = IO_NULL);
          s1 \<leftarrow> io_lock object s;
          p \<leftarrow> st_objects s1 object;
          if \<not> io_active p
          then do { s2 \<leftarrow> io_unlock object s1;
                    s3 \<leftarrow> ipc_entry_dealloc s2 name entry;
                    s4 \<leftarrow> is_write_unlock s3;
                    Some (Inl KERN_INVALID_CAPABILITY, s4) }
          else do { s2 \<leftarrow> set_entry entry (ie_object_update (\<lambda>_. object)) s1;
                    Some (Inr (name, entry), s2) } }"

partial_function (option) object_copyout_loop ::
  "ipc_kernel \<Rightarrow> ipc_object_t \<Rightarrow> mach_msg_type_name_t \<Rightarrow> ipc_kstate
     \<Rightarrow> ((kern_return_t + mach_port_name_t \<times> ipc_entry_t) \<times> ipc_kstate) option" where
  "object_copyout_loop k object msgt_name s =
     (if \<not> is_active (st_space s)
      then do { s1 \<leftarrow> is_write_unlock s; Some (Inl KERN_INVALID_TASK, s1) }
      else do {
        (rev, s1) \<leftarrow> (if msgt_name \<noteq> MACH_MSG_TYPE_PORT_SEND_ONCE then ipc_right_reverse object s
                        else Some (None, s));
        case rev of
          Some (name, entry) \<Rightarrow>
            do { e \<leftarrow> entry_at s1 entry;
                 kassert (has_bits (ie_bits e) MACH_PORT_TYPE_SEND_RECEIVE);
                 Some (Inr (name, entry), s1) }
        | None \<Rightarrow> do {
            (r, s2) \<leftarrow> ipc_entry_get s1;
            case r of
              Inl _ \<Rightarrow> do { (kr, s3) \<leftarrow> ipc_entry_grow_table (k_env k) ITS_SIZE_NONE s2;
                            if kr \<noteq> KERN_SUCCESS then Some (Inl kr, s3)
                            else object_copyout_loop k object msgt_name s3 }
            | Inr (name, entry) \<Rightarrow> copyout_fresh object name entry s2 } })"

definition ipc_object_copyout ::
  "ipc_kernel \<Rightarrow> ipc_object_t \<Rightarrow> mach_msg_type_name_t \<Rightarrow> bool \<Rightarrow> ipc_kstate
     \<Rightarrow> ((kern_return_t + mach_port_name_t) \<times> ipc_kstate) option" where
  "ipc_object_copyout k object msgt_name overflow s =
     do { p \<leftarrow> st_objects s object;
          kassert (IO_VALID object \<and> io_otype p = IOT_PORT);
          s1 \<leftarrow> is_write_lock s;
          (r, s2) \<leftarrow> object_copyout_loop k object msgt_name s1;
          case r of
            Inl kr \<Rightarrow> Some (Inl kr, s2)
          | Inr (name, entry) \<Rightarrow> do {
              (kr, s3) \<leftarrow> ipc_right_copyout name entry msgt_name overflow object s2;
              s4 \<leftarrow> is_write_unlock s3;
              Some (if kr = KERN_SUCCESS then Inr name else Inl kr, s4) } }"

definition ipc_object_copyout_name ::
  "ipc_kernel \<Rightarrow> ipc_object_t \<Rightarrow> mach_msg_type_name_t \<Rightarrow> bool \<Rightarrow> mach_port_name_t \<Rightarrow> ipc_kstate
     \<Rightarrow> (kern_return_t \<times> ipc_kstate) option" where
  "ipc_object_copyout_name k object msgt_name overflow name s =
     do { p \<leftarrow> st_objects s object;
          kassert (IO_VALID object \<and> io_otype p = IOT_PORT);
          (r, s1) \<leftarrow> ipc_entry_alloc_name (k_env k) name s;
          case r of
            Inl kr \<Rightarrow> Some (kr, s1)
          | Inr entry \<Rightarrow> do {
              (rev, s2) \<leftarrow> (if msgt_name \<noteq> MACH_MSG_TYPE_PORT_SEND_ONCE then ipc_right_reverse object s1
                              else Some (None, s1));
              case rev of
                Some (oname, oentry) \<Rightarrow>
                  if name \<noteq> oname
                  then do { s3 \<leftarrow> io_unlock object s2;
                            e \<leftarrow> entry_at s3 entry;
                            s4 \<leftarrow> (if IE_BITS_TYPE (ie_bits e) = MACH_PORT_TYPE_NONE
                                   then ipc_entry_dealloc s3 name entry else Some s3);
                            s5 \<leftarrow> is_write_unlock s4;
                            Some (KERN_RIGHT_EXISTS, s5) }
                  else do { e \<leftarrow> entry_at s2 entry;
                            kassert (entry = oentry \<and> has_bits (ie_bits e) MACH_PORT_TYPE_SEND_RECEIVE);
                            (kr, s3) \<leftarrow> ipc_right_copyout name entry msgt_name overflow object s2;
                            s4 \<leftarrow> is_write_unlock s3;
                            Some (kr, s4) }
              | None \<Rightarrow> do {
                  (inuse, s3) \<leftarrow> ipc_right_inuse entry s2;
                  if inuse then Some (KERN_NAME_EXISTS, s3)
                  else do {
                    (f, s4) \<leftarrow> copyout_fresh object name entry s3;
                    case f of
                      Inl kr \<Rightarrow> Some (kr, s4)
                    | Inr _ \<Rightarrow>
                        do { (kr, s5) \<leftarrow> ipc_right_copyout name entry msgt_name overflow object s4;
                             s6 \<leftarrow> is_write_unlock s5;
                             Some (kr, s6) } } } } }"

definition ipc_object_copyout_dest ::
  "ipc_kernel \<Rightarrow> ipc_object_t \<Rightarrow> mach_msg_type_name_t \<Rightarrow> ipc_kstate
     \<Rightarrow> (mach_port_name_t \<times> ipc_kstate) option" where
  "ipc_object_copyout_dest k object msgt_name s =
     do { p \<leftarrow> st_objects s object;
          kassert (IO_VALID object \<and> io_active p);
          s1 \<leftarrow> io_release object s;
          let mine = (ip_receiver p = st_self s);
          if msgt_name = MACH_MSG_TYPE_PORT_SEND
          then do {
            (nsrequest, mscount, s2) \<leftarrow> drop_send_right object s1;
            s3 \<leftarrow> ip_unlock object s2;
            s4 \<leftarrow> (if nsrequest \<noteq> IP_NULL then ipc_notify_no_senders k nsrequest mscount s3 else Some s3);
            Some (if mine then ip_receiver_name p else MACH_PORT_NULL, s4) }
          else if msgt_name = MACH_MSG_TYPE_PORT_SEND_ONCE
          then do {
            kassert (ip_sorights p > 0);
            if mine
            then do { s2 \<leftarrow> set_object object (ip_sorights_update (\<lambda>n. n - 1)) s1;
                      s3 \<leftarrow> ip_unlock object s2;
                      Some (ip_receiver_name p, s3) }
            else do { s2 \<leftarrow> ip_reference object s1;
                      s3 \<leftarrow> ip_unlock object s2;
                      s4 \<leftarrow> ipc_notify_send_once k object s3;
                      Some (MACH_PORT_NULL, s4) } }
          else None }"

definition ipc_object_rename ::
  "ipc_kernel \<Rightarrow> mach_port_name_t \<Rightarrow> mach_port_name_t \<Rightarrow> ipc_kstate
     \<Rightarrow> (kern_return_t \<times> ipc_kstate) option" where
  "ipc_object_rename k oname nname s =
     do { (r, s1) \<leftarrow> ipc_entry_alloc_name (k_env k) nname s;
          case r of
            Inl kr \<Rightarrow> Some (kr, s1)
          | Inr nentry \<Rightarrow> do {
              (inuse, s2) \<leftarrow> ipc_right_inuse nentry s1;
              if inuse then Some (KERN_NAME_EXISTS, s2)
              else do {
                (found, s3) \<leftarrow> (if oname = nname then Some (None, s2) else ipc_entry_lookup s2 oname);
                case found of
                  None \<Rightarrow> do { s4 \<leftarrow> ipc_entry_dealloc s3 nname nentry;
                               s5 \<leftarrow> is_write_unlock s4;
                               Some (KERN_INVALID_NAME, s5) }
                | Some oentry \<Rightarrow> ipc_right_rename oname oentry nname nentry s3 } } }"

definition ipc_port_copyout_send ::
  "ipc_kernel \<Rightarrow> ipc_port_t \<Rightarrow> ipc_kstate \<Rightarrow> (mach_port_name_t \<times> ipc_kstate) option" where
  "ipc_port_copyout_send k sright s =
     (if IP_VALID sright
      then do { (r, s1) \<leftarrow> ipc_object_copyout k sright MACH_MSG_TYPE_PORT_SEND True s;
                case r of
                  Inr name \<Rightarrow> Some (name, s1)
                | Inl kr \<Rightarrow>
                    do { s2 \<leftarrow> ipc_port_release_send k sright s1;
                         Some (if kr = KERN_INVALID_CAPABILITY then MACH_PORT_DEAD else MACH_PORT_NULL, s2) } }
      else Some (sright, s))"

end
