(* ===== verification/Ipc_Space_Ops.thy ===== *)
theory Ipc_Space_Ops
  imports Ipc_Object_Ops
begin

text \<open>
  The life of a space, \<open>osfmk/ipc/ipc_space.c\<close>: creation, cleaning and destruction.  The reference
  counts of spaces are not modelled.
\<close>

section \<open>Creation\<close>

text \<open>The loop that chains the entries of a new table into its free list.\<close>

definition create_table :: "nat \<Rightarrow> ipc_entry list" where
  "create_table new_size =
     (let t = map (\<lambda>index. blank_entry\<lparr>ie_bits := IE_BITS_GEN_MASK, ie_request := index + 1\<rparr>) [0..<new_size]
      in set_next (new_size - 1) 0 t)"

text \<open>
  \<open>space_alloc\<close> and \<open>table_alloc\<close> tell whether the two allocations succeed; \<open>fast\<close> is what the allocated
  memory holds in \<open>is_fast\<close>, which the routine leaves to its caller.
\<close>

definition ipc_space_create ::
  "bool \<Rightarrow> bool \<Rightarrow> bool \<Rightarrow> nat \<Rightarrow> (kern_return_t + ipc_space) option" where
  "ipc_space_create space_alloc table_alloc fast initial =
     (if \<not> space_alloc then Some (Inl KERN_RESOURCE_SHORTAGE)
      else if \<not> table_alloc then Some (Inl KERN_RESOURCE_SHORTAGE)
      else do {
        new_size \<leftarrow> nth_opt ipc_table_entries initial;
        Some (Inr \<lparr>is_active = True, is_growing = False, is_fast = fast,
                   is_table = create_table new_size, is_table_next = initial + 1,
                   is_tree = ipc_splay_tree_init empty_splay, is_tree_total = 0,
                   is_tree_small = 0, is_tree_hash = 0\<rparr>) })"

section \<open>Cleaning\<close>

text \<open>Waiting for the end of a growth of the table.\<close>

partial_function (option) wait_growing :: "ipc_kernel \<Rightarrow> ipc_kstate \<Rightarrow> ipc_kstate option" where
  "wait_growing k s =
     (if is_growing (st_space s)
      then do { s1 \<leftarrow> unlocked_window (k_env k) s; wait_growing k s1 }
      else Some s)"

fun clean_table :: "ipc_kernel \<Rightarrow> nat list \<Rightarrow> ipc_kstate \<Rightarrow> ipc_kstate option" where
  "clean_table k [] s = Some s"
| "clean_table k (index # is) s =
     do { entry \<leftarrow> nth_opt (space_table s) index;
          s1 \<leftarrow> (if IE_BITS_TYPE (ie_bits entry) \<noteq> MACH_PORT_TYPE_NONE
                 then ipc_right_destroy k (MACH_PORT_MAKE (of_nat index) (IE_BITS_GEN (ie_bits entry)))
                        (In_table index) s
                 else Some s);
          clean_table k is s1 }"

text \<open>
  \<open>ipc_splay_traverse_finish\<close> in the middle of a traversal.  The root is the node the traversal
  started from, and one of its child pointers is reversed: it holds the end of the chain of
  parents, the null pointer.
\<close>

fun traverse_abandon :: "'e node tree \<Rightarrow> 'e frame list \<Rightarrow> 'e node tree" where
  "traverse_abandon current [] = current"
| "traverse_abandon current (f # fs) =
     (case last (f # fs) of Via_l a r \<Rightarrow> Node Leaf a r | Via_r l a \<Rightarrow> Node l a Leaf)"

partial_function (option) clean_tree ::
  "ipc_kernel \<Rightarrow> ipc_tree_entry_t visit \<Rightarrow> ipc_kstate \<Rightarrow> ipc_kstate option" where
  "clean_tree k v s =
     (case v of
        Finished root \<Rightarrow> Some (put_tree (ipc_splay_traverse_finish (is_tree (st_space s)) root) s)
      | Visit current parent \<Rightarrow> do {
          let (name, p) = value current;
          tentry \<leftarrow> st_tree_entries s p;
          if IE_BITS_TYPE (ite_bits tentry) \<noteq> MACH_PORT_TYPE_NONE
          then do {
            let root = traverse_abandon current parent;
            s1 \<leftarrow> ipc_right_destroy k (ite_name tentry) (In_tree p)
                    (put_tree (ipc_splay_traverse_finish (is_tree (st_space s)) root) s);
            v1 \<leftarrow> ipc_splay_traverse_start (is_tree (st_space s1));
            clean_tree k v1 s1 }
          else do {
            v1 \<leftarrow> ipc_splay_traverse_next current parent True;
            clean_tree k v1 (set_ite p None s) } })"

definition ipc_space_clean :: "ipc_kernel \<Rightarrow> ipc_kstate \<Rightarrow> ipc_kstate option" where
  "ipc_space_clean k s =
     do { s1 \<leftarrow> is_write_lock s;
          s2 \<leftarrow> wait_growing k s1;
          s3 \<leftarrow> clean_table k [0..<is_table_size (st_space s2)] s2;
          v \<leftarrow> ipc_splay_traverse_start (is_tree (st_space s3));
          s4 \<leftarrow> clean_tree k v s3;
          is_write_unlock s4 }"

section \<open>Destruction\<close>

fun destroy_table :: "ipc_kernel \<Rightarrow> nat list \<Rightarrow> ipc_kstate \<Rightarrow> ipc_kstate option" where
  "destroy_table k [] s = Some s"
| "destroy_table k (index # is) s =
     do { entry \<leftarrow> nth_opt (space_table s) index;
          s1 \<leftarrow> (if IE_BITS_TYPE (ie_bits entry) \<noteq> MACH_PORT_TYPE_NONE
                 then ipc_right_clean k (MACH_PORT_MAKE (of_nat index) (IE_BITS_GEN (ie_bits entry)))
                        (In_table index) s
                 else Some s);
          destroy_table k is s1 }"

text \<open>The body of the loop over the tree; the entry is deleted and freed.\<close>

definition destroy_tree_entry ::
  "ipc_kernel \<Rightarrow> ipc_tree_entry_t node \<Rightarrow> ipc_kstate \<Rightarrow> (bool \<times> ipc_kstate) option" where
  "destroy_tree_entry k x s =
     (case x of (_, p) \<Rightarrow>
        do { tentry \<leftarrow> st_tree_entries s p;
             let type = IE_BITS_TYPE (ite_bits tentry);
             kassert (type \<noteq> MACH_PORT_TYPE_NONE);
             s1 \<leftarrow> ipc_right_clean k (ite_name tentry) (In_tree p) s;
             s2 \<leftarrow> (if type = MACH_PORT_TYPE_SEND
                    then do { te \<leftarrow> st_tree_entries s1 p; ipc_hash_global_delete s1 (ite_object te) p }
                    else Some s1);
             Some (True, set_ite p None s2) })"

definition ipc_space_destroy :: "ipc_kernel \<Rightarrow> ipc_kstate \<Rightarrow> ipc_kstate option" where
  "ipc_space_destroy k s =
     do { s1 \<leftarrow> is_write_lock s;
          let active = is_active (st_space s1);
          s2 \<leftarrow> is_write_unlock (set_space (is_active_update (\<lambda>_. False)) s1);
          if \<not> active then Some s2
          else do {
            s3 \<leftarrow> is_write_lock (others k s2);
            s4 \<leftarrow> wait_growing k s3;
            s5 \<leftarrow> is_write_unlock s4;
            s6 \<leftarrow> destroy_table k [0..<is_table_size (st_space s5)] s5;
            let s7 = set_table (\<lambda>_. []) s6;
            (so, tree) \<leftarrow> ipc_splay_traverse (traverse_option (destroy_tree_entry k))
                            (is_tree (st_space s7)) (Some s7);
            s8 \<leftarrow> so;
            Some (put_tree tree s8) } }"

end
