(* ===== verification/Ipc_Entry_Inv.thy ===== *)
theory Ipc_Entry_Inv
  imports Ipc_Entry
begin

text \<open>
  The invariant of a space and what the routines of \<open>ipc_entry.c\<close> mean: the capabilities of a
  space as a partial map from names, whichever of the table and the tree an entry is in.
\<close>

section \<open>The free list\<close>

fun free_chain :: "ipc_entry list \<Rightarrow> nat \<Rightarrow> nat list \<Rightarrow> bool" where
  "free_chain t i [] \<longleftrightarrow> ie_next (t ! i) = 0"
| "free_chain t i (j # js) \<longleftrightarrow> ie_next (t ! i) = j \<and> j \<noteq> 0 \<and> j < length t \<and> free_chain t j js"

lemma free_chain_cong:
  assumes "length t' = length t" "\<And>k. k = i \<or> k \<in> set fl \<Longrightarrow> ie_next (t' ! k) = ie_next (t ! k)"
  shows "free_chain t' i fl = free_chain t i fl"
  using assms by (induction fl arbitrary: i) auto

lemma free_chain_range: "free_chain t i fl \<Longrightarrow> j \<in> set fl \<Longrightarrow> 0 < j \<and> j < length t"
  by (induction fl arbitrary: i) auto

section \<open>The invariant\<close>

text \<open>
  The table.  The entries of \<open>P\<close> are in transition, allocated but without an object yet or about
  to be deallocated and without an object any more; every other entry without a right is in the
  free list, but for the first, which is its head.
\<close>

definition table_ok :: "ipc_entry list \<Rightarrow> nat set \<Rightarrow> bool" where
  "table_ok t P \<longleftrightarrow>
     t \<noteq> [] \<and> length t < 2 ^ 24 - 1 \<and>
     IE_BITS_TYPE (ie_bits (t ! 0)) = 0 \<and> ie_object (t ! 0) = 0 \<and>
     (\<forall>i<length t. i \<noteq> 0 \<and> IE_BITS_TYPE (ie_bits (t ! i)) = 0 \<longrightarrow>
        ie_object (t ! i) = 0 \<and> ie_bits (t ! i) AND NOT IE_BITS_GEN_MASK = 0) \<and>
     P \<subseteq> {i. 0 < i \<and> i < length t \<and> ie_object (t ! i) = 0} \<and>
     (\<exists>fl. free_chain t 0 fl \<and> distinct fl \<and>
        set fl = {i. 0 < i \<and> i < length t \<and> IE_BITS_TYPE (ie_bits (t ! i)) = 0} - P)"

text \<open>One tree entry, given the table: \<open>Q\<close> are the tree entries in transition.\<close>

definition node_ok :: "'a ipc_state_scheme \<Rightarrow> ipc_tree_entry_t set \<Rightarrow> mach_port_name_t \<Rightarrow> ipc_tree_entry_t \<Rightarrow> bool" where
  "node_ok s Q name p \<longleftrightarrow>
     MACH_PORT_VALID name \<and>
     (\<exists>te. st_tree_entries s p = Some te \<and> ipc_tree_entry.ite_name te = name \<and>
        ite_space te = st_self s \<and>
        ite_bits te AND (IE_BITS_GEN_MASK OR IE_BITS_COLLISION) = 0 \<and>
        (if p \<in> Q then ite_object te = 0 else IE_BITS_TYPE (ite_bits te) \<noteq> 0)) \<and>
     (let i = unat (MACH_PORT_INDEX name)
      in i < length (space_table s) \<longrightarrow>
           IE_BITS_GEN (ie_bits (space_table s ! i)) \<noteq> MACH_PORT_GEN name \<and>
           ie_bits (space_table s ! i) AND IE_BITS_COLLISION \<noteq> 0 \<and>
           (i = 0 \<or> IE_BITS_TYPE (ie_bits (space_table s ! i)) \<noteq> 0))"

abbreviation tree_nodes :: "'a ipc_state_scheme \<Rightarrow> ipc_tree_entry_t node list" where
  "tree_nodes s \<equiv> splay_nodes (is_tree (st_space s))"

text \<open>The indices counted by \<open>is_tree_small\<close>: those that a growth would bring into the table.\<close>

definition small_indices :: "'a ipc_state_scheme \<Rightarrow> nat set" where
  "small_indices s =
     {i \<in> (\<lambda>x. unat (MACH_PORT_INDEX (fst x))) ` set (tree_nodes s).
        length (space_table s) \<le> i \<and> i < ipc_table_entries ! is_table_next (st_space s)}"

definition tree_ok :: "'a ipc_state_scheme \<Rightarrow> ipc_tree_entry_t set \<Rightarrow> bool" where
  "tree_ok s Q \<longleftrightarrow>
     splay_inv (is_tree (st_space s)) \<and> is_tree_total (st_space s) = length (tree_nodes s) \<and>
     distinct (map snd (tree_nodes s)) \<and> Q \<subseteq> snd ` set (tree_nodes s) \<and>
     (\<forall>(name, p)\<in>set (tree_nodes s). node_ok s Q name p) \<and>
     (\<forall>i<length (space_table s). ie_bits (space_table s ! i) AND IE_BITS_COLLISION \<noteq> 0 \<longrightarrow>
        (\<exists>name p. (name, p) \<in> set (tree_nodes s) \<and> unat (MACH_PORT_INDEX name) = i)) \<and>
     is_tree_small (st_space s) = card (small_indices s) \<and>
     (is_fast (st_space s) \<longrightarrow> tree_nodes s = [])"

definition next_ok :: "'a ipc_state_scheme \<Rightarrow> bool" where
  "next_ok s \<longleftrightarrow>
     0 < is_table_next (st_space s) \<and> is_table_next (st_space s) < ipc_table_entries_size \<and>
     length (space_table s) = ipc_table_entries ! (is_table_next (st_space s) - 1)"

text \<open>The reverse hash tables hold exactly the pure send rights that are not in transition.\<close>

definition hash_ok :: "'a ipc_state_scheme \<Rightarrow> ipc_entry_t set \<Rightarrow> bool" where
  "hash_ok s E \<longleftrightarrow>
     hash_inv s \<and>
     (\<forall>i<length (space_table s). i \<in> hashed (space_table s) \<longleftrightarrow>
        IE_BITS_TYPE (ie_bits (space_table s ! i)) = MACH_PORT_TYPE_SEND \<and> In_table i \<notin> E) \<and>
     own_entries s = {p \<in> snd ` set (tree_nodes s). In_tree p \<notin> E \<and>
        (\<exists>te. st_tree_entries s p = Some te \<and> IE_BITS_TYPE (ite_bits te) = MACH_PORT_TYPE_SEND)}"

definition space_inv :: "'a ipc_state_scheme \<Rightarrow> ipc_entry_t set \<Rightarrow> bool" where
  "space_inv s E \<longleftrightarrow>
     table_ok (space_table s) {i. In_table i \<in> E} \<and> tree_ok s {p. In_tree p \<in> E} \<and>
     next_ok s \<and> hash_ok s E"

section \<open>Capabilities\<close>

text \<open>What a name denotes: the object, the right and its user references, and the request.\<close>

type_synonym capability = "ipc_object_t \<times> ipc_entry_bits_t \<times> nat"

definition entry_cap :: "ipc_entry \<Rightarrow> capability" where
  "entry_cap e = (ie_object e, ie_bits e AND IE_BITS_RIGHT_MASK, ie_request e)"

fun denotes :: "'a ipc_state_scheme \<Rightarrow> mach_port_name_t \<Rightarrow> ipc_entry_t \<Rightarrow> bool" where
  "denotes s name (In_table i) \<longleftrightarrow>
     i < length (space_table s) \<and> i = unat (MACH_PORT_INDEX name) \<and>
     IE_BITS_GEN (ie_bits (space_table s ! i)) = MACH_PORT_GEN name \<and>
     IE_BITS_TYPE (ie_bits (space_table s ! i)) \<noteq> 0"
| "denotes s name (In_tree p) \<longleftrightarrow>
     (name, p) \<in> set (tree_nodes s) \<and>
     (\<exists>te. st_tree_entries s p = Some te \<and> IE_BITS_TYPE (ite_bits te) \<noteq> 0)"

definition capability_at :: "'a ipc_state_scheme \<Rightarrow> mach_port_name_t \<Rightarrow> capability \<Rightarrow> bool" where
  "capability_at s name c \<longleftrightarrow> (\<exists>e v. denotes s name e \<and> entry_at s e = Some v \<and> entry_cap v = c)"

lemma tree_okD:
  assumes "tree_ok s Q"
  shows "splay_inv (is_tree (st_space s))" "is_tree_total (st_space s) = length (tree_nodes s)"
    "distinct (map snd (tree_nodes s))" "Q \<subseteq> snd ` set (tree_nodes s)"
    "(name, p) \<in> set (tree_nodes s) \<Longrightarrow> node_ok s Q name p"
    "i < length (space_table s) \<Longrightarrow> ie_bits (space_table s ! i) AND IE_BITS_COLLISION \<noteq> 0 \<Longrightarrow>
       \<exists>name p. (name, p) \<in> set (tree_nodes s) \<and> unat (MACH_PORT_INDEX name) = i"
    "is_tree_small (st_space s) = card (small_indices s)"
    "is_fast (st_space s) \<Longrightarrow> tree_nodes s = []"
  using assms unfolding tree_ok_def by blast+

lemma denotes_unique:
  assumes "tree_ok s Q" "denotes s name e" "denotes s name e'"
  shows "e = e'"
proof -
  have tab: "False" if "denotes s name (In_table i)" "denotes s name (In_tree p)" for i p
    using tree_okD(5) [OF assms(1), of name p] that by (auto simp: node_ok_def Let_def)
  have tree: "p = q" if "denotes s name (In_tree p)" "denotes s name (In_tree q)" for p q
    using that splay_tree.distinct_names [OF tree_okD(1) [OF assms(1)]]
    by (metis denotes.simps(2) map_of_is_SomeI option.inject)
  show ?thesis using assms(2,3) tab tree by (cases e; cases e') auto
qed

section \<open>Lookup\<close>

lemma collision_index:
  assumes "tree_ok s Q" "ipc_entry_tree_collision s name = (coll, s')"
  shows "coll \<longleftrightarrow> (\<exists>n p. (n, p) \<in> set (tree_nodes s) \<and> MACH_PORT_INDEX n = MACH_PORT_INDEX name)"
    and "\<exists>tree. s' = put_tree tree s \<and> splay_nodes tree = tree_nodes s \<and> splay_inv tree"
proof -
  obtain lower upper tree where b: "ipc_splay_tree_bounds (is_tree (st_space s)) name = ((lower, upper), tree)"
    by (metis prod.collapse)
  have inv: "splay_inv (is_tree (st_space s))" using tree_okD(1) [OF assms(1)] .
  have valid: "\<forall>x\<in>splay_dom (is_tree (st_space s)). MACH_PORT_VALID x"
    using tree_okD(5) [OF assms(1)] by (auto simp: node_ok_def)
  show "coll \<longleftrightarrow> (\<exists>n p. (n, p) \<in> set (tree_nodes s) \<and> MACH_PORT_INDEX n = MACH_PORT_INDEX name)"
    using splay_tree.collision [OF inv valid b] assms(2) b
    by (force simp: ipc_entry_tree_collision_def Let_def)
  show "\<exists>tree. s' = put_tree tree s \<and> splay_nodes tree = tree_nodes s \<and> splay_inv tree"
    using splay_tree.bounds_law [OF inv b] assms(2) b
    by (auto simp: ipc_entry_tree_collision_def Let_def)
qed

text \<open>A change of the shape of the tree that keeps its nodes is invisible.\<close>

lemma put_tree_same:
  assumes "splay_nodes tree = tree_nodes s" "splay_inv tree"
  shows "splay_inv (is_tree (st_space s)) \<Longrightarrow> space_inv (put_tree tree s) E = space_inv s E"
    and "denotes (put_tree tree s) name e = denotes s name e"
    and "entry_at (put_tree tree s) e = entry_at s e"
proof -
  show den: "denotes (put_tree tree s) name e = denotes s name e"
    and ent: "entry_at (put_tree tree s) e = entry_at s e" for name e
    using assms(1) by (cases e; simp)+
  have "node_ok (put_tree tree s) = node_ok s" by (simp add: node_ok_def fun_eq_iff)
  moreover have "small_indices (put_tree tree s) = small_indices s"
    using assms(1) by (simp add: small_indices_def)
  moreover have "hash_ok (put_tree tree s) E = hash_ok s E"
    using assms(1) by (simp add: hash_ok_def hash_inv_def global_inv_def own_entries_def
        global_entries_def IH_GLOBAL_HASH_def grev_contents_def)
  ultimately show "space_inv (put_tree tree s) E = space_inv s E" if "splay_inv (is_tree (st_space s))"
    using assms that by (simp add: space_inv_def tree_ok_def next_ok_def)
qed

lemma entry_tree_lookup_spec:
  assumes "tree_ok s Q"
  shows "\<exists>r tree. entry_tree_lookup s name = Some (r, put_tree tree s) \<and>
    splay_nodes tree = tree_nodes s \<and> splay_inv tree \<and>
    (\<forall>e. r = Some e \<longleftrightarrow> (\<exists>p. e = In_tree p \<and> denotes s name e))"
proof -
  have inv: "splay_inv (is_tree (st_space s))" using tree_okD(1) [OF assms] .
  obtain r tree where l: "ipc_splay_tree_lookup (is_tree (st_space s)) name = (r, tree)"
    by (metis prod.collapse)
  have r: "r = Some p \<longleftrightarrow> (name, p) \<in> set (tree_nodes s)" for p
    using splay_tree.lookup_iff [OF inv, of name p] l by simp
  note t = splay_tree.lookup_law [OF inv l]
  show ?thesis
  proof (cases r)
    case None
    then show ?thesis using l r t by (auto simp: entry_tree_lookup_def)
  next
    case (Some p)
    then obtain te where te: "st_tree_entries s p = Some te"
      using r tree_okD(5) [OF assms, of name p] by (auto simp: node_ok_def)
    let ?r = "if IE_BITS_TYPE (ite_bits te) = 0 then None else Some (In_tree p)"
    have "entry_tree_lookup s name = Some (?r, put_tree tree s)"
      using l Some te by (simp add: entry_tree_lookup_def)
    moreover have "(name, q) \<in> set (tree_nodes s) \<longleftrightarrow> q = p" for q using Some r [of q] by auto
    then have "?r = Some e \<longleftrightarrow> (\<exists>q. e = In_tree q \<and> denotes s name e)" for e
      using te by auto
    ultimately show ?thesis using t by blast
  qed
qed

lemma entry_lookup_spec:
  assumes inv: "space_inv s E" and fast: "is_fast (st_space s) \<Longrightarrow> unat (MACH_PORT_INDEX name) < length (space_table s)"
  shows "\<exists>r s'. ipc_entry_lookup s name = Some (r, s') \<and> space_inv s' E \<and>
    (\<forall>e. r = Some e \<longleftrightarrow> denotes s name e) \<and>
    (\<forall>e. entry_at s' e = entry_at s e) \<and> (\<forall>n e. denotes s' n e = denotes s n e)"
proof -
  let ?i = "unat (MACH_PORT_INDEX name)" and ?t = "space_table s"
  have tok: "tree_ok s {p. In_tree p \<in> E}" using inv by (simp add: space_inv_def)
  obtain r tree where tl: "entry_tree_lookup s name = Some (r, put_tree tree s)"
    "splay_nodes tree = tree_nodes s" "splay_inv tree"
    "\<And>e. r = Some e \<longleftrightarrow> (\<exists>p. e = In_tree p \<and> denotes s name e)"
    using entry_tree_lookup_spec [OF tok] by blast
  have same: "space_inv (put_tree tree s) E" using put_tree_same(1) [OF tl(2,3) tree_okD(1) [OF tok]] inv by simp
  note same = same put_tree_same(2,3) [OF tl(2,3)]
  have notree: "\<not> denotes s name (In_tree p)" if "is_tree_total (st_space s) = 0 \<or> is_fast (st_space s)" for p
    using that tree_okD(2,8) [OF tok] by auto
  show ?thesis
  proof (cases "is_fast (st_space s)")
    case True
    have "(if denotes s name (In_table ?i) then Some (In_table ?i) else None) = Some e \<longleftrightarrow> denotes s name e" for e
      using notree True by (cases e) auto
    moreover have "ipc_entry_lookup s name =
        Some (if denotes s name (In_table ?i) then Some (In_table ?i) else None, s)"
      using True fast by (simp add: ipc_entry_lookup_def MACH_PORT_TYPE_NONE_def)
    ultimately show ?thesis using inv by blast
  next
    case False
    note nf = False
    let ?b = "ie_bits (?t ! ?i)"
    consider (tree) "?i < length ?t" "IE_BITS_GEN ?b \<noteq> MACH_PORT_GEN name" "?b AND IE_BITS_COLLISION \<noteq> 0"
      | (none) "?i < length ?t" "IE_BITS_GEN ?b \<noteq> MACH_PORT_GEN name" "?b AND IE_BITS_COLLISION = 0"
      | (table) "?i < length ?t" "IE_BITS_GEN ?b = MACH_PORT_GEN name"
      | (empty) "\<not> ?i < length ?t" "is_tree_total (st_space s) = 0"
      | (large) "\<not> ?i < length ?t" "is_tree_total (st_space s) \<noteq> 0" by blast
    then show ?thesis
    proof cases
      case tree
      then have "r = Some e \<longleftrightarrow> denotes s name e" for e using tl(4) by (cases e) auto
      moreover have "ipc_entry_lookup s name = Some (r, put_tree tree s)"
        using tree nf tl(1) by (simp add: ipc_entry_lookup_def)
      ultimately show ?thesis using same by blast
    next
      case none
      then have "\<not> denotes s name e" for e
        using tree_okD(5) [OF tok, of name] by (cases e) (auto simp: node_ok_def Let_def)
      moreover have "ipc_entry_lookup s name = Some (None, s)"
        using none nf by (simp add: ipc_entry_lookup_def)
      ultimately show ?thesis using inv by blast
    next
      case table
      then have "\<not> denotes s name (In_tree p)" for p
        using tree_okD(5) [OF tok, of name p] by (auto simp: node_ok_def Let_def)
      then have "(if denotes s name (In_table ?i) then Some (In_table ?i) else None) = Some e \<longleftrightarrow> denotes s name e" for e
        by (cases e) auto
      moreover have "ipc_entry_lookup s name =
          Some (if denotes s name (In_table ?i) then Some (In_table ?i) else None, s)"
        using table nf by (simp add: ipc_entry_lookup_def MACH_PORT_TYPE_NONE_def)
      ultimately show ?thesis using inv by blast
    next
      case empty
      then have "\<not> denotes s name e" for e using notree by (cases e) auto
      moreover have "ipc_entry_lookup s name = Some (None, s)"
        using empty nf by (simp add: ipc_entry_lookup_def)
      ultimately show ?thesis using inv by blast
    next
      case large
      then have "r = Some e \<longleftrightarrow> denotes s name e" for e using tl(4) by (cases e) auto
      moreover have "ipc_entry_lookup s name = Some (r, put_tree tree s)"
        using large nf tl(1) by (simp add: ipc_entry_lookup_def)
      ultimately show ?thesis using same by blast
    qed
  qed
qed

section \<open>Changes of the table that other parts do not see\<close>

lemma hash_table_cong:
  assumes "length t' = length t"
    "\<And>i. i < length t \<Longrightarrow> slot t' i = slot t i" "\<And>i. i \<in> hashed t \<Longrightarrow> ie_object (t' ! i) = ie_object (t ! i)"
  shows "hashed t' = hashed t" and "rev_inv t \<Longrightarrow> rev_inv t' \<and> rev_contents t' = rev_contents t"
proof -
  show h: "hashed t' = hashed t" using assms(1,2) by (auto simp: hashed_def hashed_but_def)
  assume r: "rev_inv t"
  then have inv: "local_inv t" by (simp add: rev_inv_def)
  have "probing t' (length t')"
  proof (rule probingI)
    fix h assume h: "h < length t'" "slot t' h \<noteq> 0"
    then have h': "h < length t" "slot t h \<noteq> 0" "slot t' h = slot t h" using assms(1,2) by auto
    note D = local_invD [OF inv h'(1,2)]
    show "slot t' h < length t'" using D(1) h'(3) assms(1) by simp
    have "slot t h \<in> hashed t" using h' by (auto simp: hashed_def hashed_but_def)
    then have "home t' (slot t' h) = home t (slot t h)" using h'(3) assms(1,3) by simp
    then show "slot t' x \<noteq> 0" if "x < length t'"
      "away t' (home t' (slot t' h)) x < away t' (home t' (slot t' h)) h" for x
      using D(2) [of x] that assms(1,2) by simp
    show "h = k" if "k < length t'" "slot t' h = slot t' k" for k
      using D(3) [of k] that assms(1,2) h'(3) by simp
  qed
  then have "local_inv t'" using inv assms(1) by (auto simp: local_inv_def)
  then show "rev_inv t' \<and> rev_contents t' = rev_contents t"
    using r h assms(3) by (auto simp: rev_inv_def rev_contents_def inj_on_def)
qed

lemma hash_inv_table_cong:
  assumes "length t' = length (space_table s)"
    "\<And>i. i < length t' \<Longrightarrow> slot t' i = slot (space_table s) i"
    "\<And>i. i \<in> hashed (space_table s) \<Longrightarrow> ie_object (t' ! i) = ie_object (space_table s ! i)"
    "hash_inv s"
  shows "hash_inv (set_table (\<lambda>_. t') s)"
  using assms hash_table_cong [of t' "space_table s"] by (auto simp: hash_inv_def)

lemma own_entries_set_table [simp]: "own_entries (set_table f s) = own_entries s"
  by (simp add: own_entries_def global_entries_def)

text \<open>The slots are the same, and so are the entries that have to be in them.\<close>

lemma hash_ok_table_cong:
  assumes "length t' = length (space_table s)"
    "\<And>i. i < length t' \<Longrightarrow> slot t' i = slot (space_table s) i"
    "\<And>i. i \<in> hashed (space_table s) \<Longrightarrow> ie_object (t' ! i) = ie_object (space_table s ! i)"
    "\<And>i. i < length t' \<Longrightarrow> IE_BITS_TYPE (ie_bits (t' ! i)) = MACH_PORT_TYPE_SEND \<and> In_table i \<notin> E' \<longleftrightarrow>
       IE_BITS_TYPE (ie_bits (space_table s ! i)) = MACH_PORT_TYPE_SEND \<and> In_table i \<notin> E"
    "\<And>p. In_tree p \<in> E' \<longleftrightarrow> In_tree p \<in> E"
    "hash_ok s E"
  shows "hash_ok (set_table (\<lambda>_. t') s) E'"
proof -
  let ?t = "space_table s"
  have h: "hashed t' = hashed ?t" using hash_table_cong(1) [of t' ?t] assms(1-3) by simp
  have "i \<in> hashed t' \<longleftrightarrow>
      IE_BITS_TYPE (ie_bits (t' ! i)) = MACH_PORT_TYPE_SEND \<and> In_table i \<notin> E'" if "i < length t'" for i
    unfolding h assms(4) [OF that] using assms(1,6) that by (simp add: hash_ok_def)
  moreover have "hash_inv (set_table (\<lambda>_. t') s)"
    using hash_inv_table_cong [OF assms(1-3)] assms(6) by (simp add: hash_ok_def)
  ultimately show ?thesis using assms(5,6) by (simp add: hash_ok_def)
qed

lemma tree_ok_table_cong:
  assumes "length t' = length (space_table s)"
    "\<And>i. i < length t' \<Longrightarrow> ie_bits (space_table s ! i) AND IE_BITS_COLLISION \<noteq> 0 \<Longrightarrow>
       IE_BITS_TYPE (ie_bits (t' ! i)) = IE_BITS_TYPE (ie_bits (space_table s ! i))"
    "\<And>i. i < length t' \<Longrightarrow> ie_bits (t' ! i) AND IE_BITS_COLLISION = ie_bits (space_table s ! i) AND IE_BITS_COLLISION"
    "\<And>i. i < length t' \<Longrightarrow> ie_bits (space_table s ! i) AND IE_BITS_COLLISION \<noteq> 0 \<Longrightarrow>
       IE_BITS_GEN (ie_bits (t' ! i)) = IE_BITS_GEN (ie_bits (space_table s ! i))"
    "tree_ok s Q"
  shows "tree_ok (set_table (\<lambda>_. t') s) Q"
proof -
  have "node_ok (set_table (\<lambda>_. t') s) Q name p" if "node_ok s Q name p" for name p
    using that assms(1-4) by (auto simp: node_ok_def Let_def)
  moreover have "small_indices (set_table (\<lambda>_. t') s) = small_indices s"
    using assms(1) by (simp add: small_indices_def)
  ultimately show ?thesis
    using assms(1,3,5) by (auto simp: tree_ok_def)
qed

section \<open>Allocation from the free list\<close>

lemma IE_BITS_NEW_GEN_pure:
  "IE_BITS_TYPE (IE_BITS_NEW_GEN b) = 0" "IE_BITS_NEW_GEN b AND IE_BITS_COLLISION = 0"
  "IE_BITS_NEW_GEN b AND NOT IE_BITS_GEN_MASK = 0" "IE_BITS_GEN (IE_BITS_NEW_GEN b) = IE_BITS_NEW_GEN b"
  by (rule bit_eqI; auto simp: bits_defs bit_simps bit_facts)+

lemma pure_gen:
  assumes "b AND NOT IE_BITS_GEN_MASK = 0"
  shows "IE_BITS_TYPE b = 0" "b AND IE_BITS_COLLISION = 0"
proof -
  have "\<not> bit b n" if "n < 24" for n
    using arg_cong [OF assms, of "\<lambda>w. bit w n"] that
    by (simp add: bit_simps IE_BITS_GEN_MASK_def bit_facts)
  then show "IE_BITS_TYPE b = 0" "b AND IE_BITS_COLLISION = 0"
    by (auto intro!: bit_word_eqI simp: bits_defs bit_simps bit_facts)
qed

lemma free_chain_move:
  assumes "free_chain t i fl" "length t' = length t" "ie_next (t' ! j) = ie_next (t ! i)"
    "\<And>k. k \<in> set fl \<Longrightarrow> ie_next (t' ! k) = ie_next (t ! k)"
  shows "free_chain t' j fl"
proof (cases fl)
  case Nil
  then show ?thesis using assms by simp
next
  case (Cons k ks)
  then show ?thesis using assms free_chain_cong [of t' t k ks] by auto
qed

text \<open>
  Two tables that agree on the type and the object of every entry, and on the generation of the
  entries in use, differ only in their free list.
\<close>

lemma table_okI:
  assumes "table_ok t P" "length t' = length t"
    "\<And>i. i < length t \<Longrightarrow> IE_BITS_TYPE (ie_bits (t' ! i)) = IE_BITS_TYPE (ie_bits (t ! i))"
    "\<And>i. i < length t \<Longrightarrow> ie_object (t' ! i) = ie_object (t ! i)"
    "\<And>i. i < length t \<Longrightarrow> i \<noteq> 0 \<Longrightarrow> IE_BITS_TYPE (ie_bits (t ! i)) = 0 \<Longrightarrow> ie_bits (t' ! i) AND NOT IE_BITS_GEN_MASK = 0"
    "P' \<subseteq> {i. 0 < i \<and> i < length t \<and> ie_object (t ! i) = 0}"
    "free_chain t' 0 fl" "distinct fl"
    "set fl = {i. 0 < i \<and> i < length t \<and> IE_BITS_TYPE (ie_bits (t ! i)) = 0} - P'"
  shows "table_ok t' P'"
proof -
  have ty: "{i. 0 < i \<and> i < length t' \<and> IE_BITS_TYPE (ie_bits (t' ! i)) = 0} =
      {i. 0 < i \<and> i < length t \<and> IE_BITS_TYPE (ie_bits (t ! i)) = 0}"
    using assms(2,3) by auto
  have ne: "0 < length t" using assms(1) by (simp add: table_ok_def)
  have "\<exists>fl. free_chain t' 0 fl \<and> distinct fl \<and>
      set fl = {i. 0 < i \<and> i < length t' \<and> IE_BITS_TYPE (ie_bits (t' ! i)) = 0} - P'"
    unfolding ty using assms(7-9) by blast
  moreover have "P' \<subseteq> {i. 0 < i \<and> i < length t' \<and> ie_object (t' ! i) = 0}"
    using assms(2,4,6) by auto
  moreover have "ie_object (t' ! i) = 0 \<and> ie_bits (t' ! i) AND NOT IE_BITS_GEN_MASK = 0"
    if "i < length t'" "i \<noteq> 0" "IE_BITS_TYPE (ie_bits (t' ! i)) = 0" for i
    using that assms(1-5) by (simp add: table_ok_def)
  moreover have "t' \<noteq> []" using ne assms(2) by auto
  ultimately show ?thesis
    using assms(1,2) assms(3) [OF ne] assms(4) [OF ne] unfolding table_ok_def by simp
qed

lemma table_ok_get:
  assumes ok: "table_ok t P" and i: "ie_next (t ! 0) = i" "i \<noteq> 0"
  shows "i < length t" "IE_BITS_TYPE (ie_bits (t ! i)) = 0" "i \<notin> P"
    "table_ok ((set_next 0 (ie_next (t ! i)) t)[i := (t ! i)\<lparr>ie_bits := IE_BITS_NEW_GEN b, ie_request := 0\<rparr>]) (insert i P)"
proof -
  obtain fl where fl: "free_chain t 0 fl" "distinct fl"
    "set fl = {i. 0 < i \<and> i < length t \<and> IE_BITS_TYPE (ie_bits (t ! i)) = 0} - P"
    using ok by (auto simp: table_ok_def)
  then obtain js where js: "fl = i # js" using i by (cases fl) auto
  show r: "i < length t" "IE_BITS_TYPE (ie_bits (t ! i)) = 0" "i \<notin> P" using fl(3) js by auto
  let ?t = "(set_next 0 (ie_next (t ! i)) t)[i := (t ! i)\<lparr>ie_bits := IE_BITS_NEW_GEN b, ie_request := 0\<rparr>]"
  have ne: "0 < length t" using r(1) by linarith
  have bits: "ie_bits (?t ! k) = (if k = i then IE_BITS_NEW_GEN b else ie_bits (t ! k))"
    and obj: "ie_object (?t ! k) = ie_object (t ! k)" if "k < length t" for k
    using that r(1) ne by (auto simp: nth_list_update)
  have js0: "0 \<notin> set js" using fl(1) js free_chain_range by fastforce
  show "table_ok ?t (insert i P)"
  proof (rule table_okI [OF ok, where fl = js])
    show "free_chain ?t 0 js"
      by (rule free_chain_move [of t i])
        (use fl(1,2) js js0 i(2) ne in \<open>auto simp: nth_list_update\<close>)
    show "set js = {i. 0 < i \<and> i < length t \<and> IE_BITS_TYPE (ie_bits (t ! i)) = 0} - insert i P"
      using fl(2,3) js by auto
    show "insert i P \<subseteq> {i. 0 < i \<and> i < length t \<and> ie_object (t ! i) = 0}"
      using ok r i(2) by (auto simp: table_ok_def)
  next
    fix k assume "k < length t" "k \<noteq> 0" "IE_BITS_TYPE (ie_bits (t ! k)) = 0"
    then show "ie_bits (?t ! k) AND NOT IE_BITS_GEN_MASK = 0"
      using ok bits [of k] IE_BITS_NEW_GEN_pure(3) by (auto simp: table_ok_def)
  next
    fix k assume "k < length t"
    then show "IE_BITS_TYPE (ie_bits (?t ! k)) = IE_BITS_TYPE (ie_bits (t ! k))"
      "ie_object (?t ! k) = ie_object (t ! k)"
      using bits [of k] obj r(2) IE_BITS_NEW_GEN_pure(1) by auto
  next
  qed (use js fl(2) in auto)
qed

text \<open>The capabilities of a space are the same in two states.\<close>

definition same_caps :: "'a ipc_state_scheme \<Rightarrow> 'a ipc_state_scheme \<Rightarrow> bool" where
  "same_caps s s' \<longleftrightarrow> (\<forall>n c. capability_at s' n c = capability_at s n c)"

lemma same_capsI:
  assumes "\<And>n e. denotes s' n e = denotes s n e"
    and "\<And>n e. denotes s n e \<Longrightarrow> map_option entry_cap (entry_at s' e) = map_option entry_cap (entry_at s e)"
  shows "same_caps s s'"
  unfolding same_caps_def capability_at_def
proof (intro allI iffI)
  fix n c
  assume "\<exists>e v. denotes s' n e \<and> entry_at s' e = Some v \<and> entry_cap v = c"
  then obtain e v where "denotes s n e" "entry_at s' e = Some v" "entry_cap v = c" using assms(1) by auto
  then show "\<exists>e v. denotes s n e \<and> entry_at s e = Some v \<and> entry_cap v = c"
    using assms(2) [of n e] by (auto simp: map_option_case split: option.splits)
next
  fix n c
  assume "\<exists>e v. denotes s n e \<and> entry_at s e = Some v \<and> entry_cap v = c"
  then obtain e v where "denotes s n e" "entry_at s e = Some v" "entry_cap v = c" by auto
  then show "\<exists>e v. denotes s' n e \<and> entry_at s' e = Some v \<and> entry_cap v = c"
    using assms(1) assms(2) [of n e] by (auto simp: map_option_case split: option.splits)
qed

lemma unat_u32_of_nat: "i < 2 ^ 24 \<Longrightarrow> unat (of_nat i :: u32) = i"
  by (simp add: unsigned_of_nat take_bit_nat_eq_self_iff)

lemma make_name_facts:
  assumes "i < 2 ^ 24"
  shows "unat (MACH_PORT_INDEX (MACH_PORT_MAKE (of_nat i) gen)) = i"
    and "MACH_PORT_GEN (MACH_PORT_MAKE (of_nat i) gen) = IE_BITS_GEN gen"
    and "0 < i \<Longrightarrow> i < 2 ^ 24 - 1 \<Longrightarrow> MACH_PORT_VALID (MACH_PORT_MAKE (of_nat i) gen)"
proof -
  let ?n = "MACH_PORT_MAKE (of_nat i) gen"
  show idx: "unat (MACH_PORT_INDEX ?n) = i"
    using assms by (simp add: index_make unat_u32_of_nat)
  show "MACH_PORT_GEN ?n = IE_BITS_GEN gen"
    by (simp add: gen_make IE_BITS_GEN_def IE_BITS_GEN_MASK_def)
  assume "0 < i" "i < 2 ^ 24 - 1"
  moreover have "unat (MACH_PORT_INDEX 0) = 0" "unat (MACH_PORT_INDEX (NOT 0)) = 2 ^ 24 - 1"
    by (simp_all add: unat_MACH_PORT_INDEX unsigned_minus_1_eq_mask mask_eq_exp_minus_1)
  ultimately show "MACH_PORT_VALID ?n"
    using idx unfolding MACH_PORT_VALID_def MACH_PORT_NULL_def MACH_PORT_DEAD_def
    by (metis less_irrefl)
qed

lemma entry_get_spec:
  assumes inv: "space_inv s E"
  shows "ipc_entry_get s = Some (Inl KERN_NO_SPACE, s) \<and> ie_next (space_table s ! 0) = 0 \<or>
    (\<exists>i gen s'. ipc_entry_get s = Some (Inr (MACH_PORT_MAKE (of_nat i) gen, In_table i), s') \<and>
       0 < i \<and> i < 2 ^ 24 - 1 \<and> IE_BITS_GEN gen = gen \<and> In_table i \<notin> E \<and> space_inv s' (insert (In_table i) E) \<and> same_caps s s' \<and>
       (\<forall>c. \<not> capability_at s (MACH_PORT_MAKE (of_nat i) gen) c) \<and>
       (\<exists>v. entry_at s' (In_table i) = Some v \<and> ie_object v = 0 \<and> ie_bits v = gen \<and> ie_request v = 0))"
proof -
  let ?t = "space_table s" and ?P = "{i. In_table i \<in> E}" and ?Q = "{p. In_tree p \<in> E}"
  have ok: "table_ok ?t ?P" "tree_ok s ?Q" "next_ok s" "hash_ok s E" using inv by (auto simp: space_inv_def)
  have ne: "0 < length ?t" "length ?t < 2 ^ 24 - 1" using ok(1) by (auto simp: table_ok_def)
  define i where "i = ie_next (?t ! 0)"
  show ?thesis
  proof (cases "i = 0")
    case True
    then show ?thesis using ne(1) by (simp add: ipc_entry_get_def i_def)
  next
    case False
    note g = table_ok_get [OF ok(1) i_def [symmetric] False]
    define gen where "gen = IE_BITS_NEW_GEN (ie_bits (?t ! i))"
    define t' where "t' = (set_next 0 (ie_next (?t ! i)) ?t)[i := (?t ! i)\<lparr>ie_bits := gen, ie_request := 0\<rparr>]"
    let ?s = "set_table (\<lambda>_. t') s" and ?n = "MACH_PORT_MAKE (of_nat i) gen"
    have len: "length t' = length ?t" by (simp add: t'_def)
    have i24: "i < 2 ^ 24 - 1" using g(1) ne(2) by simp
    have bits: "ie_bits (t' ! k) = (if k = i then gen else ie_bits (?t ! k))"
      and obj: "ie_object (t' ! k) = ie_object (?t ! k)"
      and ind: "slot t' k = slot ?t k" if "k < length ?t" for k
      using that g(1) ne(1) by (auto simp: nth_list_update t'_def)
    have zero: "IE_BITS_TYPE (ie_bits (?t ! i)) = 0" "ie_bits (?t ! i) AND IE_BITS_COLLISION = 0" "ie_object (?t ! i) = 0"
      using g(1,2) False ok(1) pure_gen [of "ie_bits (?t ! i)"] by (auto simp: table_ok_def)
    have pure: "IE_BITS_TYPE gen = 0" "gen AND IE_BITS_COLLISION = 0" "IE_BITS_GEN gen = gen"
      by (simp_all add: gen_def IE_BITS_NEW_GEN_pure)
    have get: "ipc_entry_get s = Some (Inr (?n, In_table i), ?s)"
      using False g(1) ne(1) by (simp add: ipc_entry_get_def i_def [symmetric] gen_def [symmetric] t'_def Let_def)
    have "tree_ok ?s ?Q"
      by (rule tree_ok_table_cong [OF _ _ _ _ ok(2)]) (use len bits zero pure in auto)
    moreover have "hash_ok ?s (insert (In_table i) E)"
    proof (rule hash_ok_table_cong [OF _ _ _ _ _ ok(4)])
      fix k assume "k \<in> hashed ?t"
      then have "k < length ?t" using hashed_less ok(4) by (auto simp: hash_ok_def hash_inv_def rev_inv_def)
      then show "ie_object (t' ! k) = ie_object (?t ! k)" using obj by simp
    qed (use len bits zero pure ind in \<open>auto simp: type_values\<close>)
    moreover have "table_ok t' (insert i ?P)" using g(4) unfolding t'_def gen_def .
    moreover have "{j. In_table j \<in> insert (In_table i) E} = insert i ?P"
      "{p. In_tree p \<in> insert (In_table i) E} = ?Q" by auto
    moreover have "next_ok ?s" using ok(3) len by (simp add: next_ok_def)
    ultimately have inv': "space_inv ?s (insert (In_table i) E)"
      unfolding space_inv_def by simp
    have den: "denotes ?s n e = denotes s n e" for n e
    proof (cases e)
      case (In_table k)
      then show ?thesis using len bits [of k] zero pure by (cases "k = i") auto
    qed simp
    have "same_caps s ?s"
    proof (rule same_capsI [OF den])
      fix n e assume d: "denotes s n e"
      show "map_option entry_cap (entry_at ?s e) = map_option entry_cap (entry_at s e)"
      proof (cases e)
        case (In_table k)
        then have "k \<noteq> i" "k \<noteq> 0" "k < length ?t" using d zero(1) ok(1) by (auto simp: table_ok_def)
        then show ?thesis using In_table len by (simp add: t'_def)
      qed simp
    qed
    moreover have "\<not> denotes s ?n e" for e
    proof (cases e)
      case (In_table k)
      then show ?thesis using make_name_facts(1) [of i gen] i24 zero(1) by auto
    next
      case (In_tree p)
      then show ?thesis
        using make_name_facts(1) [of i gen] i24 g(1) zero(2) tree_okD(5) [OF ok(2), of ?n p]
        by (auto simp: node_ok_def Let_def)
    qed
    ultimately show ?thesis
      using get inv' i24 False g(3) pure(3) g(1) len zero(3)
      by (intro disjI2 exI [of _ i] exI [of _ gen] exI [of _ ?s]) (auto simp: capability_at_def t'_def)
  qed
qed

end
