(* ===== verification/Ipc_Requests.thy ===== *)
theory Ipc_Requests
  imports Ipc_Port
begin

text \<open>
  Tables of dead-name requests as slot stores: an interface that says what taking, giving back and
  growing mean for the requests a table holds, its interpretation on the tables of
  \<open>ipc_port.c\<close>, and what the routines on ports owe to it.
\<close>

section \<open>Slot stores\<close>

text \<open>
  The interface.  \<open>contents\<close> is the map from slots to what they hold; \<open>take\<close> finds a free slot, and
  answers \<open>None\<close> when there is none; \<open>give\<close> frees a slot and returns what it held.
\<close>

locale slot_store =
  fixes inv :: "'t \<Rightarrow> bool"
    and contents :: "'t \<Rightarrow> nat \<Rightarrow> 'v option"
    and slots :: "'t \<Rightarrow> nat set"
    and take_slot :: "'v \<Rightarrow> 't \<Rightarrow> (nat \<times> 't) option option"
    and give_slot :: "'v \<Rightarrow> nat \<Rightarrow> 't \<Rightarrow> 't option"
    and valid :: "'v \<Rightarrow> bool"
  assumes contents_slots: "inv t \<Longrightarrow> dom (contents t) \<subseteq> slots t"
    and take_law: "inv t \<Longrightarrow> valid v \<Longrightarrow>
      take_slot v t = Some None \<and> dom (contents t) = slots t \<or>
      (\<exists>i t'. take_slot v t = Some (Some (i, t')) \<and> i \<in> slots t \<and> contents t i = None \<and>
         inv t' \<and> slots t' = slots t \<and> contents t' = (contents t)(i \<mapsto> v))"
    and give_law: "inv t \<Longrightarrow> contents t i = Some v \<Longrightarrow>
      \<exists>t'. give_slot v i t = Some t' \<and> inv t' \<and> slots t' = slots t \<and> contents t' = (contents t)(i := None)"
begin

lemma take_succeeds:
  assumes "inv t" "valid v" "j \<in> slots t" "contents t j = None"
  shows "\<exists>i t'. take_slot v t = Some (Some (i, t')) \<and> inv t' \<and> contents t i = None \<and>
    contents t' = (contents t)(i \<mapsto> v)"
  using take_law [OF assms(1,2)] assms(3,4) by blast

lemma give_take:
  assumes "inv t" "valid v" "take_slot v t = Some (Some (i, t'))"
  shows "\<exists>t''. give_slot v i t' = Some t'' \<and> inv t'' \<and> contents t'' = contents t"
proof -
  have t': "contents t i = None" "inv t'" "contents t' = (contents t)(i \<mapsto> v)"
    using take_law [OF assms(1,2)] assms(3) by auto
  then obtain t'' where "give_slot v i t' = Some t''" "inv t''" "contents t'' = (contents t')(i := None)"
    using give_law [of t' i v] by auto
  then show ?thesis using t' by auto
qed

lemma take_distinct:
  assumes "inv t" "valid v" "valid w" "take_slot v t = Some (Some (i, t'))"
    "take_slot w t' = Some (Some (j, t''))"
  shows "i \<noteq> j \<and> contents t'' i = Some v \<and> contents t'' j = Some w"
proof -
  have t': "inv t'" "contents t' = (contents t)(i \<mapsto> v)"
    using take_law [OF assms(1,2)] assms(4) by auto
  then show ?thesis using take_law [OF t'(1) assms(3)] assms(5) by auto
qed

lemma take_after_give:
  assumes "inv t" "contents t i = Some v" "give_slot v i t = Some t'" "valid w"
  shows "\<exists>j t''. take_slot w t' = Some (Some (j, t''))"
proof -
  have "inv t'" "slots t' = slots t" "contents t' = (contents t)(i := None)" "i \<in> slots t"
    using give_law [OF assms(1,2)] assms(2,3) contents_slots [OF assms(1)] by auto
  then show ?thesis using take_succeeds [of t' w i] assms(4) by auto
qed

end

section \<open>The free list of a table\<close>

fun request_chain :: "ipc_port_request list \<Rightarrow> nat \<Rightarrow> nat list \<Rightarrow> bool" where
  "request_chain ts i [] \<longleftrightarrow> ipr_next (ts ! i) = 0"
| "request_chain ts i (j # js) \<longleftrightarrow> ipr_next (ts ! i) = j \<and> j \<noteq> 0 \<and> j < length ts \<and> request_chain ts j js"

lemma request_chain_move:
  assumes "request_chain ts j js" "length ts \<le> length us" "ipr_next (us ! i) = ipr_next (ts ! j)"
    "\<And>k. k \<in> set js \<Longrightarrow> ipr_next (us ! k) = ipr_next (ts ! k)"
  shows "request_chain us i js"
  using assms
proof (induction js arbitrary: i j)
  case (Cons k ks)
  have "request_chain us k ks" by (rule Cons.IH [of k]) (use Cons.prems in auto)
  then show ?case using Cons.prems by auto
qed simp

lemma request_chain_range: "request_chain ts i fl \<Longrightarrow> j \<in> set fl \<Longrightarrow> 0 < j \<and> j < length ts"
  by (induction fl arbitrary: i) auto

definition request_inv :: "ipc_port_request list \<Rightarrow> bool" where
  "request_inv ts \<longleftrightarrow>
     ts \<noteq> [] \<and> length ts < 2 ^ 32 \<and>
     (\<exists>fl. request_chain ts 0 fl \<and> distinct fl \<and>
        set fl = {i. 0 < i \<and> i < length ts \<and> ipr_name (ts ! i) = MACH_PORT_NULL})"

definition requests :: "ipc_port_request list \<Rightarrow> nat \<Rightarrow> (mach_port_name_t \<times> ipc_port_t) option" where
  "requests ts i =
     (if 0 < i \<and> i < length ts \<and> ipr_name (ts ! i) \<noteq> MACH_PORT_NULL
      then Some (ipr_name (ts ! i), ipr_soright (ts ! i)) else None)"

abbreviation request_slots :: "ipc_port_request list \<Rightarrow> nat set" where
  "request_slots ts \<equiv> {i. 0 < i \<and> i < length ts}"

lemma request_take_full:
  assumes "request_inv ts" "ipr_next (ts ! 0) = 0"
  shows "request_take name soright ts = Some None" "dom (requests ts) = request_slots ts"
proof -
  obtain fl where fl: "request_chain ts 0 fl"
      "set fl = {i. 0 < i \<and> i < length ts \<and> ipr_name (ts ! i) = MACH_PORT_NULL}" "ts \<noteq> []"
    using assms(1) by (auto simp: request_inv_def)
  have "fl = []" using fl(1) assms(2) by (cases fl) auto
  then show "dom (requests ts) = request_slots ts" using fl(2) by (auto simp: requests_def dom_def)
  show "request_take name soright ts = Some None"
    using fl(3) assms(2) by (simp add: request_take_def Let_def nth_opt_def)
qed

lemma request_take_free:
  fixes soright :: ipc_port_t
  assumes inv: "request_inv ts" and i: "ipr_next (ts ! 0) = i" "i \<noteq> 0" and name: "name \<noteq> MACH_PORT_NULL"
  defines "us \<equiv> ts[0 := (ts ! 0)\<lparr>ipr_notify := ipr_notify (ts ! i)\<rparr>,
                    i := \<lparr>ipr_notify = soright, ipr_name = name\<rparr>]"
  shows "request_take name soright ts = Some (Some (i, us))" and "0 < i" and "i < length ts"
    and "ipr_name (ts ! i) = MACH_PORT_NULL" and "length us = length ts" and "request_inv us"
    and "requests us = (requests ts)(i \<mapsto> (name, soright))"
proof -
  obtain fl where fl: "request_chain ts 0 fl" "distinct fl"
      "set fl = {i. 0 < i \<and> i < length ts \<and> ipr_name (ts ! i) = MACH_PORT_NULL}"
      "ts \<noteq> []" "length ts < 2 ^ 32"
    using inv by (auto simp: request_inv_def)
  obtain js where js: "fl = i # js" using fl(1) i by (cases fl) auto
  have "i \<in> set fl" using js by simp
  then show r: "0 < i" "i < length ts" "ipr_name (ts ! i) = MACH_PORT_NULL" using fl(3) by auto
  show len: "length us = length ts" by (simp add: us_def)
  show "request_take name soright ts = Some (Some (i, us))"
    using fl(4) i r by (simp add: request_take_def Let_def nth_opt_def us_def)
  have nth: "us ! k = (if k = i then \<lparr>ipr_notify = soright, ipr_name = name\<rparr>
      else if k = 0 then (ts ! 0)\<lparr>ipr_notify := ipr_notify (ts ! i)\<rparr> else ts ! k)" if "k < length ts" for k
    using that r fl(4) by (auto simp: us_def nth_list_update)
  have "request_chain us 0 js"
  proof (rule request_chain_move [of ts i])
    show "request_chain ts i js" using fl(1) js by simp
    show "ipr_next (us ! 0) = ipr_next (ts ! i)" using nth [of 0] fl(4) r(1) by (simp add: ipr_next_def)
    show "ipr_next (us ! k) = ipr_next (ts ! k)" if "k \<in> set js" for k
    proof -
      have "k \<noteq> i" "0 < k" "k < length ts"
        using that js fl(2) request_chain_range [OF fl(1), of k] by auto
      then show ?thesis using nth [of k] by simp
    qed
  qed (simp add: len)
  moreover have "set js = {k. 0 < k \<and> k < length us \<and> ipr_name (us ! k) = MACH_PORT_NULL}"
  proof (rule set_eqI)
    fix k
    have "k \<in> set js \<longleftrightarrow> k \<in> set fl \<and> k \<noteq> i" using js fl(2) by auto
    then show "k \<in> set js \<longleftrightarrow> k \<in> {k. 0 < k \<and> k < length us \<and> ipr_name (us ! k) = MACH_PORT_NULL}"
      unfolding fl(3) using len nth [of k] name by (auto split: if_splits)
  qed
  ultimately show "request_inv us"
    using fl(2,4,5) js len unfolding request_inv_def by (metis distinct.simps(2) length_0_conv)
  show "requests us = (requests ts)(i \<mapsto> (name, soright))"
  proof
    fix k show "requests us k = ((requests ts)(i \<mapsto> (name, soright))) k"
      using nth [of k] r name len by (auto simp: requests_def)
  qed
qed

lemma request_give_law:
  assumes inv: "request_inv ts" and i: "requests ts i = Some (name, soright)"
  defines "us \<equiv> ts[i := \<lparr>ipr_notify = ipr_notify (ts ! 0), ipr_name = MACH_PORT_NULL\<rparr>,
                    0 := (ts ! 0)\<lparr>ipr_notify := of_nat i\<rparr>]"
  shows "request_give name i ts = Some (soright, us)" and "request_inv us" and "length us = length ts"
    and "requests us = (requests ts)(i := None)"
proof -
  obtain fl where fl: "request_chain ts 0 fl" "distinct fl"
      "set fl = {i. 0 < i \<and> i < length ts \<and> ipr_name (ts ! i) = MACH_PORT_NULL}"
      "ts \<noteq> []" "length ts < 2 ^ 32"
    using inv by (auto simp: request_inv_def)
  have r: "0 < i" "i < length ts" "ipr_name (ts ! i) = name" "name \<noteq> MACH_PORT_NULL" "ipr_soright (ts ! i) = soright"
    using i by (auto simp: requests_def split: if_splits)
  show len: "length us = length ts" by (simp add: us_def)
  show "request_give name i ts = Some (soright, us)"
    using fl(4) r by (simp add: request_give_def nth_opt_def us_def)
  have nth: "us ! k = (if k = 0 then (ts ! 0)\<lparr>ipr_notify := of_nat i\<rparr>
      else if k = i then \<lparr>ipr_notify = ipr_notify (ts ! 0), ipr_name = MACH_PORT_NULL\<rparr> else ts ! k)"
    if "k < length ts" for k
    using that r fl(4) by (auto simp: us_def nth_list_update)
  have next0: "ipr_next (us ! 0) = i"
  proof -
    have "i < 2 ^ 32" using r(2) fl(5) by linarith
    then show ?thesis using nth [of 0] fl(4) by (simp add: ipr_next_def unsigned_of_nat take_bit_nat_eq_self)
  qed
  have "request_chain us i fl"
  proof (rule request_chain_move [OF fl(1)])
    show "length ts \<le> length us" by (simp add: len)
    show "ipr_next (us ! i) = ipr_next (ts ! 0)" using nth [of i] r by (simp add: ipr_next_def)
    show "ipr_next (us ! k) = ipr_next (ts ! k)" if "k \<in> set fl" for k
    proof -
      have "k \<noteq> i" "0 < k" "k < length ts" using that fl(3) r by auto
      then show ?thesis using nth [of k] by simp
    qed
  qed
  then have "request_chain us 0 (i # fl)" using next0 r len by simp
  moreover have "set (i # fl) = {k. 0 < k \<and> k < length us \<and> ipr_name (us ! k) = MACH_PORT_NULL}"
  proof (rule set_eqI)
    fix k
    show "k \<in> set (i # fl) \<longleftrightarrow> k \<in> {k. 0 < k \<and> k < length us \<and> ipr_name (us ! k) = MACH_PORT_NULL}"
      unfolding list.set insert_iff fl(3) using len nth [of k] r by (auto split: if_splits)
  qed
  moreover have "distinct (i # fl)" using fl(2,3) r by auto
  ultimately show "request_inv us"
    using fl(4,5) len unfolding request_inv_def by (metis length_0_conv)
  show "requests us = (requests ts)(i := None)"
  proof
    fix k show "requests us k = ((requests ts)(i := None)) k"
      using nth [of k] r len by (auto simp: requests_def)
  qed
qed

text \<open>The tables are slot stores.\<close>

interpretation dead_names: slot_store request_inv requests request_slots
  "\<lambda>(name, soright). request_take name soright"
  "\<lambda>(name, soright) i ts. map_option snd (request_give name i ts)"
  "\<lambda>(name, soright). name \<noteq> MACH_PORT_NULL"
proof (unfold_locales, goal_cases)
  case (1 t)
  then show ?case by (auto simp: requests_def dom_def split: if_splits)
next
  case (2 t v)
  obtain name soright where v: "v = (name, soright)" "name \<noteq> MACH_PORT_NULL" using 2(2) by (cases v) auto
  show ?case
  proof (cases "ipr_next (t ! 0) = 0")
    case True
    then show ?thesis using request_take_full [OF 2(1)] v by simp
  next
    case False
    let ?i = "ipr_next (t ! 0)"
    let ?u = "t[0 := (t ! 0)\<lparr>ipr_notify := ipr_notify (t ! ?i)\<rparr>, ?i := \<lparr>ipr_notify = soright, ipr_name = name\<rparr>]"
    note f = request_take_free [OF 2(1) refl False v(2)]
    have "requests t ?i = None" "?i \<in> request_slots t" using f(2-4) by (simp_all add: requests_def)
    moreover have "request_take name soright t = Some (Some (?i, ?u))" by (rule f(1))
    moreover have "request_inv ?u" "requests ?u = (requests t)(?i \<mapsto> (name, soright))" by (rule f(6,7))+
    ultimately show ?thesis unfolding v(1) prod.case by (intro disjI2 exI [of _ ?i] exI [of _ ?u]) simp
  qed
next
  case (3 t i v)
  obtain name soright where v: "v = (name, soright)" by (cases v)
  show ?case using request_give_law [OF 3(1), of i name soright] 3(2) v by auto
qed

section \<open>Growing a table\<close>

lemma length_dngrow_free [simp]: "length (dngrow_free n i free) = n"
  by (induction n i free rule: dngrow_free.induct) auto

lemma nth_dngrow_free:
  "k < n \<Longrightarrow> dngrow_free n i free ! k =
     \<lparr>ipr_notify = of_nat (if k = 0 then free else i + k - 1), ipr_name = MACH_PORT_NULL\<rparr>"
proof (induction n i free arbitrary: k rule: dngrow_free.induct)
  case (2 n i free)
  then show ?case by (cases k) auto
qed simp

lemma unat_u32: "n < 2 ^ 32 \<Longrightarrow> unat (of_nat n :: u32) = n"
  by (simp add: unsigned_of_nat take_bit_nat_eq_self)

text \<open>The table after a growth, for the old slots \<open>ts\<close> without the first.\<close>

lemma grown_table:
  assumes ch: "request_chain (h # ts) 0 fl" "distinct fl"
      "set fl = {i. 0 < i \<and> i < length (h # ts) \<and> ipr_name ((h # ts) ! i) = MACH_PORT_NULL}"
    and n: "length (h # ts) = osize" "osize < nsize" "nsize < 2 ^ 32"
  defines "us \<equiv> \<lparr>ipr_notify = of_nat (nsize - 1), ipr_name = MACH_PORT_NULL\<rparr>
      # ts @ dngrow_free (nsize - osize) osize (ipr_next h)"
  shows "request_inv us" and "length us = nsize" and "requests us = requests (h # ts)"
    and "requests us osize = None" and "osize \<in> request_slots us"
proof -
  show len: "length us = nsize" using n by (simp add: us_def)
  have old: "us ! k = (h # ts) ! k" if "0 < k" "k < osize" for k
    using that n(1) by (cases k) (auto simp: us_def nth_append)
  have new: "us ! k = \<lparr>ipr_notify = of_nat (if k = osize then ipr_next h else k - 1), ipr_name = MACH_PORT_NULL\<rparr>"
    if "osize \<le> k" "k < nsize" for k
  proof -
    define d where "d = k - osize"
    have d: "k = osize + d" using that(1) by (simp add: d_def)
    then have "us ! k = dngrow_free (nsize - osize) osize (ipr_next h) ! d"
      using n(1) by (cases k) (auto simp: us_def nth_append)
    then show ?thesis using d that by (simp add: nth_dngrow_free)
  qed
  have h: "ipr_next h < 2 ^ 32" using unat_u32_lt [of "ipr_notify h"] by (simp add: ipr_next_def)
  have chain: "request_chain us m (rev [osize..<m] @ fl)" if "osize \<le> m" "m < nsize" for m
    using that
  proof (induction m rule: dec_induct)
    case base
    have "request_chain us osize fl"
    proof (rule request_chain_move [OF ch(1)])
      show "ipr_next (us ! osize) = ipr_next ((h # ts) ! 0)"
        using new [of osize] n(2) unat_u32 [OF h] by (simp add: ipr_next_def)
      show "ipr_next (us ! k) = ipr_next ((h # ts) ! k)" if "k \<in> set fl" for k
        using that old [of k] unfolding ch(3) n(1) by simp
    qed (use n len in simp)
    then show ?case by simp
  next
    case (step m)
    have "m < 2 ^ 32" using step n(3) by linarith
    then have "ipr_next (us ! Suc m) = m"
      using new [of "Suc m"] step unat_u32 [of m] by (simp add: ipr_next_def)
    moreover have "0 < osize" using n(1) by auto
    ultimately show ?case using step len by simp
  qed
  have "nsize - 1 < 2 ^ 32" using n by linarith
  then have "request_chain us 0 (rev [osize..<nsize] @ fl)"
    using chain [of "nsize - 1"] n unat_u32 [of "nsize - 1"] len
    by (cases nsize) (auto simp: us_def ipr_next_def)
  moreover have "k \<in> set (rev [osize..<nsize] @ fl) \<longleftrightarrow>
      0 < k \<and> k < length us \<and> ipr_name (us ! k) = MACH_PORT_NULL" for k
  proof (cases "k < osize")
    case True
    then have "k \<in> set fl \<longleftrightarrow> 0 < k \<and> ipr_name ((h # ts) ! k) = MACH_PORT_NULL" unfolding ch(3) n(1) by simp
    then show ?thesis using True old [of k] n len by (cases "k = 0") auto
  next
    case False
    then have "k \<notin> set fl" unfolding ch(3) n(1) by simp
    then show ?thesis using False new [of k] n len by (cases "k < nsize") auto
  qed
  moreover have "distinct (rev [osize..<nsize] @ fl)" using ch(2) unfolding distinct_append ch(3) n(1) by auto
  moreover have "us \<noteq> []" by (simp add: us_def)
  ultimately show "request_inv us" using len n(3) unfolding request_inv_def by blast
  show "requests us = requests (h # ts)"
  proof
    fix k show "requests us k = requests (h # ts) k"
    proof (cases "k < osize")
      case True
      then show ?thesis using old [of k] n len by (cases "k = 0") (simp_all add: requests_def)
    next
      case False
      then show ?thesis using new [of k] n len by (simp add: requests_def)
    qed
  qed
  show "requests us osize = None" using new [of osize] n(2) by (simp add: requests_def)
  show "osize \<in> request_slots us" using n len by auto
qed

section \<open>Requests on a port\<close>

text \<open>
  The slots \<open>ts\<close> of the table of requests of an active port: none while the port has no table.
\<close>

definition port_requests :: "ipc_kstate \<Rightarrow> ipc_port_t \<Rightarrow> ipc_port_request list \<Rightarrow> bool" where
  "port_requests s port ts \<longleftrightarrow>
     (\<exists>p. st_objects s port = Some p \<and> ip_active p \<and>
        (if ip_dnrequests p = IPR_NULL then ts = []
         else \<exists>t. st_requests s (ip_dnrequests p) = Some t \<and> ipr_table t = ts \<and> request_inv ts \<and>
                ipr_size t + 1 < ipc_table_dnrequests_size \<and>
                ipc_table_dnrequests ! ipr_size t = length ts))"

lemma requests_Nil [simp]: "requests [] = Map.empty"
  by (auto simp: requests_def)

lemma dnrequest_law:
  assumes "port_requests s port ts" "name \<noteq> MACH_PORT_NULL" "soright \<noteq> IP_NULL"
  shows "ipc_port_dnrequest port name soright s = Some (Inl KERN_NO_SPACE, s) \<and>
      dom (requests ts) = request_slots ts \<or>
    (\<exists>i us s'. ipc_port_dnrequest port name soright s = Some (Inr i, s') \<and> requests ts i = None \<and>
       i \<noteq> 0 \<and> port_requests s' port us \<and> requests us = (requests ts)(i \<mapsto> (name, soright)) \<and>
       ipc_port_dncancel port name i s' = Some (soright, s))"
proof (cases "ts = []")
  case True
  then show ?thesis
    using assms by (auto simp: port_requests_def ipc_port_dnrequest_def request_inv_def split: if_splits)
next
  case False
  then obtain p t where p: "st_objects s port = Some p" "ip_active p" "ip_dnrequests p \<noteq> IPR_NULL"
      "st_requests s (ip_dnrequests p) = Some t" "ipr_table t = ts" "request_inv ts"
      "ipr_size t + 1 < ipc_table_dnrequests_size" "ipc_table_dnrequests ! ipr_size t = length ts"
    using assms(1) unfolding port_requests_def by (auto split: if_splits)
  define i where "i = ipr_next (ts ! 0)"
  show ?thesis
  proof (cases "i = 0")
    case True
    then show ?thesis
      using p assms(2,3) request_take_full [OF p(6)] by (simp add: ipc_port_dnrequest_def i_def)
  next
    case False
    define us where "us = ts[0 := (ts ! 0)\<lparr>ipr_notify := ipr_notify (ts ! i)\<rparr>,
        i := \<lparr>ipr_notify = soright, ipr_name = name\<rparr>]"
    define s' where "s' = set_request (ip_dnrequests p) (t\<lparr>ipr_table := us\<rparr>) s"
    note f = request_take_free(1,6,7,5) [OF p(6) i_def [symmetric] False assms(2), of soright, folded us_def]
    note g = request_take_free(2,3,4) [OF p(6) i_def [symmetric] False assms(2)]
    have req: "ipc_port_dnrequest port name soright s = Some (Inr i, s')"
      using p assms(2,3) f(1) by (simp add: ipc_port_dnrequest_def s'_def)
    have pr: "port_requests s' port us"
      using p f unfolding port_requests_def s'_def set_request_def
      by (intro exI [of _ p] exI [of _ "t\<lparr>ipr_table := us\<rparr>"]) simp
    have us0: "us ! 0 = (ts ! 0)\<lparr>ipr_notify := ipr_notify (ts ! i)\<rparr>"
      using g by (cases ts; cases i) (auto simp: us_def)
    have "us[i := \<lparr>ipr_notify = ipr_notify (us ! 0), ipr_name = MACH_PORT_NULL\<rparr>,
        0 := (us ! 0)\<lparr>ipr_notify := of_nat i\<rparr>] = ts"
    proof (rule nth_equalityI)
      fix k assume "k < length (us[i := \<lparr>ipr_notify = ipr_notify (us ! 0), ipr_name = MACH_PORT_NULL\<rparr>,
        0 := (us ! 0)\<lparr>ipr_notify := of_nat i\<rparr>])"
      then have k: "k < length ts" by (simp add: f(4))
      have "ipr_notify (ts ! 0) = of_nat i" by (simp add: i_def ipr_next_def)
      then show "us[i := \<lparr>ipr_notify = ipr_notify (us ! 0), ipr_name = MACH_PORT_NULL\<rparr>,
        0 := (us ! 0)\<lparr>ipr_notify := of_nat i\<rparr>] ! k = ts ! k"
        using g k unfolding us0 by (cases "k = 0"; cases "k = i"; cases "ts ! k")
          (auto simp: us_def nth_list_update ipc_port_request.defs)
    qed (simp add: us_def)
    moreover have "requests us i = Some (name, soright)" using f by simp
    ultimately have "request_give name i us = Some (soright, ts)"
      using request_give_law(1) [OF f(2)] by simp
    then have "ipc_port_dncancel port name i s' = Some (soright, s)"
      using p assms(2) False
      by (simp add: ipc_port_dncancel_def s'_def set_request_def fun_upd_idem)
    moreover have "requests ts i = None" using g(3) by (simp add: requests_def)
    ultimately show ?thesis using req pr f(3) False by blast
  qed
qed

lemma fill_elem_min:
  "\<forall>x\<in>set its. minsize div elemsize \<le> x \<Longrightarrow>
     \<forall>x\<in>set (fill_elem minsize elemsize sz its). minsize div elemsize \<le> x"
  by (auto simp: fill_elem_def div_le_mono)

lemma fill_powers_min:
  "\<forall>x\<in>set its. minsize div elemsize \<le> x \<Longrightarrow>
     \<forall>x\<in>set (snd (fill_powers num minsize elemsize sz its)). minsize div elemsize \<le> x"
proof (induction num minsize elemsize sz its rule: fill_powers.induct)
  case (1 num minsize elemsize sz its)
  then show ?case
    using fill_elem_min [of its minsize elemsize sz]
    by (subst fill_powers.simps) (simp del: split_paired_All)
qed

lemma fill_period_min:
  "\<forall>x\<in>set its. minsize div elemsize \<le> x \<Longrightarrow>
     \<forall>x\<in>set (snd (fill_period num minsize elemsize incrsize period sz its)). minsize div elemsize \<le> x"
proof (induction num minsize elemsize incrsize period sz its rule: fill_period.induct)
  case (2 num minsize elemsize incrsize period sz its)
  then show ?case using fill_elem_min [of its minsize elemsize sz] by simp
qed simp

lemma fill_pages_min:
  "\<forall>x\<in>set its. minsize div elemsize \<le> x \<Longrightarrow>
     \<forall>x\<in>set (fill_pages num minsize elemsize incrsize sz its). minsize div elemsize \<le> x"
proof (induction num minsize elemsize incrsize sz its rule: fill_pages.induct)
  case (1 num minsize elemsize incrsize sz its)
  show ?case
  proof (cases "length its < num \<and> 0 < incrsize")
    case True
    obtain sz1 its1 where f: "fill_period num minsize elemsize incrsize 15 sz its = (sz1, its1)"
      by (cases "fill_period num minsize elemsize incrsize 15 sz its")
    have "\<forall>x\<in>set its1. minsize div elemsize \<le> x"
      using fill_period_min [OF "1.prems", of num incrsize 15 sz] f by simp
    then show ?thesis
      using "1.IH" [OF True f [symmetric] refl refl] True f
      by (subst fill_pages.simps) simp
  next
    case False
    then have "fill_pages num minsize elemsize incrsize sz its = its"
      by (subst fill_pages.simps) auto
    then show ?thesis using "1.prems" by simp
  qed
qed

lemma dnrequests_fill:
  "length (ipc_table_fill 63 2 8) = 63" "sorted_wrt (<) (ipc_table_fill 63 2 8)"
  "\<forall>x\<in>set (ipc_table_fill 63 2 8). 1 < x \<and> x < 2 ^ 32"
proof -
  show "length (ipc_table_fill 63 2 8) = 63" "sorted_wrt (<) (ipc_table_fill 63 2 8)"
    using table_fill_spec [of 8 2 63] by (simp_all add: PAGE_SIZE_def)
  have "\<forall>x\<in>set (ipc_table_fill 63 2 8). 2 \<le> x"
    using fill_pages_min [of "snd (fill_powers 63 16 8 1 [])" 16 8 63 PAGE_SIZE
        "fst (fill_powers 63 16 8 1 [])"] fill_powers_min [of "[]" 16 8 63 1]
    by (simp add: ipc_table_fill_def Let_def case_prod_unfold)
  then show "\<forall>x\<in>set (ipc_table_fill 63 2 8). 1 < x \<and> x < 2 ^ 32"
    using table_fill_spec(3) [of 8 2 63] by (fastforce simp: PAGE_SIZE_def)
qed

lemma dnrequests_size:
  shows "length ipc_table_dnrequests = 64"
    and "its < 63 \<Longrightarrow> 1 < ipc_table_dnrequests ! its \<and> ipc_table_dnrequests ! its < 2 ^ 32"
    and "ipc_table_dnrequests ! 63 = 0"
    and "its < jts \<Longrightarrow> jts < 63 \<Longrightarrow> ipc_table_dnrequests ! its < ipc_table_dnrequests ! jts"
proof -
  have e: "ipc_table_dnrequests = ipc_table_fill 63 2 8 @ [0]"
    by (simp add: ipc_table_dnrequests_def ipc_table_dnrequests_size_def sizeof_ipc_port_request_def)
  show "length ipc_table_dnrequests = 64" "ipc_table_dnrequests ! 63 = 0"
    by (simp_all add: e nth_append dnrequests_fill)
  show "1 < ipc_table_dnrequests ! its \<and> ipc_table_dnrequests ! its < 2 ^ 32" if "its < 63"
    using that dnrequests_fill(1,3) nth_mem [of its "ipc_table_fill 63 2 8"] by (simp add: e nth_append)
  show "ipc_table_dnrequests ! its < ipc_table_dnrequests ! jts" if "its < jts" "jts < 63"
    using that dnrequests_fill(1) sorted_wrt_nth_less [OF dnrequests_fill(2), of its jts]
    by (simp add: e nth_append)
qed

text \<open>The new table of a port, whether it had one or not.\<close>

lemma dngrow_table_law:
  assumes "case ot of None \<Rightarrow> ts = [] | Some t \<Rightarrow> ipr_table t = ts \<and> request_inv ts \<and>
      ipr_size t < its \<and> ipc_table_dnrequests ! ipr_size t = length ts"
    and "its < 63"
  shows "\<exists>us. dngrow_table ot its (ipc_table_dnrequests ! its) = Some \<lparr>ipr_size = its, ipr_table = us\<rparr> \<and>
     request_inv us \<and> length us = ipc_table_dnrequests ! its \<and> requests us = requests ts \<and>
     dom (requests us) \<noteq> request_slots us"
proof -
  let ?n = "ipc_table_dnrequests ! its"
  have n: "1 < ?n" "?n < 2 ^ 32" using dnrequests_size(2) [OF assms(2)] by auto
  show ?thesis
  proof (cases ot)
    case None
    define h :: ipc_port_request where "h = \<lparr>ipr_notify = 0, ipr_name = MACH_PORT_NULL\<rparr>"
    have h: "ipr_next h = 0" "request_chain [h] 0 []" "requests [h] = Map.empty"
      by (auto simp: h_def ipr_next_def requests_def)
    have "set [] = {i. 0 < i \<and> i < length [h] \<and> ipr_name ([h] ! i) = MACH_PORT_NULL}" by auto
    note g = grown_table [OF h(2) distinct.simps(1) [THEN iffD2, OF TrueI] this _ n, simplified]
    have "dngrow_table ot its ?n =
        Some \<lparr>ipr_size = its, ipr_table = \<lparr>ipr_notify = of_nat (?n - 1), ipr_name = MACH_PORT_NULL\<rparr>
            # dngrow_free (?n - 1) 1 0\<rparr>"
      using None n by (simp add: dngrow_table_def)
    then show ?thesis using None assms(1) g h by auto
  next
    case (Some t)
    then have t: "ipr_table t = ts" "request_inv ts" "ipr_size t < its"
      "ipc_table_dnrequests ! ipr_size t = length ts" using assms(1) by auto
    obtain h r where ts: "ts = h # r" using t(2) by (cases ts) (auto simp: request_inv_def)
    obtain fl where fl: "request_chain (h # r) 0 fl" "distinct fl"
      "set fl = {i. 0 < i \<and> i < length (h # r) \<and> ipr_name ((h # r) ! i) = MACH_PORT_NULL}"
      using t(2) unfolding request_inv_def ts by blast
    have lt: "length ts < ?n" using dnrequests_size(4) [OF t(3) assms(2)] t(4) by simp
    note g = grown_table [OF fl _ lt n(2), unfolded ts, OF refl]
    have "requests ts (length ts) = None" "dngrow_table ot its ?n =
        Some \<lparr>ipr_size = its, ipr_table = \<lparr>ipr_notify = of_nat (?n - 1), ipr_name = MACH_PORT_NULL\<rparr>
            # r @ dngrow_free (?n - length ts) (length ts) (ipr_next h)\<rparr>"
      using Some t ts lt assms(2) dnrequests_size(1) by (auto simp: dngrow_table_def requests_def)
    then show ?thesis using g ts by auto
  qed
qed


text \<open>The search finds the first size that is large enough.\<close>

lemma dngrow_target_law:
  assumes "its \<le> j" "j < 63" "target \<le> ipc_table_dnrequests ! j"
  shows "\<exists>i. dngrow_target target its = Some i \<and> its \<le> i \<and> i \<le> j \<and> target \<le> ipc_table_dnrequests ! i"
  using assms(1)
proof (induction its rule: inc_induct)
  case base
  show ?case using assms(2,3) dnrequests_size(1) by (subst dngrow_target.simps) simp
next
  case (step its)
  then show ?case
    using assms(2) dnrequests_size(1) dnrequests_size(2) [of its] by (subst dngrow_target.simps) (auto intro: Suc_leD)
qed

section \<open>Samples\<close>

definition sample_table :: "nat \<Rightarrow> ipc_request_table" where
  "sample_table its = the (dngrow_table None its (ipc_table_dnrequests ! its))"

lemma sample_table_size: "its < 63 \<Longrightarrow> ipr_size (sample_table its) = its"
  using dngrow_table_law [of "[]" its None] by (auto simp: sample_table_def)

definition sample_requests :: ipc_kstate where
  "sample_requests = sample_kstate [0x300 \<mapsto> sample_port\<lparr>ip_dnrequests := 0xb000\<rparr>] [0xb000 \<mapsto> sample_table 0]"

lemma sample_requests:
  "\<exists>ts. port_requests sample_requests 0x300 ts \<and> requests ts = Map.empty \<and>
     dom (requests ts) \<noteq> request_slots ts \<and> length ts = ipc_table_dnrequests ! 0"
proof -
  obtain us where "dngrow_table None 0 (ipc_table_dnrequests ! 0) = Some \<lparr>ipr_size = 0, ipr_table = us\<rparr>"
     "request_inv us" "length us = ipc_table_dnrequests ! 0" "requests us = Map.empty"
     "dom (requests us) \<noteq> request_slots us"
    using dngrow_table_law [of "[]" 0 None, unfolded option.case requests_Nil, OF refl zero_less_numeral]
    by blast
  then show ?thesis
    by (intro exI [of _ us])
      (simp add: port_requests_def sample_requests_def sample_kstate_def sample_table_def
        ipc_table_dnrequests_size_def)
qed

section \<open>Properties of requests\<close>

text \<open>
  Claim C17. A dead-name request is registered in a slot that held none, beside the requests that were
  there, and \<open>ipc_port_dncancel\<close> undoes it: it returns the send-once right and the very state
  before.  \<open>KERN_NO_SPACE\<close> is the answer only when every slot of the table is taken.
\<close>

theorem dnrequest_contract:
  assumes "port_requests s port ts" "name \<noteq> MACH_PORT_NULL" "soright \<noteq> IP_NULL"
  shows "ipc_port_dnrequest port name soright s = Some (Inl KERN_NO_SPACE, s) \<and>
      dom (requests ts) = request_slots ts \<or>
    (\<exists>i us s'. ipc_port_dnrequest port name soright s = Some (Inr i, s') \<and> requests ts i = None \<and>
       i \<noteq> 0 \<and> port_requests s' port us \<and> requests us = (requests ts)(i \<mapsto> (name, soright)) \<and>
       ipc_port_dncancel port name i s' = Some (soright, s))"
  by (rule dnrequest_law [OF assms])

theorem dnrequest_contract_witness:
  "\<exists>i s'. ipc_port_dnrequest 0x300 0x103 0x301 sample_requests = Some (Inr i, s') \<and>
     ipc_port_dncancel 0x300 0x103 i s' = Some (0x301, sample_requests)"
proof -
  obtain ts where ts: "port_requests sample_requests 0x300 ts" "dom (requests ts) \<noteq> request_slots ts"
    using sample_requests by blast
  show ?thesis
    using dnrequest_contract [OF ts(1), of "0x103" "0x301"] ts(2) by (auto simp: MACH_PORT_NULL_def)
qed



text \<open>
  Claim C19. Asked for a size beyond the next one, \<open>ipc_port_dngrow\<close> leaves an existing table as it is
  and reports \<open>KERN_SUCCESS\<close>, though nobody interferes and the allocation succeeds: the check that
  the table is still the old one compares the old size with the predecessor of the new one.
\<close>

theorem dngrow_target_ignored:
  assumes "port_requests s port ts" "st_objects s port = Some p" "io_lock_data p" "0 < io_references p"
      "io_references p < IO_MAX_REFERENCES"
    and "st_requests s (ip_dnrequests p) = Some t" "ip_dnrequests p \<noteq> IPR_NULL"
    and "ipc_table_dnrequests ! (ipr_size t + 1) < target" "target \<le> ipc_table_dnrequests ! j" "ipr_size t + 1 < j" "j < 63"
      "target \<noteq> ITS_SIZE_NONE"
    and "\<And>s. others k s = s"
    and "\<And>its. \<exists>tp. k_dnrequests_alloc k its (io_put port (p\<lparr>io_references := io_references p + 1, io_lock_data := False\<rparr>) s)
          = Some tp \<and> tp \<noteq> IPR_NULL \<and> st_requests s tp = None"
  shows "length ts < target \<and>
    ipc_port_dngrow k port target s = Some (KERN_SUCCESS, io_put port (p\<lparr>io_lock_data := False\<rparr>) s)"
proof -
  have t: "ipr_table t = ts" "ipr_size t < 63" "ipc_table_dnrequests ! ipr_size t = length ts" "ip_active p"
    using assms(1,2,6,7) by (auto simp: port_requests_def ipc_table_dnrequests_size_def split: if_splits)
  have lt: "length ts < ipc_table_dnrequests ! (ipr_size t + 1)"
    using dnrequests_size(4) [of "ipr_size t" "ipr_size t + 1"] t(3) assms(10,11) by simp
  obtain i where i: "dngrow_target target (ipr_size t + 1) = Some i" "ipr_size t + 1 \<le> i" "i \<le> j"
      "target \<le> ipc_table_dnrequests ! i"
    using dngrow_target_law [OF less_imp_le [OF assms(10)] assms(11,9)] by blast
  have ne: "i \<noteq> ipr_size t + 1" using i(4) assms(8) by auto
  let ?q = "p\<lparr>io_references := io_references p + 1, io_lock_data := False\<rparr>"
  obtain tp where tp: "k_dnrequests_alloc k i (io_put port ?q s) = Some tp" "tp \<noteq> IPR_NULL" "st_requests s tp = None"
    using assms(14) by blast
  note refs = referenced [OF assms(5)]
  have lk: "ip_lock port (io_put port ?q s) = Some (io_put port (p\<lparr>io_references := io_references p + 1\<rparr>) s)"
    using assms(3) by (cases p) simp
  have rl: "ip_release port (io_put port (p\<lparr>io_references := io_references p + 1\<rparr>) s) = Some s"
    using refs assms(2) by (cases p) (simp add: io_put_same)
  have "dngrow_install port (ip_dnrequests p) i (ipc_table_dnrequests ! i) tp s =
      Some (io_put port (p\<lparr>io_lock_data := False\<rparr>) s)"
    using assms(2,3,4,6,7) t(4) ne tp(3)
    by (cases s) (auto simp: dngrow_install_def it_dnrequests_free_def fun_upd_idem)
  then have "ipc_port_dngrow k port target s = Some (KERN_SUCCESS, io_put port (p\<lparr>io_lock_data := False\<rparr>) s)"
    using assms t i lt lk rl tp dnrequests_size(1) by (simp add: ipc_port_dngrow_def)
  then show ?thesis using lt assms(8) by simp
qed


theorem dngrow_target_ignored_witness:
  "ipc_port_dngrow quiet_kernel 0x300 (ipc_table_dnrequests ! 2) sample_requests =
     Some (KERN_SUCCESS, io_put 0x300 (sample_port\<lparr>ip_dnrequests := 0xb000, io_lock_data := False\<rparr>) sample_requests)"
proof -
  obtain ts where "port_requests sample_requests 0x300 ts" using sample_requests by blast
  from dngrow_target_ignored [OF this, of "sample_port\<lparr>ip_dnrequests := 0xb000\<rparr>" "sample_table 0"
      "ipc_table_dnrequests ! 2" 2 quiet_kernel] show ?thesis
    using dnrequests_size(2) [of 3] dnrequests_size(4) [of 1 2] dnrequests_size(4) [of 2 3]
    by (simp add: sample_requests_def max_references sample_table_size ITS_SIZE_NONE_def)
qed

end
