(* ===== verification/Ipc_Circularity.thy ===== *)
theory Ipc_Circularity
  imports Ipc_Port
begin

text \<open>
  The chains of ports in transit, and \<open>ipc_port_check_circularity\<close>, which keeps them from closing.
\<close>

section \<open>Chains of ports in transit\<close>

text \<open>
  A path follows \<open>ip_destination\<close> from port to port in transit up to a port that is not in transit.
\<close>

fun transit_path :: "(ipc_object_t \<rightharpoonup> ipc_port) \<Rightarrow> ipc_port_t list \<Rightarrow> bool" where
  "transit_path objects [] \<longleftrightarrow> False"
| "transit_path objects [x] \<longleftrightarrow> (\<exists>p. objects x = Some p \<and> \<not> in_transit p)"
| "transit_path objects (x # y # ps) \<longleftrightarrow>
     (\<exists>p. objects x = Some p \<and> in_transit p \<and> ip_destination p = y) \<and> transit_path objects (y # ps)"




lemma transit_path_cong:
  "transit_path objects ps \<Longrightarrow> \<forall>x\<in>set ps. objects' x = objects x \<Longrightarrow> transit_path objects' ps"
  by (induction objects ps rule: transit_path.induct) auto

section \<open>Locks along a chain\<close>

definition lock_port :: "bool \<Rightarrow> ipc_port_t \<Rightarrow> ipc_kstate \<Rightarrow> ipc_kstate" where
  "lock_port b x s = s\<lparr>st_objects := (st_objects s)(x := map_option (io_lock_data_update (\<lambda>_. b)) (st_objects s x))\<rparr>"

fun lock_ports :: "bool \<Rightarrow> ipc_port_t list \<Rightarrow> ipc_kstate \<Rightarrow> ipc_kstate" where
  "lock_ports b [] s = s"
| "lock_ports b (x # ps) s = lock_ports b ps (lock_port b x s)"


lemma in_transit_lock [simp]: "in_transit (p\<lparr>io_lock_data := b\<rparr>) = in_transit p"
  by (simp add: in_transit_def io_active_def)

lemma lock_port_objects:
  "st_objects (lock_port b x s) y = (if y = x then map_option (io_lock_data_update (\<lambda>_. b)) (st_objects s x) else st_objects s y)"
  by (simp add: lock_port_def)

lemma transit_path_lock_port [simp]: "transit_path (st_objects (lock_port b x s)) ps = transit_path (st_objects s) ps"
proof (induction "st_objects s" ps rule: transit_path.induct)
  case (2 y)
  then show ?case by (cases "st_objects s x") (auto simp: lock_port_objects)
next
  case (3 y z ps)
  then show ?case by (cases "st_objects s x") (auto simp: lock_port_objects)
qed simp







lemma unlock_all_null [simp]: "circularity_unlock_all 0 s = Some s"
  by (subst circularity_unlock_all.simps) simp


lemma unlock_base [simp]: "circularity_unlock base base s = Some s"
  by (subst circularity_unlock.simps) simp













lemma lock_ports_multiple_field [simp]: "st_multiple_locked (lock_ports b ps s) = st_multiple_locked s"
  by (induction ps arbitrary: s) (simp_all add: lock_port_def)



section \<open>The check\<close>





end
