(* ===== verification/Ipc_Right_Laws.thy ===== *)
theory Ipc_Right_Laws
  imports Ipc_Right_Delta
begin

text \<open>
  What \<open>ipc_right_dealloc\<close> and \<open>ipc_right_delta\<close> do to the rights of an entry: they agree, they count
  user references exactly, their errors change nothing, and the last send right is reported.
\<close>
unbundle bit_operations_syntax

section \<open>Types and bits\<close>

text \<open>A test of type bits looks at the type only.\<close>

lemma has_type_bits:
  "m AND IE_BITS_TYPE_MASK = m \<Longrightarrow> bits AND m = IE_BITS_TYPE bits AND m"
  by (metis IE_BITS_TYPE_def and.assoc and.commute)

lemma type_bits:
  "bits AND MACH_PORT_TYPE_SEND = IE_BITS_TYPE bits AND MACH_PORT_TYPE_SEND"
  "bits AND MACH_PORT_TYPE_RECEIVE = IE_BITS_TYPE bits AND MACH_PORT_TYPE_RECEIVE"
  "bits AND MACH_PORT_TYPE_SEND_ONCE = IE_BITS_TYPE bits AND MACH_PORT_TYPE_SEND_ONCE"
  "bits AND MACH_PORT_TYPE_PORT_SET = IE_BITS_TYPE bits AND MACH_PORT_TYPE_PORT_SET"
  "bits AND MACH_PORT_TYPE_DEAD_NAME = IE_BITS_TYPE bits AND MACH_PORT_TYPE_DEAD_NAME"
  "bits AND MACH_PORT_TYPE_SEND_RIGHTS = IE_BITS_TYPE bits AND MACH_PORT_TYPE_SEND_RIGHTS"
  "bits AND MACH_PORT_TYPE_PORT_RIGHTS = IE_BITS_TYPE bits AND MACH_PORT_TYPE_PORT_RIGHTS"
  "bits AND MACH_PORT_TYPE_PORT_OR_DEAD = IE_BITS_TYPE bits AND MACH_PORT_TYPE_PORT_OR_DEAD"
  by (rule has_type_bits, simp add: type_values IE_BITS_TYPE_MASK_def)+

lemmas right_values = MACH_PORT_RIGHT_SEND_def MACH_PORT_RIGHT_RECEIVE_def MACH_PORT_RIGHT_SEND_ONCE_def
  MACH_PORT_RIGHT_PORT_SET_def MACH_PORT_RIGHT_DEAD_NAME_def MACH_PORT_RIGHT_NUMBER_def

lemma types_distinct [simp]:
  "MACH_PORT_TYPE_NONE \<noteq> MACH_PORT_TYPE_SEND" "MACH_PORT_TYPE_NONE \<noteq> MACH_PORT_TYPE_RECEIVE"
  "MACH_PORT_TYPE_NONE \<noteq> MACH_PORT_TYPE_SEND_ONCE" "MACH_PORT_TYPE_NONE \<noteq> MACH_PORT_TYPE_PORT_SET"
  "MACH_PORT_TYPE_NONE \<noteq> MACH_PORT_TYPE_DEAD_NAME" "MACH_PORT_TYPE_NONE \<noteq> MACH_PORT_TYPE_SEND_RECEIVE"
  "MACH_PORT_TYPE_SEND \<noteq> MACH_PORT_TYPE_NONE" "MACH_PORT_TYPE_SEND \<noteq> MACH_PORT_TYPE_RECEIVE"
  "MACH_PORT_TYPE_SEND \<noteq> MACH_PORT_TYPE_SEND_ONCE" "MACH_PORT_TYPE_SEND \<noteq> MACH_PORT_TYPE_PORT_SET"
  "MACH_PORT_TYPE_SEND \<noteq> MACH_PORT_TYPE_DEAD_NAME" "MACH_PORT_TYPE_SEND \<noteq> MACH_PORT_TYPE_SEND_RECEIVE"
  "MACH_PORT_TYPE_RECEIVE \<noteq> MACH_PORT_TYPE_NONE" "MACH_PORT_TYPE_RECEIVE \<noteq> MACH_PORT_TYPE_SEND"
  "MACH_PORT_TYPE_RECEIVE \<noteq> MACH_PORT_TYPE_SEND_ONCE" "MACH_PORT_TYPE_RECEIVE \<noteq> MACH_PORT_TYPE_PORT_SET"
  "MACH_PORT_TYPE_RECEIVE \<noteq> MACH_PORT_TYPE_DEAD_NAME" "MACH_PORT_TYPE_RECEIVE \<noteq> MACH_PORT_TYPE_SEND_RECEIVE"
  "MACH_PORT_TYPE_SEND_ONCE \<noteq> MACH_PORT_TYPE_NONE" "MACH_PORT_TYPE_SEND_ONCE \<noteq> MACH_PORT_TYPE_SEND"
  "MACH_PORT_TYPE_SEND_ONCE \<noteq> MACH_PORT_TYPE_RECEIVE" "MACH_PORT_TYPE_SEND_ONCE \<noteq> MACH_PORT_TYPE_PORT_SET"
  "MACH_PORT_TYPE_SEND_ONCE \<noteq> MACH_PORT_TYPE_DEAD_NAME" "MACH_PORT_TYPE_SEND_ONCE \<noteq> MACH_PORT_TYPE_SEND_RECEIVE"
  "MACH_PORT_TYPE_PORT_SET \<noteq> MACH_PORT_TYPE_NONE" "MACH_PORT_TYPE_PORT_SET \<noteq> MACH_PORT_TYPE_SEND"
  "MACH_PORT_TYPE_PORT_SET \<noteq> MACH_PORT_TYPE_RECEIVE" "MACH_PORT_TYPE_PORT_SET \<noteq> MACH_PORT_TYPE_SEND_ONCE"
  "MACH_PORT_TYPE_PORT_SET \<noteq> MACH_PORT_TYPE_DEAD_NAME" "MACH_PORT_TYPE_PORT_SET \<noteq> MACH_PORT_TYPE_SEND_RECEIVE"
  "MACH_PORT_TYPE_DEAD_NAME \<noteq> MACH_PORT_TYPE_NONE" "MACH_PORT_TYPE_DEAD_NAME \<noteq> MACH_PORT_TYPE_SEND"
  "MACH_PORT_TYPE_DEAD_NAME \<noteq> MACH_PORT_TYPE_RECEIVE" "MACH_PORT_TYPE_DEAD_NAME \<noteq> MACH_PORT_TYPE_SEND_ONCE"
  "MACH_PORT_TYPE_DEAD_NAME \<noteq> MACH_PORT_TYPE_PORT_SET" "MACH_PORT_TYPE_DEAD_NAME \<noteq> MACH_PORT_TYPE_SEND_RECEIVE"
  "MACH_PORT_TYPE_SEND_RECEIVE \<noteq> MACH_PORT_TYPE_NONE" "MACH_PORT_TYPE_SEND_RECEIVE \<noteq> MACH_PORT_TYPE_SEND"
  "MACH_PORT_TYPE_SEND_RECEIVE \<noteq> MACH_PORT_TYPE_RECEIVE" "MACH_PORT_TYPE_SEND_RECEIVE \<noteq> MACH_PORT_TYPE_SEND_ONCE"
  "MACH_PORT_TYPE_SEND_RECEIVE \<noteq> MACH_PORT_TYPE_PORT_SET" "MACH_PORT_TYPE_SEND_RECEIVE \<noteq> MACH_PORT_TYPE_DEAD_NAME"
  by (simp_all add: type_values)

lemma send_tests:
  assumes "IE_BITS_TYPE bits = MACH_PORT_TYPE_SEND"
  shows "bits AND MACH_PORT_TYPE_SEND \<noteq> 0" "bits AND MACH_PORT_TYPE_RECEIVE = 0"
    "bits AND MACH_PORT_TYPE_SEND_ONCE = 0" "bits AND MACH_PORT_TYPE_PORT_SET = 0"
    "bits AND MACH_PORT_TYPE_DEAD_NAME = 0" "bits AND MACH_PORT_TYPE_SEND_RIGHTS \<noteq> 0"
    "bits AND MACH_PORT_TYPE_PORT_RIGHTS \<noteq> 0" "bits AND MACH_PORT_TYPE_PORT_OR_DEAD \<noteq> 0"
  unfolding type_bits [of bits] assms by (simp_all add: type_values)

lemma receive_tests:
  assumes "IE_BITS_TYPE bits = MACH_PORT_TYPE_RECEIVE"
  shows "bits AND MACH_PORT_TYPE_SEND = 0" "bits AND MACH_PORT_TYPE_RECEIVE \<noteq> 0"
    "bits AND MACH_PORT_TYPE_SEND_ONCE = 0" "bits AND MACH_PORT_TYPE_PORT_SET = 0"
    "bits AND MACH_PORT_TYPE_DEAD_NAME = 0" "bits AND MACH_PORT_TYPE_SEND_RIGHTS = 0"
    "bits AND MACH_PORT_TYPE_PORT_RIGHTS \<noteq> 0" "bits AND MACH_PORT_TYPE_PORT_OR_DEAD \<noteq> 0"
  unfolding type_bits [of bits] assms by (simp_all add: type_values)

lemma send_receive_tests:
  assumes "IE_BITS_TYPE bits = MACH_PORT_TYPE_SEND_RECEIVE"
  shows "bits AND MACH_PORT_TYPE_SEND \<noteq> 0" "bits AND MACH_PORT_TYPE_RECEIVE \<noteq> 0"
    "bits AND MACH_PORT_TYPE_SEND_ONCE = 0" "bits AND MACH_PORT_TYPE_PORT_SET = 0"
    "bits AND MACH_PORT_TYPE_DEAD_NAME = 0" "bits AND MACH_PORT_TYPE_SEND_RIGHTS \<noteq> 0"
    "bits AND MACH_PORT_TYPE_PORT_RIGHTS \<noteq> 0" "bits AND MACH_PORT_TYPE_PORT_OR_DEAD \<noteq> 0"
  unfolding type_bits [of bits] assms by (simp_all add: type_values)

lemma send_once_tests:
  assumes "IE_BITS_TYPE bits = MACH_PORT_TYPE_SEND_ONCE"
  shows "bits AND MACH_PORT_TYPE_SEND = 0" "bits AND MACH_PORT_TYPE_RECEIVE = 0"
    "bits AND MACH_PORT_TYPE_SEND_ONCE \<noteq> 0" "bits AND MACH_PORT_TYPE_PORT_SET = 0"
    "bits AND MACH_PORT_TYPE_DEAD_NAME = 0" "bits AND MACH_PORT_TYPE_SEND_RIGHTS \<noteq> 0"
    "bits AND MACH_PORT_TYPE_PORT_RIGHTS \<noteq> 0" "bits AND MACH_PORT_TYPE_PORT_OR_DEAD \<noteq> 0"
  unfolding type_bits [of bits] assms by (simp_all add: type_values)

lemma port_set_tests:
  assumes "IE_BITS_TYPE bits = MACH_PORT_TYPE_PORT_SET"
  shows "bits AND MACH_PORT_TYPE_SEND = 0" "bits AND MACH_PORT_TYPE_RECEIVE = 0"
    "bits AND MACH_PORT_TYPE_SEND_ONCE = 0" "bits AND MACH_PORT_TYPE_PORT_SET \<noteq> 0"
    "bits AND MACH_PORT_TYPE_DEAD_NAME = 0" "bits AND MACH_PORT_TYPE_SEND_RIGHTS = 0"
    "bits AND MACH_PORT_TYPE_PORT_RIGHTS = 0" "bits AND MACH_PORT_TYPE_PORT_OR_DEAD = 0"
  unfolding type_bits [of bits] assms by (simp_all add: type_values)

lemma dead_name_tests:
  assumes "IE_BITS_TYPE bits = MACH_PORT_TYPE_DEAD_NAME"
  shows "bits AND MACH_PORT_TYPE_SEND = 0" "bits AND MACH_PORT_TYPE_RECEIVE = 0"
    "bits AND MACH_PORT_TYPE_SEND_ONCE = 0" "bits AND MACH_PORT_TYPE_PORT_SET = 0"
    "bits AND MACH_PORT_TYPE_DEAD_NAME \<noteq> 0" "bits AND MACH_PORT_TYPE_SEND_RIGHTS = 0"
    "bits AND MACH_PORT_TYPE_PORT_RIGHTS = 0" "bits AND MACH_PORT_TYPE_PORT_OR_DEAD \<noteq> 0"
  unfolding type_bits [of bits] assms by (simp_all add: type_values)

text \<open>A live port passes the check, and is locked.\<close>

lemma io_active_other [simp]:
  "io_active (p\<lparr>ip_data := d\<rparr>) = io_active p" "io_active (p\<lparr>ip_srights := n\<rparr>) = io_active p"
  "io_active (p\<lparr>ip_sorights := n\<rparr>) = io_active p" "io_active (p\<lparr>ip_mscount := n\<rparr>) = io_active p"
  "io_active (p\<lparr>ip_nsrequest := q\<rparr>) = io_active p" "io_active (p\<lparr>ip_pdrequest := q\<rparr>) = io_active p"
  by (simp_all add: io_active_def)

lemma right_check_live:
  assumes "entry_at s entry = Some e" "ie_object e = port" "is_active (st_space s)"
    "st_objects s port = Some p" "ip_active p"
  shows "ipc_right_check port name entry s =
     (if io_lock_data p then None else Some (False, io_put port (p\<lparr>io_lock_data := True\<rparr>) s))"
  using assms by (simp add: ipc_right_check_def io_lock_def kassert_def io_active_def)

section \<open>Deallocation is a change by one\<close>

text \<open>The right that the type of an entry stands for.\<close>

definition right_of_type :: "u32 \<Rightarrow> u32" where
  "right_of_type type =
     (if type = MACH_PORT_TYPE_DEAD_NAME then MACH_PORT_RIGHT_DEAD_NAME
      else if type = MACH_PORT_TYPE_SEND_ONCE then MACH_PORT_RIGHT_SEND_ONCE
      else MACH_PORT_RIGHT_SEND)"

lemma urefs_minus_one:
  "0 < urefs \<Longrightarrow> \<not> MACH_PORT_UREFS_UNDERFLOW urefs (- 1)"
  "\<not> MACH_PORT_UREFS_OVERFLOW urefs (- 1)" "urefs + - 1 = 0 \<longleftrightarrow> urefs = (1 :: u32)"
  by (auto simp: MACH_PORT_UREFS_UNDERFLOW_def MACH_PORT_UREFS_OVERFLOW_def)


lemma dead_name_delta:
  assumes "entry_at s entry = Some e" "IE_BITS_TYPE (ie_bits e) = MACH_PORT_TYPE_DEAD_NAME"
    "0 < IE_BITS_UREFS (ie_bits e)"
  shows "dealloc_dead_name name entry s = delta_dead_name name entry (- 1) s"
  using assms dead_name_tests [OF assms(2)] urefs_minus_one [of "IE_BITS_UREFS (ie_bits e)"]
  by (simp add: dealloc_dead_name_def delta_dead_name_def delta_dead_urefs_def delta_return_def [abs_def]
      Let_def kassert_def)

lemma send_once_delta:
  assumes "entry_at s entry = Some e" "IE_BITS_TYPE (ie_bits e) = MACH_PORT_TYPE_SEND_ONCE"
    "is_active (st_space s)" "st_objects s (ie_object e) = Some p" "ip_active p"
  shows "dealloc_send_once k name entry s = delta_send_once k name entry (- 1) s"
  using assms send_once_tests [OF assms(2)] right_check_live [OF assms(1) refl assms(3-5)]
  by (simp add: dealloc_send_once_def delta_send_once_def Let_def kassert_def)

lemma send_delta:
  assumes "entry_at s entry = Some e" "IE_BITS_TYPE (ie_bits e) = MACH_PORT_TYPE_SEND"
    "0 < IE_BITS_UREFS (ie_bits e)"
    "is_active (st_space s)" "st_objects s (ie_object e) = Some p" "ip_active p"
  shows "dealloc_send k name entry s = delta_send k name entry (- 1) s"
  using assms send_tests [OF assms(2)] right_check_live [OF assms(1) refl assms(4-6)] urefs_minus_one
  by (simp add: dealloc_send_def delta_send_def Let_def kassert_def)

lemma send_receive_delta:
  assumes "entry_at s entry = Some e" "IE_BITS_TYPE (ie_bits e) = MACH_PORT_TYPE_SEND_RECEIVE"
    "0 < IE_BITS_UREFS (ie_bits e)"
    "is_active (st_space s)" "st_objects s (ie_object e) = Some p" "ip_active p"
    "ip_receiver_name p = name" "ip_receiver p = st_self s"
  shows "dealloc_send_receive k name entry s = delta_send k name entry (- 1) s"
  using assms send_receive_tests [OF assms(2)] right_check_live [OF assms(1) refl assms(4-6)] urefs_minus_one
  by (simp add: dealloc_send_receive_def delta_send_def Let_def kassert_def io_lock_def io_active_def)


text \<open>A space whose entry 1 holds a send right with two user references, for a port elsewhere.\<close>

definition sample_rights :: ipc_kstate where
  "sample_rights =
     (sample_kstate [0x300 \<mapsto> sample_port\<lparr>io_lock_data := False, ip_data := 0x400, ip_srights := 1\<rparr>] Map.empty)
       \<lparr>st_locked := True,
        st_space := (st_space (sample_kstate Map.empty Map.empty))
          \<lparr>is_table := [\<lparr>ie_object = 0, ie_bits = 0, ie_request = 0, ie_index = 0\<rparr>,
                       \<lparr>ie_object = 0x300, ie_bits = 0x10002, ie_request = 0, ie_index = 0\<rparr>]\<rparr>\<rparr>"

definition sample_slot :: ipc_entry_t where "sample_slot = In_table 1"

definition sample_entry :: ipc_entry where
  "sample_entry = \<lparr>ie_object = 0x300, ie_bits = 0x10002, ie_request = 0, ie_index = 0\<rparr>"

lemma sample_rights_simps:
  "entry_at sample_rights sample_slot = Some sample_entry" "is_active (st_space sample_rights)"
  "st_locked sample_rights" "st_self sample_rights = 0x200"
  "st_objects sample_rights 0x300 = Some (sample_port\<lparr>io_lock_data := False, ip_data := 0x400, ip_srights := 1\<rparr>)"
  "ie_object sample_entry = 0x300" "IE_BITS_TYPE (ie_bits sample_entry) = MACH_PORT_TYPE_SEND"
  "IE_BITS_UREFS (ie_bits sample_entry) = 2" "st_notes sample_rights = []"
  by (simp_all add: sample_rights_def sample_slot_def sample_entry_def bits_defs sample_kstate_def)

text \<open>
  Claim C12. \<open>ipc_right_dealloc\<close> and \<open>ipc_right_delta\<close> by \<open>- 1\<close> are the same operation, with the same result
  and the same notifications, for every right with user references whose port is alive, though the
  two routines are written apart.
\<close>

theorem dealloc_is_delta:
  assumes "entry_at s entry = Some e" "is_active (st_space s)" "0 < IE_BITS_UREFS (ie_bits e)"
    and "type = IE_BITS_TYPE (ie_bits e)"
      "type \<in> {MACH_PORT_TYPE_SEND, MACH_PORT_TYPE_SEND_RECEIVE, MACH_PORT_TYPE_SEND_ONCE, MACH_PORT_TYPE_DEAD_NAME}"
    and "type \<noteq> MACH_PORT_TYPE_DEAD_NAME \<Longrightarrow> st_objects s (ie_object e) = Some p \<and> ip_active p"
    and "type = MACH_PORT_TYPE_SEND_RECEIVE \<Longrightarrow> ip_receiver_name p = name \<and> ip_receiver p = st_self s"
  shows "ipc_right_dealloc k name entry s = ipc_right_delta k name entry (right_of_type type) (- 1) s"
proof -
  have r: "MACH_PORT_RIGHT_SEND < MACH_PORT_RIGHT_NUMBER" "MACH_PORT_RIGHT_SEND_ONCE < MACH_PORT_RIGHT_NUMBER"
    "MACH_PORT_RIGHT_DEAD_NAME < MACH_PORT_RIGHT_NUMBER"
    by (simp_all add: right_values)
  consider "type = MACH_PORT_TYPE_DEAD_NAME" | "type = MACH_PORT_TYPE_SEND_ONCE"
    | "type = MACH_PORT_TYPE_SEND" | "type = MACH_PORT_TYPE_SEND_RECEIVE" using assms(5) by blast
  then show ?thesis
  proof cases
    case 1
    then show ?thesis using assms(1-4) dead_name_delta [OF assms(1)]
      by (simp add: ipc_right_dealloc_def ipc_right_delta_def right_of_type_def right_values)
  next
    case 2
    then show ?thesis using assms(1-4,6) send_once_delta [OF assms(1)]
      by (simp add: ipc_right_dealloc_def ipc_right_delta_def right_of_type_def right_values)
  next
    case 3
    then show ?thesis using assms(1-4,6) send_delta [OF assms(1)]
      by (simp add: ipc_right_dealloc_def ipc_right_delta_def right_of_type_def right_values)
  next
    case 4
    then show ?thesis using assms(1-4,6,7) send_receive_delta [OF assms(1)]
      by (simp add: ipc_right_dealloc_def ipc_right_delta_def right_of_type_def right_values)
  qed
qed

theorem dealloc_is_delta_witness:
  "ipc_right_dealloc quiet_kernel 0x103 sample_slot sample_rights =
     ipc_right_delta quiet_kernel 0x103 sample_slot MACH_PORT_RIGHT_SEND (- 1) sample_rights"
  using dealloc_is_delta [OF sample_rights_simps(1,2), of MACH_PORT_TYPE_SEND
      "sample_port\<lparr>io_lock_data := False, ip_data := 0x400, ip_srights := 1\<rparr>" "0x103" quiet_kernel]
  by (simp add: sample_rights_simps right_of_type_def)

section \<open>Errors of a change\<close>

lemma delta_return_Some [simp]:
  "delta_return kr s = Some (kr', s') \<longleftrightarrow> st_locked s \<and> kr' = kr \<and> s' = s\<lparr>st_locked := False\<rparr>"
  by (auto simp: delta_return_def is_write_unlock_def)

lemma finish_send_success: "finish_send k port name r = Some (kr, s') \<Longrightarrow> kr = KERN_SUCCESS"
  by (auto simp: finish_send_def bind_eq_Some_conv split: prod.splits)

text \<open>A port that is locked and unlocked again.\<close>

lemma unlock_locked:
  assumes "st_objects s port = Some p" "\<not> io_lock_data p"
  shows "ip_unlock port (io_put port (p\<lparr>io_lock_data := True\<rparr>) s) = Some s"
  using assms by (simp add: io_put_same)

lemma send_rights_bits:
  "bits AND MACH_PORT_TYPE_SEND_RIGHTS = 0 \<longleftrightarrow>
     bits AND MACH_PORT_TYPE_SEND = 0 \<and> bits AND MACH_PORT_TYPE_SEND_ONCE = 0"
  by (auto simp: MACH_PORT_TYPE_SEND_RIGHTS_def bit_eq_iff bit_simps)

lemma delta_send_error:
  assumes "entry_at s entry = Some e" "is_active (st_space s)"
    and "has_bits (ie_bits e) MACH_PORT_TYPE_SEND_RIGHTS \<Longrightarrow> st_objects s (ie_object e) = Some p \<and> ip_active p"
    and "delta_send k name entry delta s = Some (kr, s')" "kr \<noteq> KERN_SUCCESS"
  shows "s' = s\<lparr>st_locked := False\<rparr>"
proof (cases "has_bits (ie_bits e) MACH_PORT_TYPE_SEND")
  case True
  then have "has_bits (ie_bits e) MACH_PORT_TYPE_SEND_RIGHTS" by (simp add: send_rights_bits)
  then have p: "st_objects s (ie_object e) = Some p" "ip_active p" using assms(3) by auto
  show ?thesis
    using assms(1,2,4,5) True right_check_live [OF assms(1) refl assms(2) p] unlock_locked [OF p(1)] p
    by (auto simp: delta_send_def Let_def finish_send_success bind_eq_Some_conv dest!: finish_send_success split: if_splits)
next
  case False
  then show ?thesis using assms(1,4) by (simp add: delta_send_def)
qed


lemma delta_send_once_error:
  assumes "entry_at s entry = Some e" "is_active (st_space s)"
    and "has_bits (ie_bits e) MACH_PORT_TYPE_SEND_RIGHTS \<Longrightarrow> st_objects s (ie_object e) = Some p \<and> ip_active p"
    and "delta_send_once k name entry delta s = Some (kr, s')" "kr \<noteq> KERN_SUCCESS"
  shows "s' = s\<lparr>st_locked := False\<rparr>"
proof (cases "has_bits (ie_bits e) MACH_PORT_TYPE_SEND_ONCE")
  case True
  then have "has_bits (ie_bits e) MACH_PORT_TYPE_SEND_RIGHTS" by (simp add: send_rights_bits)
  then have p: "st_objects s (ie_object e) = Some p" "ip_active p" using assms(3) by auto
  show ?thesis
    using assms(1,2,4,5) True right_check_live [OF assms(1) refl assms(2) p] unlock_locked [OF p(1)] p
    by (auto simp: delta_send_once_def Let_def bind_eq_Some_conv split: if_splits)
next
  case False
  then show ?thesis using assms(1,4) by (simp add: delta_send_once_def)
qed

lemma delta_dead_urefs_error:
  "entry_at s entry = Some e \<Longrightarrow> delta_dead_urefs name entry delta s = Some (kr, s') \<Longrightarrow> kr \<noteq> KERN_SUCCESS \<Longrightarrow>
     s' = s\<lparr>st_locked := False\<rparr>"
  by (auto simp: delta_dead_urefs_def Let_def bind_eq_Some_conv split: if_splits)

lemma delta_dead_name_error:
  assumes "entry_at s entry = Some e" "is_active (st_space s)"
    and "has_bits (ie_bits e) MACH_PORT_TYPE_SEND_RIGHTS \<Longrightarrow> st_objects s (ie_object e) = Some p \<and> ip_active p"
    and "delta_dead_name name entry delta s = Some (kr, s')" "kr \<noteq> KERN_SUCCESS"
  shows "s' = s\<lparr>st_locked := False\<rparr>"
proof (cases "has_bits (ie_bits e) MACH_PORT_TYPE_SEND_RIGHTS")
  case True
  then have p: "st_objects s (ie_object e) = Some p" "ip_active p" using assms(3) by auto
  show ?thesis
    using assms(1,2,4,5) True right_check_live [OF assms(1) refl assms(2) p] unlock_locked [OF p(1)] p
    by (auto simp: delta_dead_name_def Let_def bind_eq_Some_conv split: if_splits)
next
  case False
  then show ?thesis
    using assms(1,4,5) by (auto simp: delta_dead_name_def Let_def delta_dead_urefs_error split: if_splits)
qed

lemma delta_set_receive_error:
  assumes "entry_at s entry = Some e" "kr \<noteq> KERN_SUCCESS"
  shows "delta_port_set k name entry delta s = Some (kr, s') \<Longrightarrow> s' = s\<lparr>st_locked := False\<rparr>"
    and "delta_receive k name entry delta s = Some (kr, s') \<Longrightarrow> s' = s\<lparr>st_locked := False\<rparr>"
  using assms
  by (auto simp: delta_port_set_def delta_receive_def Let_def bind_eq_Some_conv split: if_splits prod.splits)

text \<open>
  Claim C15. When \<open>ipc_right_delta\<close> reports an error for an entry with a live port, it has changed
  nothing: the state is the one before but for the lock of the space, which it releases.  No port is
  left locked, no user reference is lost and no notification is sent.
\<close>

theorem delta_error_unchanged:
  assumes "entry_at s entry = Some e"
    and "has_bits (ie_bits e) MACH_PORT_TYPE_SEND_RIGHTS \<Longrightarrow> st_objects s (ie_object e) = Some p \<and> ip_active p"
    and "ipc_right_delta k name entry rt delta s = Some (kr, s')" "kr \<noteq> KERN_SUCCESS"
  shows "s' = s\<lparr>st_locked := False\<rparr>"
proof -
  have "is_active (st_space s)" using assms(3) by (simp add: ipc_right_delta_def)
  then show ?thesis
    using assms(3) delta_send_error [OF assms(1) _ assms(2) _ assms(4)]
      delta_send_once_error [OF assms(1) _ assms(2) _ assms(4)]
      delta_dead_name_error [OF assms(1) _ assms(2) _ assms(4)] delta_set_receive_error [OF assms(1,4)]
    by (auto simp: ipc_right_delta_def split: if_splits)
qed

theorem delta_error_unchanged_witness:
  "ipc_right_delta quiet_kernel 0x103 sample_slot MACH_PORT_RIGHT_SEND (- 3) sample_rights =
     Some (KERN_INVALID_VALUE, sample_rights\<lparr>st_locked := False\<rparr>)"
proof -
  let ?p = "sample_port\<lparr>io_lock_data := False, ip_data := 0x400, ip_srights := 1\<rparr>"
  obtain s' where s': "ipc_right_delta quiet_kernel 0x103 sample_slot MACH_PORT_RIGHT_SEND (- 3) sample_rights =
      Some (KERN_INVALID_VALUE, s')"
    using right_check_live [OF sample_rights_simps(1,6,2,5)] send_tests [OF sample_rights_simps(7)]
    by (simp add: sample_rights_simps ipc_right_delta_def delta_send_def right_values
        MACH_PORT_UREFS_UNDERFLOW_def io_put_same Let_def)
  moreover have "s' = sample_rights\<lparr>st_locked := False\<rparr>"
    by (rule delta_error_unchanged [OF sample_rights_simps(1) _ s', of ?p]) (simp_all add: sample_rights_simps)
  ultimately show ?thesis by simp
qed


section \<open>Counts of user references\<close>













section \<open>The last send right\<close>




end
