(* ===== verification/Ipc_Copy_Laws.thy ===== *)
theory Ipc_Copy_Laws
  imports Ipc_Right_Laws Ipc_Copy
begin

text \<open>
  What \<open>ipc_right_copyin_check\<close> and \<open>ipc_right_copyin\<close> owe to each other.
\<close>

unbundle bit_operations_syntax

lemma kassert_Some [simp]: "kassert b = Some u \<longleftrightarrow> b"
  by (simp add: kassert_def)










end
