(* ===== verification/Ipc_Kmsg.thy ===== *)
theory Ipc_Kmsg
  imports Ipc_Object
begin

text \<open>
  Queues of messages (\<open>osfmk/ipc/ipc_kmsg.h\<close>, \<open>osfmk/ipc/ipc_kmsg.c\<close>): a queue is a pointer to the first
  message of a ring, in which every message points to the next and to the previous one.  The
  messages are in a store; the result \<open>None\<close> is the use of a message that is not there, or a failed
  assertion.  With assertions on, a message that leaves a queue gets the bogus links.
\<close>

section \<open>Messages and queues\<close>

record mach_msg_header =
  msgh_bits :: u32
  msgh_size :: u32
  msgh_remote_port :: ipc_port_t
  msgh_local_port :: ipc_port_t
  msgh_reserved :: u32
  msgh_id :: u32

text \<open>The header a message points to is in its buffer and nothing else points to it: it is a part of the message.\<close>

record ipc_kmsg =
  ikm_next :: ipc_kmsg_t
  ikm_prev :: ipc_kmsg_t
  ikm_prealloc :: ipc_port_t
  ikm_size :: u32
  ikm_header :: mach_msg_header

type_synonym kmsg_store = "ipc_kmsg_t \<rightharpoonup> ipc_kmsg"

record ipc_kmsg_queue =
  ikmq_base :: ipc_kmsg_t

definition IKM_BOGUS :: ipc_kmsg_t where "IKM_BOGUS = 0xffffff10"

definition set_kmsg :: "ipc_kmsg_t \<Rightarrow> (ipc_kmsg \<Rightarrow> ipc_kmsg) \<Rightarrow> kmsg_store \<Rightarrow> kmsg_store option" where
  "set_kmsg kmsg f m = map_option (\<lambda>x. m(kmsg \<mapsto> f x)) (m kmsg)"

definition ipc_kmsg_queue_init :: "ipc_kmsg_queue \<Rightarrow> ipc_kmsg_queue" where
  "ipc_kmsg_queue_init queue = queue\<lparr>ikmq_base := IKM_NULL\<rparr>"

definition ipc_kmsg_queue_empty :: "ipc_kmsg_queue \<Rightarrow> bool" where
  "ipc_kmsg_queue_empty queue \<longleftrightarrow> ikmq_base queue = IKM_NULL"

definition ipc_kmsg_queue_first :: "ipc_kmsg_queue \<Rightarrow> ipc_kmsg_t" where
  "ipc_kmsg_queue_first queue = ikmq_base queue"

definition ipc_kmsg_enqueue_macro ::
  "ipc_kmsg_queue \<Rightarrow> ipc_kmsg_t \<Rightarrow> kmsg_store \<Rightarrow> (ipc_kmsg_queue \<times> kmsg_store) option" where
  "ipc_kmsg_enqueue_macro queue kmsg m =
     (let first = ikmq_base queue
      in if first = IKM_NULL
         then do { m1 \<leftarrow> set_kmsg kmsg (ikm_next_update (\<lambda>_. kmsg)) m;
                   m2 \<leftarrow> set_kmsg kmsg (ikm_prev_update (\<lambda>_. kmsg)) m1;
                   Some (queue\<lparr>ikmq_base := kmsg\<rparr>, m2) }
         else do { f \<leftarrow> m first;
                   let last = ikm_prev f;
                   m1 \<leftarrow> set_kmsg kmsg (ikm_next_update (\<lambda>_. first)) m;
                   m2 \<leftarrow> set_kmsg kmsg (ikm_prev_update (\<lambda>_. last)) m1;
                   m3 \<leftarrow> set_kmsg first (ikm_prev_update (\<lambda>_. kmsg)) m2;
                   m4 \<leftarrow> set_kmsg last (ikm_next_update (\<lambda>_. kmsg)) m3;
                   Some (queue, m4) })"

definition ipc_kmsg_enqueue ::
  "ipc_kmsg_queue \<Rightarrow> ipc_kmsg_t \<Rightarrow> kmsg_store \<Rightarrow> (ipc_kmsg_queue \<times> kmsg_store) option" where
  "ipc_kmsg_enqueue queue kmsg m = ipc_kmsg_enqueue_macro queue kmsg m"

definition set_bogus :: "ipc_kmsg_t \<Rightarrow> kmsg_store \<Rightarrow> kmsg_store option" where
  "set_bogus kmsg m = set_kmsg kmsg (\<lambda>x. x\<lparr>ikm_next := IKM_BOGUS, ikm_prev := IKM_BOGUS\<rparr>) m"

definition ipc_kmsg_rmqueue_first_macro ::
  "ipc_kmsg_queue \<Rightarrow> ipc_kmsg_t \<Rightarrow> kmsg_store \<Rightarrow> (ipc_kmsg_queue \<times> kmsg_store) option" where
  "ipc_kmsg_rmqueue_first_macro queue kmsg m =
     do { kassert (ikmq_base queue = kmsg);
          x \<leftarrow> m kmsg;
          let next_msg = ikm_next x;
          (queue1, m1) \<leftarrow>
            (if next_msg = kmsg
             then do { kassert (ikm_prev x = kmsg); Some (queue\<lparr>ikmq_base := IKM_NULL\<rparr>, m) }
             else do { let prev = ikm_prev x;
                       m1 \<leftarrow> set_kmsg next_msg (ikm_prev_update (\<lambda>_. prev)) m;
                       m2 \<leftarrow> set_kmsg prev (ikm_next_update (\<lambda>_. next_msg)) m1;
                       Some (queue\<lparr>ikmq_base := next_msg\<rparr>, m2) });
          m2 \<leftarrow> set_bogus kmsg m1;
          Some (queue1, m2) }"

definition ipc_kmsg_dequeue ::
  "ipc_kmsg_queue \<Rightarrow> kmsg_store \<Rightarrow> (ipc_kmsg_t \<times> ipc_kmsg_queue \<times> kmsg_store) option" where
  "ipc_kmsg_dequeue queue m =
     (let first = ipc_kmsg_queue_first queue
      in if first \<noteq> IKM_NULL
         then do { (queue1, m1) \<leftarrow> ipc_kmsg_rmqueue_first_macro queue first m; Some (first, queue1, m1) }
         else Some (first, queue, m))"

definition ipc_kmsg_rmqueue ::
  "ipc_kmsg_queue \<Rightarrow> ipc_kmsg_t \<Rightarrow> kmsg_store \<Rightarrow> (ipc_kmsg_queue \<times> kmsg_store) option" where
  "ipc_kmsg_rmqueue queue kmsg m =
     do { kassert (ikmq_base queue \<noteq> IKM_NULL);
          x \<leftarrow> m kmsg;
          let next_msg = ikm_next x;
          let prev = ikm_prev x;
          (queue1, m1) \<leftarrow>
            (if next_msg = kmsg
             then do { kassert (prev = kmsg \<and> ikmq_base queue = kmsg);
                       Some (queue\<lparr>ikmq_base := IKM_NULL\<rparr>, m) }
             else do { let queue1 = (if ikmq_base queue = kmsg then queue\<lparr>ikmq_base := next_msg\<rparr> else queue);
                       m1 \<leftarrow> set_kmsg next_msg (ikm_prev_update (\<lambda>_. prev)) m;
                       m2 \<leftarrow> set_kmsg prev (ikm_next_update (\<lambda>_. next_msg)) m1;
                       Some (queue1, m2) });
          m2 \<leftarrow> set_bogus kmsg m1;
          Some (queue1, m2) }"

definition ipc_kmsg_queue_next ::
  "ipc_kmsg_queue \<Rightarrow> ipc_kmsg_t \<Rightarrow> kmsg_store \<Rightarrow> ipc_kmsg_t option" where
  "ipc_kmsg_queue_next queue kmsg m =
     do { kassert (ikmq_base queue \<noteq> IKM_NULL);
          x \<leftarrow> m kmsg;
          Some (if ikmq_base queue = ikm_next x then IKM_NULL else ikm_next x) }"

section \<open>Rings\<close>

text \<open>The messages of a list are linked in both directions.\<close>

fun kmsg_linked :: "kmsg_store \<Rightarrow> ipc_kmsg_t list \<Rightarrow> bool" where
  "kmsg_linked m (x # y # ys) \<longleftrightarrow>
     map_option ikm_next (m x) = Some y \<and> map_option ikm_prev (m y) = Some x \<and> kmsg_linked m (y # ys)"
| "kmsg_linked m _ \<longleftrightarrow> True"

text \<open>A queue holds the messages \<open>xs\<close>, in the order in which they came.\<close>

definition kmsg_ring :: "ipc_kmsg_queue \<Rightarrow> kmsg_store \<Rightarrow> ipc_kmsg_t list \<Rightarrow> bool" where
  "kmsg_ring queue m xs \<longleftrightarrow>
     (if xs = [] then ikmq_base queue = IKM_NULL
      else ikmq_base queue = hd xs \<and> IKM_NULL \<notin> set xs \<and> distinct xs \<and> kmsg_linked m (xs @ [hd xs]))"

lemma kmsg_linked_append:
  "kmsg_linked m (xs @ y # ys) \<longleftrightarrow> kmsg_linked m (xs @ [y]) \<and> kmsg_linked m (y # ys)"
proof (induction xs)
  case (Cons x xs)
  then show ?case by (cases xs) auto
qed simp

lemma kmsg_linked_last:
  assumes "as \<noteq> []" shows "kmsg_linked m (as @ ys) \<longleftrightarrow> kmsg_linked m (butlast as @ last as # ys)"
proof -
  have "as @ ys = butlast as @ last as # ys" using assms by simp
  then show ?thesis by (rule arg_cong)
qed

lemma kmsg_linked_frame:
  assumes "\<forall>x\<in>set (butlast xs). map_option ikm_next (m' x) = map_option ikm_next (m x)"
    and "\<forall>x\<in>set (tl xs). map_option ikm_prev (m' x) = map_option ikm_prev (m x)"
  shows "kmsg_linked m' xs = kmsg_linked m xs"
  using assms by (induction m xs rule: kmsg_linked.induct) auto

text \<open>What a message is apart from its links.\<close>

definition kmsg_payload :: "kmsg_store \<Rightarrow> ipc_kmsg_t \<Rightarrow> ipc_kmsg option" where
  "kmsg_payload m x = map_option (\<lambda>k. k\<lparr>ikm_next := 0, ikm_prev := 0\<rparr>) (m x)"

lemma set_kmsg_Some: "m k = Some x \<Longrightarrow> set_kmsg k f m = Some (m(k \<mapsto> f x))"
  by (simp add: set_kmsg_def)

lemma kmsg_ring_there:
  assumes "kmsg_ring queue m xs" "x \<in> set xs" shows "\<exists>k. m x = Some k"
proof -
  obtain as bs where "xs = as @ x # bs" using assms(2) by (meson split_list)
  moreover have "kmsg_linked m (xs @ [hd xs])" using assms by (auto simp: kmsg_ring_def split: if_splits)
  ultimately have "kmsg_linked m (x # bs @ [hd xs])" using kmsg_linked_append [of m as x "bs @ [hd xs]"] by simp
  then show ?thesis by (cases bs) auto
qed

lemma kmsg_ring_ends:
  assumes "kmsg_ring queue m xs" "xs \<noteq> []"
  shows "map_option ikm_next (m (last xs)) = Some (hd xs)" "map_option ikm_prev (m (hd xs)) = Some (last xs)"
proof -
  have eq: "butlast xs @ [last xs, hd xs] = xs @ [hd xs]"
    using assms(2) by (metis append_Cons append_Nil append_assoc append_butlast_last_id)
  have "kmsg_linked m (xs @ [hd xs])" using assms by (simp add: kmsg_ring_def)
  then have "kmsg_linked m (butlast xs @ [last xs, hd xs])" by (simp only: eq)
  then show "map_option ikm_next (m (last xs)) = Some (hd xs)" "map_option ikm_prev (m (hd xs)) = Some (last xs)"
    using kmsg_linked_append [of m "butlast xs" "last xs" "[hd xs]"] by auto
qed

lemma enqueue_law:
  assumes r: "kmsg_ring queue m xs" and k: "k \<notin> set xs" "k \<noteq> IKM_NULL" "m k = Some x"
  shows "\<exists>queue' m'. ipc_kmsg_enqueue queue k m = Some (queue', m') \<and> kmsg_ring queue' m' (xs @ [k]) \<and>
    (\<forall>y. y \<notin> set (xs @ [k]) \<longrightarrow> m' y = m y) \<and> kmsg_payload m' = kmsg_payload m"
proof (cases "xs = []")
  case True
  then show ?thesis
    using r k by (auto simp: ipc_kmsg_enqueue_def ipc_kmsg_enqueue_macro_def kmsg_ring_def set_kmsg_Some kmsg_payload_def)
next
  case False
  let ?f = "hd xs" and ?l = "last xs"
  have base: "ikmq_base queue = ?f" "?f \<noteq> 0" "distinct xs" "?f \<in> set xs" "?l \<in> set xs" "kmsg_linked m (xs @ [?f])" "0 \<notin> set xs"
    using r False by (simp_all add: kmsg_ring_def) (metis hd_in_set)
  obtain b c where bc: "m ?f = Some b" "m ?l = Some c" using kmsg_ring_there [OF r] base by blast
  have ends: "ikm_prev b = ?l" using kmsg_ring_ends(2) [OF r False] bc by simp
  have ne: "k \<noteq> ?f" "k \<noteq> ?l" using k(1) base(4,5) by auto
  define m' where "m' = (let m3 = m(k \<mapsto> x\<lparr>ikm_next := ?f, ikm_prev := ?l\<rparr>, ?f \<mapsto> b\<lparr>ikm_prev := k\<rparr>)
      in m3(?l \<mapsto> (the (m3 ?l))\<lparr>ikm_next := k\<rparr>))"
  have run: "ipc_kmsg_enqueue queue k m = Some (queue, m')"
    using base bc ends ne k(3)
    by (auto simp: ipc_kmsg_enqueue_def ipc_kmsg_enqueue_macro_def set_kmsg_def m'_def Let_def)
  have nx: "map_option ikm_next (m' y) = (if y = ?l then Some k else if y = k then Some ?f else map_option ikm_next (m y))" for y
    using bc ne by (auto simp: m'_def Let_def)
  have pv: "map_option ikm_prev (m' y) = (if y = ?f then Some k else if y = k then Some ?l else map_option ikm_prev (m y))" for y
    using bc ne by (auto simp: m'_def Let_def)
  have fr: "\<forall>y. y \<notin> set (xs @ [k]) \<longrightarrow> m' y = m y" "kmsg_payload m' = kmsg_payload m"
    using bc ne k(3) base(4,5) by (auto simp: m'_def Let_def kmsg_payload_def)
  have "kmsg_linked m xs" using base(6) kmsg_linked_append [of m "butlast xs" ?l "[?f]"] False
    by (metis append_Cons append_assoc append_butlast_last_id append_Nil)
  moreover have "?l \<notin> set (butlast xs)" "?f \<notin> set (tl xs)"
    using base(3) False by (metis append_butlast_last_id distinct_append disjoint_iff list.set_intros(1),
        metis distinct.simps(2) list.collapse)
  ultimately have "kmsg_linked m' xs"
    using k(1) by (subst kmsg_linked_frame [of _ _ m]) (auto simp: nx pv dest: in_set_butlastD list.set_sel(2) [OF False])
  moreover have "kmsg_linked m' [?l, k, ?f]" by (simp add: nx pv ne)
  moreover have eq: "xs @ [k] @ [?f] = butlast xs @ ?l # [k, ?f]" using False by simp
  ultimately have "kmsg_linked m' (butlast xs @ ?l # [k, ?f])"
    using kmsg_linked_append [of m' "butlast xs" ?l "[k, ?f]"] False by simp
  then have "kmsg_linked m' (xs @ [k] @ [?f])" by (simp only: eq)
  then have "kmsg_ring queue m' (xs @ [k])" using base k False by (simp add: kmsg_ring_def)
  then show ?thesis using run fr by blast
qed

text \<open>A message is taken out of a chain: the ends of the gap are joined.\<close>

lemma kmsg_linked_skip:
  assumes l: "kmsg_linked m (as @ k # cs)" "as \<noteq> []" "cs \<noteq> []"
    and n: "last as \<notin> set (butlast as)" "last as \<notin> set (butlast cs)" "hd cs \<notin> set (tl as)" "hd cs \<notin> set (tl cs)"
    and nx: "\<And>y. y \<in> set (butlast as) \<union> set (butlast cs) \<Longrightarrow> y \<noteq> last as \<Longrightarrow> map_option ikm_next (m' y) = map_option ikm_next (m y)"
      "map_option ikm_next (m' (last as)) = Some (hd cs)"
    and pv: "\<And>y. y \<in> set (tl as) \<union> set (tl cs) \<Longrightarrow> y \<noteq> hd cs \<Longrightarrow> map_option ikm_prev (m' y) = map_option ikm_prev (m y)"
      "map_option ikm_prev (m' (hd cs)) = Some (last as)"
  shows "kmsg_linked m' (as @ cs)"
proof -
  have as: "as @ ys = butlast as @ last as # ys" for ys using l(2) by simp
  have cs: "cs = hd cs # tl cs" using l(3) by simp
  have "kmsg_linked m (as @ [k])" "kmsg_linked m (k # cs)" using l(1) kmsg_linked_append [of m as k cs] by auto
  then have "kmsg_linked m as" "kmsg_linked m cs"
    using kmsg_linked_append [of m "butlast as" "last as" "[k]"] kmsg_linked_append [of m "[k]" "hd cs" "tl cs"] as [of "[k]"] as [of "[]"] cs
    by auto
  then have "kmsg_linked m' as" "kmsg_linked m' cs"
    using n nx(1) pv(1) by (subst kmsg_linked_frame [of _ m' m]; auto; metis)+
  moreover have "kmsg_linked m' [last as, hd cs]" using nx(2) pv(2) by simp
  ultimately have "kmsg_linked m' (butlast as @ last as # cs)"
    using kmsg_linked_append [of m' "butlast as" "last as" cs] kmsg_linked_append [of m' "[last as]" "hd cs" "tl cs"] as [of "[]"] cs
    by auto
  then show ?thesis by (simp only: as)
qed

text \<open>The neighbours of a message in the ring.\<close>

definition ring_prev :: "'x list \<Rightarrow> 'x list \<Rightarrow> 'x" where
  "ring_prev as bs = (if as = [] then last bs else last as)"

definition ring_next :: "'x list \<Rightarrow> 'x list \<Rightarrow> 'x" where
  "ring_next as bs = (if bs = [] then hd as else hd bs)"

lemma kmsg_ring_neighbours:
  assumes r: "kmsg_ring queue m (as @ k # bs)" and ne: "as @ bs \<noteq> []"
  shows "map_option ikm_next (m k) = Some (ring_next as bs)" "map_option ikm_prev (m k) = Some (ring_prev as bs)"
    "ring_prev as bs \<in> set (as @ bs)" "ring_next as bs \<in> set (as @ bs)"
proof -
  let ?xs = "as @ k # bs"
  have "kmsg_linked m (?xs @ [hd ?xs])" using r by (simp add: kmsg_ring_def)
  then have lk: "kmsg_linked m (as @ [k])" "kmsg_linked m (k # bs @ [hd ?xs])"
    using kmsg_linked_append [of m as k "bs @ [hd ?xs]"] by simp_all
  show "map_option ikm_next (m k) = Some (ring_next as bs)"
    using lk(2) ne by (cases bs; cases as) (auto simp: ring_next_def)
  show "map_option ikm_prev (m k) = Some (ring_prev as bs)"
  proof (cases "as = []")
    case True
    then show ?thesis using kmsg_ring_ends(2) [OF r] ne by (simp add: ring_prev_def)
  next
    case False
    then have "kmsg_linked m (butlast as @ last as # [k])" using lk(1) kmsg_linked_last [OF False] by blast
    then show ?thesis using kmsg_linked_append [of m "butlast as" "last as" "[k]"] False by (simp add: ring_prev_def)
  qed
  show "ring_prev as bs \<in> set (as @ bs)" "ring_next as bs \<in> set (as @ bs)"
    using ne by (auto simp: ring_prev_def ring_next_def)
qed

lemma kmsg_linked_first:
  assumes d: "distinct (k # bs)" "bs \<noteq> []" and l: "kmsg_linked m (k # bs @ [k])"
    and nx: "\<And>y. map_option ikm_next (m' y) = (if y = k then b else if y = last bs then Some (hd bs) else map_option ikm_next (m y))"
    and pv: "\<And>y. map_option ikm_prev (m' y) = (if y = k then b else if y = hd bs then Some (last bs) else map_option ikm_prev (m y))"
  shows "kmsg_linked m' (bs @ [hd bs])"
proof -
  have "kmsg_linked m (bs @ [k])" using l d(2) by (cases bs) auto
  then have "kmsg_linked m (butlast bs @ [last bs])"
    using kmsg_linked_last [OF d(2), of m "[k]"] kmsg_linked_append [of m "butlast bs" "last bs" "[k]"] by blast
  moreover have "last bs \<notin> set (butlast bs)" "hd bs \<notin> set (tl bs)"
    using d by (metis append_butlast_last_id distinct.simps(2) distinct_append not_distinct_conv_prefix,
        metis distinct.simps(2) list.collapse)
  ultimately have "kmsg_linked m' (butlast bs @ [last bs])"
    using d by (subst kmsg_linked_frame [of _ m' m])
      (auto simp: nx pv dest: in_set_butlastD list.set_sel(2) [OF d(2)])
  moreover have "kmsg_linked m' [last bs, hd bs]" using d by (auto simp: nx pv)
  ultimately show ?thesis
    using kmsg_linked_last [OF d(2), of m' "[hd bs]"] kmsg_linked_append [of m' "butlast bs" "last bs" "[hd bs]"] by auto
qed

lemma kmsg_linked_later:
  assumes d: "distinct (as @ k # bs)" "as \<noteq> []" and l: "kmsg_linked m (as @ k # bs @ [hd as])"
    and nx: "\<And>y. map_option ikm_next (m' y) = (if y = k then b else if y = last as then Some (ring_next as bs) else map_option ikm_next (m y))"
    and pv: "\<And>y. map_option ikm_prev (m' y) = (if y = k then b else if y = ring_next as bs then Some (last as) else map_option ikm_prev (m y))"
  shows "kmsg_linked m' (as @ (bs @ [hd as]))"
proof (rule kmsg_linked_skip)
  have k: "last as \<noteq> k" "ring_next as bs \<noteq> k" using d by (auto simp: ring_next_def)
  show "kmsg_linked m (as @ k # (bs @ [hd as]))" using l .
  show "last as \<notin> set (butlast as)" using d
    by (metis append_butlast_last_id distinct_append not_distinct_conv_prefix)
  show "hd (bs @ [hd as]) \<notin> set (tl as)" using d by (cases as; cases bs) auto
  show "hd (bs @ [hd as]) \<notin> set (tl (bs @ [hd as]))" using d by (cases as; cases bs) auto
  show "last as \<notin> set (butlast (bs @ [hd as]))"
    using d by (metis butlast_snoc disjoint_iff distinct_append last_in_set list.set_intros(2))
  show "map_option ikm_next (m' (last as)) = Some (hd (bs @ [hd as]))" using k by (simp add: nx ring_next_def)
  show "map_option ikm_prev (m' (hd (bs @ [hd as]))) = Some (last as)" using k by (auto simp: pv ring_next_def hd_append)
  show "map_option ikm_next (m' y) = map_option ikm_next (m y)"
    if "y \<in> set (butlast as) \<union> set (butlast (bs @ [hd as]))" "y \<noteq> last as" for y
    using that d by (auto simp: nx dest: in_set_butlastD)
  show "map_option ikm_prev (m' y) = map_option ikm_prev (m y)"
    if "y \<in> set (tl as) \<union> set (tl (bs @ [hd as]))" "y \<noteq> hd (bs @ [hd as])" for y
    using that d by (cases as; cases bs) (auto simp: pv ring_next_def)
qed (use d in auto)

lemma rmqueue_law:
  assumes r: "kmsg_ring queue m (as @ k # bs)"
  shows "\<exists>queue' m'. ipc_kmsg_rmqueue queue k m = Some (queue', m') \<and> kmsg_ring queue' m' (as @ bs) \<and>
    (\<forall>y. y \<notin> set (as @ k # bs) \<longrightarrow> m' y = m y) \<and> kmsg_payload m' = kmsg_payload m"
proof -
  let ?xs = "as @ k # bs"
  have base: "ikmq_base queue = hd ?xs" "0 \<notin> set ?xs" "distinct ?xs" "kmsg_linked m (?xs @ [hd ?xs])"
    using r by (simp_all add: kmsg_ring_def)
  have b0: "ikmq_base queue \<noteq> 0" using base(1,2) by (metis append_is_Nil_conv hd_in_set list.distinct(1))
  obtain x where x: "m k = Some x" using kmsg_ring_there [OF r] by auto
  show ?thesis
  proof (cases "as @ bs = []")
    case True
    then have "ikm_next x = k" "ikm_prev x = k" using base(4) x by auto
    then show ?thesis
      using True x base(1,2) b0
      by (auto simp: ipc_kmsg_rmqueue_def set_bogus_def set_kmsg_Some kmsg_ring_def kmsg_payload_def Let_def)
  next
    case False
    let ?p = "ring_prev as bs" and ?n = "ring_next as bs"
    have ends: "ikm_next x = ?n" "ikm_prev x = ?p" "?p \<in> set (as @ bs)" "?n \<in> set (as @ bs)"
      using kmsg_ring_neighbours [OF r False] x by auto
    then have ne: "?p \<noteq> k" "?n \<noteq> k" using base(3) by auto
    obtain b c where bc: "m ?n = Some b" "m ?p = Some c" using kmsg_ring_there [OF r] ends(3,4) by fastforce
    define m' where "m' = (let m1 = m(?n \<mapsto> b\<lparr>ikm_prev := ?p\<rparr>); m2 = m1(?p \<mapsto> (the (m1 ?p))\<lparr>ikm_next := ?n\<rparr>)
        in m2(k \<mapsto> x\<lparr>ikm_next := IKM_BOGUS, ikm_prev := IKM_BOGUS\<rparr>))"
    let ?q = "if ikmq_base queue = k then queue\<lparr>ikmq_base := ?n\<rparr> else queue"
    have run: "ipc_kmsg_rmqueue queue k m = Some (?q, m')"
      using x bc ne b0 ends(1,2) by (auto simp: ipc_kmsg_rmqueue_def set_bogus_def set_kmsg_def m'_def Let_def)
    have nx: "map_option ikm_next (m' y) = (if y = k then Some IKM_BOGUS else if y = ?p then Some ?n else map_option ikm_next (m y))" for y
      using bc ne by (auto simp: m'_def Let_def)
    have pv: "map_option ikm_prev (m' y) = (if y = k then Some IKM_BOGUS else if y = ?n then Some ?p else map_option ikm_prev (m y))" for y
      using bc ne by (auto simp: m'_def Let_def)
    have fr: "\<forall>y. y \<notin> set ?xs \<longrightarrow> m' y = m y" "kmsg_payload m' = kmsg_payload m"
      using bc ne x ends(3,4) by (auto simp: m'_def Let_def kmsg_payload_def)
    have "kmsg_linked m' ((as @ bs) @ [hd (as @ bs)])"
      using kmsg_linked_first [of k bs m m' "Some IKM_BOGUS"] kmsg_linked_later [of as k bs m m' "Some IKM_BOGUS"] base(3,4) nx pv False
      by (cases "as = []") (simp_all add: ring_prev_def ring_next_def)
    moreover have "ikmq_base ?q = hd (as @ bs)" using base(1,3) False by (cases as) (auto simp: ring_next_def)
    ultimately have "kmsg_ring ?q m' (as @ bs)" using base(2,3) False by (auto simp: kmsg_ring_def)
    then show ?thesis using run fr by blast
  qed
qed

text \<open>Taking the first message is taking out that message.\<close>

lemma rmqueue_first_eq:
  "ikmq_base queue = kmsg \<Longrightarrow> kmsg \<noteq> IKM_NULL \<Longrightarrow>
     ipc_kmsg_rmqueue_first_macro queue kmsg m = ipc_kmsg_rmqueue queue kmsg m"
  by (cases "m kmsg") (simp_all add: ipc_kmsg_rmqueue_first_macro_def ipc_kmsg_rmqueue_def Let_def)

lemma kmsg_ring_Cons:
  "kmsg_ring queue m (x # xs) \<Longrightarrow> ikmq_base queue = x \<and> x \<noteq> IKM_NULL"
  by (simp add: kmsg_ring_def)

lemma dequeue_law:
  assumes "kmsg_ring queue m xs"
  shows "\<exists>queue' m'. ipc_kmsg_dequeue queue m = Some (case xs of [] \<Rightarrow> IKM_NULL | x # _ \<Rightarrow> x, queue', m') \<and>
    kmsg_ring queue' m' (tl xs) \<and> (\<forall>y. y \<notin> set xs \<longrightarrow> m' y = m y) \<and> kmsg_payload m' = kmsg_payload m"
proof (cases xs)
  case Nil
  then show ?thesis
    using assms by (auto simp: ipc_kmsg_dequeue_def ipc_kmsg_queue_first_def kmsg_ring_def)
next
  case (Cons x ys)
  have b: "ikmq_base queue = x" "x \<noteq> 0" using kmsg_ring_Cons assms Cons by auto
  then have "ipc_kmsg_dequeue queue m = do { (queue1, m1) \<leftarrow> ipc_kmsg_rmqueue queue x m; Some (x, queue1, m1) }"
    by (simp add: ipc_kmsg_dequeue_def ipc_kmsg_queue_first_def rmqueue_first_eq)
  then show ?thesis using rmqueue_law [of queue m "[]" x ys] assms Cons by auto
qed

lemma queue_next_law:
  assumes "kmsg_ring queue m (as @ k # bs)"
  shows "ipc_kmsg_queue_next queue k m = Some (case bs of [] \<Rightarrow> IKM_NULL | y # _ \<Rightarrow> y)"
proof -
  let ?xs = "as @ k # bs"
  have base: "ikmq_base queue = hd ?xs" "distinct ?xs" "0 \<notin> set ?xs" "kmsg_linked m (?xs @ [hd ?xs])"
    using assms by (simp_all add: kmsg_ring_def)
  have b0: "ikmq_base queue \<noteq> 0" using base(1,3) by (metis append_is_Nil_conv hd_in_set list.distinct(1))
  have "kmsg_linked m (k # bs @ [hd ?xs])" using base(4) kmsg_linked_append [of m as k "bs @ [hd ?xs]"] by simp
  then obtain x where x: "m k = Some x" "ikm_next x = hd (bs @ [hd ?xs])" by (cases bs) auto
  show ?thesis
  proof (cases bs)
    case Nil
    then show ?thesis using x base(1) b0 by (simp add: ipc_kmsg_queue_next_def)
  next
    case (Cons y cs)
    then have "hd ?xs \<noteq> y" using base(2) by (cases as) auto
    then show ?thesis using x base(1) b0 Cons by (simp add: ipc_kmsg_queue_next_def)
  qed
qed

text \<open>A queue and its messages determine which messages it holds.\<close>

lemma kmsg_linked_unique:
  "kmsg_linked m (x # xs @ [h]) \<Longrightarrow> kmsg_linked m (x # ys @ [h]) \<Longrightarrow> h \<notin> set xs \<Longrightarrow> h \<notin> set ys \<Longrightarrow> xs = ys"
proof (induction xs arbitrary: x ys)
  case Nil
  then show ?case by (cases ys) auto
next
  case (Cons z zs)
  then show ?case by (cases ys) auto
qed

lemma kmsg_ring_unique: "kmsg_ring queue m xs \<Longrightarrow> kmsg_ring queue m ys \<Longrightarrow> xs = ys"
  by (cases xs; cases ys) (auto simp: kmsg_ring_def intro: kmsg_linked_unique)

section \<open>Message queues as queues\<close>

text \<open>What is done to a queue, what it means for the list of the elements, oldest first, and sequences of it.\<close>

datatype 'x queue_op = Enqueue 'x | Dequeue | Remove 'x | Next 'x

definition first_of :: "'x list \<Rightarrow> 'x option" where
  "first_of xs = (case xs of [] \<Rightarrow> None | x # _ \<Rightarrow> Some x)"

fun list_op :: "'x queue_op \<Rightarrow> 'x list \<Rightarrow> ('x option \<times> 'x list) option" where
  "list_op (Enqueue x) xs = (if x \<in> set xs then None else Some (None, xs @ [x]))"
| "list_op Dequeue xs = Some (first_of xs, tl xs)"
| "list_op (Remove x) xs = (if x \<in> set xs then Some (None, remove1 x xs) else None)"
| "list_op (Next x) xs = (if x \<in> set xs then Some (first_of (tl (dropWhile (\<lambda>y. y \<noteq> x) xs)), xs) else None)"

fun run_ops :: "('op \<Rightarrow> 's \<Rightarrow> ('r \<times> 's) option) \<Rightarrow> 'op list \<Rightarrow> 's \<Rightarrow> ('r list \<times> 's) option" where
  "run_ops f [] s = Some ([], s)"
| "run_ops f (a # as) s = do { (r, s1) \<leftarrow> f a s; (rs, s2) \<leftarrow> run_ops f as s1; Some (r # rs, s2) }"

text \<open>
  The interface of a queue: \<open>holds q xs\<close> says that the queue \<open>q\<close> holds the elements \<open>xs\<close>, \<open>contents q\<close> is
  what no operation changes, and the elements that are \<open>ready\<close> may be put into it.
\<close>

locale fifo =
  fixes holds :: "'q \<Rightarrow> 'x list \<Rightarrow> bool"
    and contents :: "'q \<Rightarrow> 'c"
    and ready :: "'c \<Rightarrow> 'x \<Rightarrow> bool"
    and perform :: "'x queue_op \<Rightarrow> 'q \<Rightarrow> ('x option \<times> 'q) option"
  assumes holds_unique: "holds q xs \<Longrightarrow> holds q ys \<Longrightarrow> xs = ys"
    and enqueue: "holds q xs \<Longrightarrow> ready (contents q) x \<Longrightarrow> x \<notin> set xs \<Longrightarrow>
      \<exists>q'. perform (Enqueue x) q = Some (None, q') \<and> holds q' (xs @ [x]) \<and> contents q' = contents q"
    and dequeue: "holds q xs \<Longrightarrow>
      \<exists>q'. perform Dequeue q = Some (first_of xs, q') \<and> holds q' (tl xs) \<and> contents q' = contents q"
    and remove: "holds q (xs @ x # ys) \<Longrightarrow>
      \<exists>q'. perform (Remove x) q = Some (None, q') \<and> holds q' (xs @ ys) \<and> contents q' = contents q"
    and successor: "holds q (xs @ x # ys) \<Longrightarrow> perform (Next x) q = Some (first_of ys, q)"
begin

lemma perform_refines:
  assumes "holds q xs" "list_op a xs = Some (r, ys)" "\<forall>x. a = Enqueue x \<longrightarrow> ready (contents q) x"
  shows "\<exists>q'. perform a q = Some (r, q') \<and> holds q' ys \<and> contents q' = contents q"
proof (cases a)
  case (Remove x)
  then obtain as bs where "xs = as @ x # bs" "x \<notin> set as"
    using assms(2) by (auto split: if_splits dest: split_list_first)
  then show ?thesis using assms Remove remove [of q as x bs] by (auto simp: remove1_append)
next
  case (Next x)
  then obtain as bs where "xs = as @ x # bs" "x \<notin> set as"
    using assms(2) by (auto split: if_splits dest: split_list_first)
  moreover from this have "dropWhile (\<lambda>y. y \<noteq> x) xs = x # bs" by (metis (mono_tags, lifting) dropWhile_append2 dropWhile.simps(2))
  ultimately show ?thesis using assms Next successor [of q as x bs] by auto
qed (use assms enqueue dequeue in \<open>auto split: if_splits\<close>)

lemma run_refines:
  "holds q xs \<Longrightarrow> run_ops list_op ops xs = Some (rs, ys) \<Longrightarrow> \<forall>x. Enqueue x \<in> set ops \<longrightarrow> ready (contents q) x \<Longrightarrow>
     \<exists>q'. run_ops perform ops q = Some (rs, q') \<and> holds q' ys \<and> contents q' = contents q"
proof (induction ops arbitrary: q xs rs)
  case (Cons a ops)
  from Cons.prems(2) obtain r zs ss where step: "list_op a xs = Some (r, zs)" "run_ops list_op ops zs = Some (ss, ys)" "rs = r # ss"
    by (auto split: Option.bind_splits)
  obtain q1 where q1: "perform a q = Some (r, q1)" "holds q1 zs" "contents q1 = contents q"
    using perform_refines [OF Cons.prems(1) step(1)] Cons.prems(3) by auto
  then show ?case using Cons.IH [OF q1(2) step(2)] Cons.prems(3) step(3) by auto
qed simp

text \<open>The other direction: what the queue does is what the list of its elements does.\<close>

lemma run_abstracts:
  assumes "holds q xs" "run_ops list_op ops xs = Some (rs, ys)" "\<forall>x. Enqueue x \<in> set ops \<longrightarrow> ready (contents q) x"
    and "run_ops perform ops q = Some (ss, q')"
  shows "ss = rs \<and> (\<forall>zs. holds q' zs \<longleftrightarrow> zs = ys)"
  using run_refines [OF assms(1-3)] assms(4) holds_unique by auto

end

text \<open>The operations on a queue with its messages.\<close>

definition kmsg_or_none :: "ipc_kmsg_t \<Rightarrow> ipc_kmsg_t option" where
  "kmsg_or_none kmsg = (if kmsg = IKM_NULL then None else Some kmsg)"

fun kmsg_op :: "ipc_kmsg_t queue_op \<Rightarrow> ipc_kmsg_queue \<times> kmsg_store \<Rightarrow>
    (ipc_kmsg_t option \<times> ipc_kmsg_queue \<times> kmsg_store) option" where
  "kmsg_op (Enqueue k) (queue, m) = do { q \<leftarrow> ipc_kmsg_enqueue queue k m; Some (None, q) }"
| "kmsg_op Dequeue (queue, m) = do { (k, q) \<leftarrow> ipc_kmsg_dequeue queue m; Some (kmsg_or_none k, q) }"
| "kmsg_op (Remove k) (queue, m) = do { q \<leftarrow> ipc_kmsg_rmqueue queue k m; Some (None, q) }"
| "kmsg_op (Next k) (queue, m) = do { n \<leftarrow> ipc_kmsg_queue_next queue k m; Some (kmsg_or_none n, (queue, m)) }"

lemma kmsg_ring_first:
  assumes "kmsg_ring queue m (as @ bs)"
  shows "kmsg_or_none (case bs of [] \<Rightarrow> IKM_NULL | y # _ \<Rightarrow> y) = first_of bs"
  using assms by (cases bs) (auto simp: kmsg_ring_def kmsg_or_none_def first_of_def)

interpretation kmsgs: fifo "\<lambda>(queue, m). kmsg_ring queue m" "\<lambda>(queue, m). kmsg_payload m"
  "\<lambda>p k. k \<noteq> IKM_NULL \<and> p k \<noteq> None" kmsg_op
proof (unfold_locales, goal_cases)
  case (1 q xs ys)
  then show ?case by (auto intro: kmsg_ring_unique)
next
  case (2 q xs x)
  then show ?case using enqueue_law by (auto simp: kmsg_payload_def) fastforce
next
  case (3 q xs)
  then show ?case using dequeue_law [of "fst q" "snd q" xs] kmsg_ring_first [of "fst q" "snd q" "[]" xs] by auto
next
  case (4 q xs x ys)
  then show ?case using rmqueue_law [of "fst q" "snd q" xs x ys] by auto
next
  case (5 q xs x ys)
  then show ?case
    using queue_next_law [of "fst q" "snd q" xs x ys] kmsg_ring_first [of "fst q" "snd q" "xs @ [x]" ys] by auto
qed

text \<open>
  Claim C11.  A message queue does what a list of messages does: for every sequence of enqueueing,
  dequeueing, taking a message out and asking for the next one that makes sense for the list of the
  messages, oldest first, the routines on the ring run without fault and give the same results, the
  ring holds the same messages in the same order at the end, and only the links of messages have
  changed.
\<close>

theorem kmsg_queue_refines:
  assumes "kmsg_ring queue m xs" "run_ops list_op ops xs = Some (rs, ys)"
    and "\<forall>k. Enqueue k \<in> set ops \<longrightarrow> k \<noteq> IKM_NULL \<and> k \<in> dom m"
  shows "\<exists>queue' m'. run_ops kmsg_op ops (queue, m) = Some (rs, queue', m') \<and> kmsg_ring queue' m' ys \<and>
    kmsg_payload m' = kmsg_payload m"
  using kmsgs.run_refines [of "(queue, m)" xs ops rs ys] assms by (auto simp: kmsg_payload_def domIff)

definition sample_kmsgs :: kmsg_store where
  "sample_kmsgs = (\<lambda>k. if k \<in> {0x10, 0x20, 0x30}
     then Some \<lparr>ikm_next = IKM_BOGUS, ikm_prev = IKM_BOGUS, ikm_prealloc = IP_NULL, ikm_size = 256,
       ikm_header = \<lparr>msgh_bits = 0, msgh_size = 24, msgh_remote_port = 0, msgh_local_port = 0, msgh_reserved = 0, msgh_id = 0\<rparr>\<rparr>
     else None)"

theorem kmsg_queue_refines_witness:
  "\<exists>queue' m'. run_ops kmsg_op [Enqueue 0x10, Enqueue 0x20, Enqueue 0x30, Next 0x10, Remove 0x20, Dequeue, Dequeue, Dequeue]
       (\<lparr>ikmq_base = IKM_NULL\<rparr>, sample_kmsgs) =
       Some ([None, None, None, Some 0x20, None, Some 0x10, Some 0x30, None], queue', m') \<and> kmsg_ring queue' m' []"
  using kmsg_queue_refines [of "\<lparr>ikmq_base = IKM_NULL\<rparr>" sample_kmsgs "[]"
      "[Enqueue 0x10, Enqueue 0x20, Enqueue 0x30, Next 0x10, Remove 0x20, Dequeue, Dequeue, Dequeue]"
      "[None, None, None, Some 0x20, None, Some 0x10, Some 0x30, None]" "[]"]
  by (auto simp: kmsg_ring_def sample_kmsgs_def first_of_def dom_def)

end
