(* ===== verification/Mach_Port.thy ===== *)
theory Mach_Port
  imports Ipc_Object_Ops
begin

text \<open>
  The kernel calls on port names, \<open>osfmk/ipc/mach_port.c\<close>, over the routines for entries, rights,
  objects and port sets.  A call gets the pointer to the space of the task; with a null pointer it
  returns \<open>KERN_INVALID_TASK\<close>, and otherwise it works on the space of the state.  The allocation of
  memory, and what a call asks of a message queue, are parameters.
\<close>

section \<open>Parameters\<close>

definition IS_NULL :: ipc_space_t where "IS_NULL = 0"

record port_calls =
  vm_allocate :: "nat \<Rightarrow> u32 \<Rightarrow> ipc_kstate \<Rightarrow> bool"
  vm_map_wire :: "nat \<Rightarrow> u32 \<Rightarrow> ipc_kstate \<Rightarrow> bool"
  c_kmsg_alloc :: "u32 \<Rightarrow> ipc_kstate \<Rightarrow> ipc_kmsg_t"
  c_mqueue_set_qlimit :: "ipc_port_t \<Rightarrow> u32 \<Rightarrow> ipc_kstate \<Rightarrow> ipc_kstate"
  c_mqueue_qlimit :: "ipc_port_t \<Rightarrow> ipc_kstate \<Rightarrow> u32"
  c_mqueue_msgcount :: "ipc_port_t \<Rightarrow> ipc_kstate \<Rightarrow> u32"

text \<open>The pointer of a call to its space.\<close>

definition with_space :: "ipc_space_t \<Rightarrow> 'r \<Rightarrow> (ipc_kstate \<Rightarrow> ('r \<times> ipc_kstate) option) \<Rightarrow> ipc_kstate \<Rightarrow> ('r \<times> ipc_kstate) option" where
  "with_space space err f s =
     (if space = IS_NULL then Some (err, s) else do { kassert (space = st_self s); f s })"

section \<open>The names of a space\<close>

definition round_page :: "u32 \<Rightarrow> u32" where
  "round_page x = (x + (of_nat PAGE_SIZE - 1)) AND NOT (of_nat PAGE_SIZE - 1)"

text \<open>The two arrays that a call fills, and how many elements it has filled.\<close>

record name_arrays =
  na_names :: "mach_port_name_t list"
  na_types :: "u32 list"
  na_actual :: nat

definition store_name :: "mach_port_name_t \<Rightarrow> u32 \<Rightarrow> name_arrays \<Rightarrow> name_arrays option" where
  "store_name name type a =
     do { kassert (na_actual a < length (na_names a) \<and> na_actual a < length (na_types a));
          Some (a\<lparr>na_names := (na_names a)[na_actual a := name], na_types := (na_types a)[na_actual a := type],
                   na_actual := na_actual a + 1\<rparr>) }"

text \<open>What an entry with a right for a port that died before the time of the call counts as.\<close>

definition names_bits :: "bool \<Rightarrow> ipc_entry \<Rightarrow> ipc_entry_bits_t \<times> nat" where
  "names_bits died entry =
     (if died
      then (let bits = (ie_bits entry AND NOT IE_BITS_TYPE_MASK) OR MACH_PORT_TYPE_DEAD_NAME
            in (if ie_request entry \<noteq> 0 then bits + 1 else bits, 0))
      else (ie_bits entry, ie_request entry))"

definition mach_port_names_helper ::
  "u32 \<Rightarrow> ipc_entry \<Rightarrow> mach_port_name_t \<Rightarrow> name_arrays \<times> ipc_kstate \<Rightarrow> (name_arrays \<times> ipc_kstate) option" where
  "mach_port_names_helper timestamp entry name as =
     (case as of (a, s) \<Rightarrow>
        do { (died, s1) \<leftarrow>
               (if has_bits (ie_bits entry) MACH_PORT_TYPE_SEND_RIGHTS
                then do { let port = ie_object entry;
                          kassert (port \<noteq> IP_NULL);
                          s1 \<leftarrow> ip_lock port s;
                          p \<leftarrow> st_objects s1 port;
                          let died = (\<not> ip_active p \<and> IP_TIMESTAMP_ORDER (ip_timestamp p) timestamp);
                          s2 \<leftarrow> ip_unlock port s1;
                          Some (died, s2) }
                else Some (False, s));
             let (bits, request) = names_bits died entry;
             let type = IE_BITS_TYPE bits;
             a1 \<leftarrow> store_name name (if request \<noteq> 0 then type OR MACH_PORT_TYPE_DNREQUEST else type) a;
             Some (a1, s1) })"

fun names_table :: "u32 \<Rightarrow> nat list \<Rightarrow> name_arrays \<times> ipc_kstate \<Rightarrow> (name_arrays \<times> ipc_kstate) option" where
  "names_table timestamp [] as = Some as"
| "names_table timestamp (index # is) as =
     (let entry = space_table (snd as) ! index; bits = ie_bits entry
      in if IE_BITS_TYPE bits \<noteq> MACH_PORT_TYPE_NONE
         then do { as1 \<leftarrow> mach_port_names_helper timestamp entry (MACH_PORT_MAKE (of_nat index) (IE_BITS_GEN bits)) as;
                   names_table timestamp is as1 }
         else names_table timestamp is as)"

definition names_tree_entry ::
  "u32 \<Rightarrow> ipc_tree_entry_t node \<Rightarrow> name_arrays \<times> ipc_kstate \<Rightarrow> (bool \<times> name_arrays \<times> ipc_kstate) option" where
  "names_tree_entry timestamp node as =
     do { te \<leftarrow> st_tree_entries (snd as) (snd node);
          kassert (IE_BITS_TYPE (ite_bits te) \<noteq> MACH_PORT_TYPE_NONE);
          as1 \<leftarrow> mach_port_names_helper timestamp (ite_entry te) (ipc_tree_entry.ite_name te) as;
          Some (False, as1) }"

text \<open>The space is locked and active, and both arrays have \<open>sz\<close> bytes.\<close>

definition names_collect :: "u32 \<Rightarrow> ipc_kstate \<Rightarrow> ((mach_port_name_t list \<times> u32 list) \<times> ipc_kstate) option" where
  "names_collect sz s =
     do { let (timestamp, s1) = ipc_port_timestamp s;
          let blank = replicate (unat sz div 4) 0;
          (a, s2) \<leftarrow> names_table timestamp [0..<length (space_table s1)]
                       (\<lparr>na_names = blank, na_types = blank, na_actual = 0\<rparr>, s1);
          (as, tree) \<leftarrow> ipc_splay_traverse (traverse_option (names_tree_entry timestamp)) (is_tree (st_space s2)) (Some (a, s2));
          (a1, s3) \<leftarrow> as;
          s4 \<leftarrow> is_write_unlock (put_tree tree s3);
          Some ((take (na_actual a1) (na_names a1), take (na_actual a1) (na_types a1)), s4) }"

partial_function (option) names_loop ::
  "ipc_kernel \<Rightarrow> port_calls \<Rightarrow> u32 \<Rightarrow> ipc_kstate \<Rightarrow> ((kern_return_t + mach_port_name_t list \<times> u32 list) \<times> ipc_kstate) option" where
  "names_loop k c sz s =
     do { s1 \<leftarrow> is_write_lock s;
          if \<not> is_active (st_space s1)
          then do { s2 \<leftarrow> is_write_unlock s1; Some (Inl KERN_INVALID_TASK, s2) }
          else do {
            let bound = length (space_table s1) + is_tree_total (st_space s1);
            let size_needed = round_page (of_nat bound * 4);
            if size_needed \<le> sz
            then do { (r, s2) \<leftarrow> names_collect sz s1; Some (Inr r, s2) }
            else do {
              s2 \<leftarrow> is_write_unlock s1;
              let s3 = others k s2;
              if \<not> (vm_allocate c 1 size_needed s3 \<and> vm_allocate c 2 size_needed s3 \<and>
                    vm_map_wire c 1 size_needed s3 \<and> vm_map_wire c 2 size_needed s3)
              then Some (Inl KERN_RESOURCE_SHORTAGE, s3)
              else names_loop k c size_needed s3 } } }"

definition mach_port_names ::
  "ipc_kernel \<Rightarrow> port_calls \<Rightarrow> ipc_space_t \<Rightarrow> ipc_kstate \<Rightarrow> ((kern_return_t + mach_port_name_t list \<times> u32 list) \<times> ipc_kstate) option" where
  "mach_port_names k c space = with_space space (Inl KERN_INVALID_TASK) (names_loop k c 0)"

section \<open>Types, names and allocation\<close>

definition mach_port_type ::
  "ipc_space_t \<Rightarrow> mach_port_name_t \<Rightarrow> ipc_kstate \<Rightarrow> ((kern_return_t + u32) \<times> ipc_kstate) option" where
  "mach_port_type space name = with_space space (Inl KERN_INVALID_TASK) (\<lambda>s.
     if name = MACH_PORT_NULL then Some (Inl KERN_INVALID_NAME, s)
     else if name = MACH_PORT_DEAD then Some (Inr MACH_PORT_TYPE_DEAD_NAME, s)
     else do {
       (r, s1) \<leftarrow> ipc_right_lookup_write name s;
       case r of
         Inl kr \<Rightarrow> Some (Inl kr, s1)
       | Inr entry \<Rightarrow> do { ((type, urefs), s2) \<leftarrow> ipc_right_info name entry s1;
                          s3 \<leftarrow> is_write_unlock s2;
                          Some (Inr type, s3) } })"

definition mach_port_rename ::
  "ipc_kernel \<Rightarrow> ipc_space_t \<Rightarrow> mach_port_name_t \<Rightarrow> mach_port_name_t \<Rightarrow> ipc_kstate \<Rightarrow> (kern_return_t \<times> ipc_kstate) option" where
  "mach_port_rename k space oname nname = with_space space KERN_INVALID_TASK (\<lambda>s.
     if \<not> MACH_PORT_VALID oname then Some (KERN_INVALID_NAME, s)
     else if \<not> MACH_PORT_VALID nname then Some (KERN_INVALID_VALUE, s)
     else ipc_object_rename k oname nname s)"

text \<open>\<open>qos_name\<close> and \<open>qos_prealloc\<close> are the bit fields \<open>name\<close> and \<open>prealloc\<close>.\<close>

record mach_port_qos =
  qos_name :: bool
  qos_prealloc :: bool
  qos_len :: u32

definition qos_template :: mach_port_qos where
  "qos_template = \<lparr>qos_name = False, qos_prealloc = False, qos_len = 0\<rparr>"

definition MAX_TRAILER_SIZE :: u32 where "MAX_TRAILER_SIZE = 52"

definition ipc_kmsg_set_prealloc :: "ipc_kmsg_t \<Rightarrow> ipc_port_t \<Rightarrow> ipc_kstate \<Rightarrow> ipc_kstate option" where
  "ipc_kmsg_set_prealloc kmsg port s =
     set_object port (\<lambda>p. p\<lparr>io_bits := io_bits p OR IP_BIT_PREALLOC, ip_premsg := kmsg\<rparr>) s"

definition allocate_receive ::
  "ipc_kernel \<Rightarrow> mach_port_qos \<Rightarrow> ipc_kmsg_t \<Rightarrow> mach_port_name_t \<Rightarrow> ipc_kstate
     \<Rightarrow> ((kern_return_t + mach_port_name_t) \<times> ipc_kstate) option" where
  "allocate_receive k qos kmsg name s =
     do { (r, s1) \<leftarrow> (if qos_name qos
                    then map_option (map_prod (map_sum id (Pair name)) id) (ipc_port_alloc_name k name s)
                    else ipc_port_alloc k s);
          case r of
            Inl kr \<Rightarrow> Some (Inl kr, if kmsg \<noteq> IKM_NULL then k_kmsg_free k kmsg s1 else s1)
          | Inr (nname, port) \<Rightarrow> do {
              s2 \<leftarrow> (if kmsg \<noteq> IKM_NULL then ipc_kmsg_set_prealloc kmsg port s1 else Some s1);
              s3 \<leftarrow> ip_unlock port s2;
              Some (Inr nname, s3) } }"

definition allocate_pset ::
  "ipc_kernel \<Rightarrow> mach_port_qos \<Rightarrow> mach_port_name_t \<Rightarrow> ipc_kstate \<Rightarrow> ((kern_return_t + mach_port_name_t) \<times> ipc_kstate) option" where
  "allocate_pset k qos name s =
     do { (r, s1) \<leftarrow> (if qos_name qos
                    then map_option (map_prod (map_sum id (Pair name)) id) (ipc_pset_alloc_name k name s)
                    else ipc_pset_alloc k s);
          case r of
            Inl kr \<Rightarrow> Some (Inl kr, s1)
          | Inr (nname, pset) \<Rightarrow> do { s2 \<leftarrow> io_unlock pset s1; Some (Inr nname, s2) } }"

text \<open>The name of the call is passed in when the name is given, and passed out otherwise.\<close>

definition mach_port_allocate_full ::
  "ipc_kernel \<Rightarrow> port_calls \<Rightarrow> ipc_space_t \<Rightarrow> u32 \<Rightarrow> ipc_port_t \<Rightarrow> mach_port_qos \<Rightarrow> mach_port_name_t \<Rightarrow> ipc_kstate
     \<Rightarrow> ((kern_return_t + mach_port_name_t) \<times> ipc_kstate) option" where
  "mach_port_allocate_full k c space rt proto qos name = with_space space (Inl KERN_INVALID_TASK) (\<lambda>s.
     if proto \<noteq> MACH_PORT_NULL then Some (Inl KERN_INVALID_VALUE, s)
     else if qos_name qos \<and> \<not> MACH_PORT_VALID name then Some (Inl KERN_INVALID_VALUE, s)
     else if qos_name qos \<and> is_fast (st_space s) then Some (Inl KERN_FAILURE, s)
     else if qos_prealloc qos \<and> rt \<noteq> MACH_PORT_RIGHT_RECEIVE then Some (Inl KERN_INVALID_VALUE, s)
     else do {
       let kmsg = (if qos_prealloc qos then c_kmsg_alloc c (qos_len qos + MAX_TRAILER_SIZE) s else IKM_NULL);
       if qos_prealloc qos \<and> kmsg = IKM_NULL then Some (Inl KERN_RESOURCE_SHORTAGE, s)
       else if rt = MACH_PORT_RIGHT_RECEIVE then allocate_receive k qos kmsg name s
       else if rt = MACH_PORT_RIGHT_PORT_SET then allocate_pset k qos name s
       else if rt = MACH_PORT_RIGHT_DEAD_NAME then ipc_object_alloc_dead k s
       else Some (Inl KERN_INVALID_VALUE, s) })"

definition mach_port_allocate_name ::
  "ipc_kernel \<Rightarrow> port_calls \<Rightarrow> ipc_space_t \<Rightarrow> u32 \<Rightarrow> mach_port_name_t \<Rightarrow> ipc_kstate \<Rightarrow> (kern_return_t \<times> ipc_kstate) option" where
  "mach_port_allocate_name k c space rt name s =
     (if \<not> MACH_PORT_VALID name then Some (KERN_INVALID_VALUE, s)
      else do { (r, s1) \<leftarrow> mach_port_allocate_full k c space rt MACH_PORT_NULL (qos_template\<lparr>qos_name := True\<rparr>) name s;
                Some (case r of Inl kr \<Rightarrow> kr | Inr _ \<Rightarrow> KERN_SUCCESS, s1) })"

definition mach_port_allocate ::
  "ipc_kernel \<Rightarrow> port_calls \<Rightarrow> ipc_space_t \<Rightarrow> u32 \<Rightarrow> ipc_kstate \<Rightarrow> ((kern_return_t + mach_port_name_t) \<times> ipc_kstate) option" where
  "mach_port_allocate k c space rt = mach_port_allocate_full k c space rt MACH_PORT_NULL qos_template MACH_PORT_NULL"

definition mach_port_allocate_qos ::
  "ipc_kernel \<Rightarrow> port_calls \<Rightarrow> ipc_space_t \<Rightarrow> u32 \<Rightarrow> mach_port_qos \<Rightarrow> ipc_kstate
     \<Rightarrow> ((kern_return_t + mach_port_name_t) \<times> ipc_kstate) option" where
  "mach_port_allocate_qos k c space rt qos s =
     (if qos_name qos then Some (Inl KERN_INVALID_ARGUMENT, s)
      else mach_port_allocate_full k c space rt MACH_PORT_NULL qos MACH_PORT_NULL s)"

section \<open>User references\<close>

definition mach_port_destroy ::
  "ipc_kernel \<Rightarrow> ipc_space_t \<Rightarrow> mach_port_name_t \<Rightarrow> ipc_kstate \<Rightarrow> (kern_return_t \<times> ipc_kstate) option" where
  "mach_port_destroy k space name = with_space space KERN_INVALID_TASK (\<lambda>s.
     if \<not> MACH_PORT_VALID name then Some (KERN_SUCCESS, s)
     else do {
       (r, s1) \<leftarrow> ipc_right_lookup_write name s;
       case r of
         Inl kr \<Rightarrow> Some (kr, s1)
       | Inr entry \<Rightarrow> do { s2 \<leftarrow> ipc_right_destroy k name entry s1;
                          s3 \<leftarrow> is_write_unlock s2;
                          Some (KERN_SUCCESS, s3) } })"

definition mach_port_deallocate ::
  "ipc_kernel \<Rightarrow> ipc_space_t \<Rightarrow> mach_port_name_t \<Rightarrow> ipc_kstate \<Rightarrow> (kern_return_t \<times> ipc_kstate) option" where
  "mach_port_deallocate k space name = with_space space KERN_INVALID_TASK (\<lambda>s.
     if \<not> MACH_PORT_VALID name then Some (KERN_SUCCESS, s)
     else do {
       (r, s1) \<leftarrow> ipc_right_lookup_write name s;
       case r of Inl kr \<Rightarrow> Some (kr, s1) | Inr entry \<Rightarrow> ipc_right_dealloc k name entry s1 })"

definition refs_of_right :: "u32 \<Rightarrow> u32 \<Rightarrow> u32 \<Rightarrow> u32 option" where
  "refs_of_right rt type urefs =
     (if has_bits type (MACH_PORT_TYPE rt)
      then if rt = MACH_PORT_RIGHT_SEND_ONCE then do { kassert (urefs = 1); Some 1 }
           else if rt = MACH_PORT_RIGHT_PORT_SET \<or> rt = MACH_PORT_RIGHT_RECEIVE then Some 1
           else if rt = MACH_PORT_RIGHT_DEAD_NAME \<or> rt = MACH_PORT_RIGHT_SEND
           then do { kassert (urefs > 0); Some urefs }
           else None
      else Some 0)"

definition mach_port_get_refs ::
  "ipc_space_t \<Rightarrow> mach_port_name_t \<Rightarrow> u32 \<Rightarrow> ipc_kstate \<Rightarrow> ((kern_return_t + u32) \<times> ipc_kstate) option" where
  "mach_port_get_refs space name rt = with_space space (Inl KERN_INVALID_TASK) (\<lambda>s.
     if rt \<ge> MACH_PORT_RIGHT_NUMBER then Some (Inl KERN_INVALID_VALUE, s)
     else if \<not> MACH_PORT_VALID name
     then Some (if rt = MACH_PORT_RIGHT_SEND \<or> rt = MACH_PORT_RIGHT_SEND_ONCE then Inr 1 else Inl KERN_INVALID_NAME, s)
     else do {
       (r, s1) \<leftarrow> ipc_right_lookup_write name s;
       case r of
         Inl kr \<Rightarrow> Some (Inl kr, s1)
       | Inr entry \<Rightarrow> do { ((type, urefs), s2) \<leftarrow> ipc_right_info name entry s1;
                          s3 \<leftarrow> is_write_unlock s2;
                          n \<leftarrow> refs_of_right rt type urefs;
                          Some (Inr n, s3) } })"

definition mach_port_mod_refs ::
  "ipc_kernel \<Rightarrow> ipc_space_t \<Rightarrow> mach_port_name_t \<Rightarrow> u32 \<Rightarrow> u32 \<Rightarrow> ipc_kstate \<Rightarrow> (kern_return_t \<times> ipc_kstate) option" where
  "mach_port_mod_refs k space name rt delta = with_space space KERN_INVALID_TASK (\<lambda>s.
     if rt \<ge> MACH_PORT_RIGHT_NUMBER then Some (KERN_INVALID_VALUE, s)
     else if \<not> MACH_PORT_VALID name
     then Some (if rt = MACH_PORT_RIGHT_SEND \<or> rt = MACH_PORT_RIGHT_SEND_ONCE then KERN_SUCCESS else KERN_INVALID_NAME, s)
     else do {
       (r, s1) \<leftarrow> ipc_right_lookup_write name s;
       case r of Inl kr \<Rightarrow> Some (kr, s1) | Inr entry \<Rightarrow> ipc_right_delta k name entry rt delta s1 })"

section \<open>Receive rights and port sets\<close>

abbreviation ipc_port_translate_receive ::
  "mach_port_name_t \<Rightarrow> ipc_kstate \<Rightarrow> ((kern_return_t + ipc_port_t) \<times> ipc_kstate) option" where
  "ipc_port_translate_receive name \<equiv> ipc_object_translate name MACH_PORT_RIGHT_RECEIVE"

definition mach_port_set_mscount ::
  "ipc_space_t \<Rightarrow> mach_port_name_t \<Rightarrow> u32 \<Rightarrow> ipc_kstate \<Rightarrow> (kern_return_t \<times> ipc_kstate) option" where
  "mach_port_set_mscount space name mscount = with_space space KERN_INVALID_TASK (\<lambda>s.
     if \<not> MACH_PORT_VALID name then Some (KERN_INVALID_RIGHT, s)
     else do {
       (r, s1) \<leftarrow> ipc_port_translate_receive name s;
       case r of
         Inl kr \<Rightarrow> Some (kr, s1)
       | Inr port \<Rightarrow> do { s2 \<leftarrow> ipc_port_set_mscount port mscount s1;
                         s3 \<leftarrow> ip_unlock port s2;
                         Some (KERN_SUCCESS, s3) } })"

definition ipc_mqueue_set_seqno :: "ipc_port_t \<Rightarrow> u32 \<Rightarrow> ipc_kstate \<Rightarrow> ipc_kstate option" where
  "ipc_mqueue_set_seqno port seqno s = set_object port (imq_seqno_update (\<lambda>_. seqno)) s"

definition mach_port_set_seqno ::
  "ipc_space_t \<Rightarrow> mach_port_name_t \<Rightarrow> u32 \<Rightarrow> ipc_kstate \<Rightarrow> (kern_return_t \<times> ipc_kstate) option" where
  "mach_port_set_seqno space name seqno = with_space space KERN_INVALID_TASK (\<lambda>s.
     if \<not> MACH_PORT_VALID name then Some (KERN_INVALID_RIGHT, s)
     else do {
       (r, s1) \<leftarrow> ipc_port_translate_receive name s;
       case r of
         Inl kr \<Rightarrow> Some (kr, s1)
       | Inr port \<Rightarrow> do { s2 \<leftarrow> ipc_mqueue_set_seqno port seqno s1;
                         s3 \<leftarrow> ip_unlock port s2;
                         Some (KERN_SUCCESS, s3) } })"

text \<open>The members of a port set: an array of names, and how many there are, which may be more.\<close>

definition mach_port_gst_helper ::
  "ipc_kernel \<Rightarrow> ipc_pset_t \<Rightarrow> ipc_port_t \<Rightarrow> nat \<Rightarrow> (mach_port_name_t list \<times> nat) \<times> ipc_kstate
     \<Rightarrow> ((mach_port_name_t list \<times> nat) \<times> ipc_kstate) option" where
  "mach_port_gst_helper k pset port maxnames as =
     (case as of ((names, actual), s) \<Rightarrow>
        do { kassert (port \<noteq> IP_NULL);
             s1 \<leftarrow> ip_lock port s;
             p \<leftarrow> st_objects s1 port;
             kassert (ip_active p);
             let name = ip_receiver_name p;
             kassert (name \<noteq> MACH_PORT_NULL);
             s2 \<leftarrow> ip_unlock port s1;
             member \<leftarrow> ipc_pset_member k pset port s2;
             if member
             then do { kassert (actual < maxnames \<longrightarrow> actual < length names);
                       Some ((if actual < maxnames then names[actual := name] else names, actual + 1), s2) }
             else Some ((names, actual), s2) })"

fun gst_table ::
  "ipc_kernel \<Rightarrow> ipc_pset_t \<Rightarrow> nat \<Rightarrow> nat list \<Rightarrow> (mach_port_name_t list \<times> nat) \<times> ipc_kstate
     \<Rightarrow> ((mach_port_name_t list \<times> nat) \<times> ipc_kstate) option" where
  "gst_table k pset maxnames [] as = Some as"
| "gst_table k pset maxnames (index # is) as =
     (let ientry = space_table (snd as) ! index
      in if has_bits (ie_bits ientry) MACH_PORT_TYPE_RECEIVE
         then do { as1 \<leftarrow> mach_port_gst_helper k pset (ie_object ientry) maxnames as; gst_table k pset maxnames is as1 }
         else gst_table k pset maxnames is as)"

definition gst_tree_entry ::
  "ipc_kernel \<Rightarrow> ipc_pset_t \<Rightarrow> nat \<Rightarrow> ipc_tree_entry_t node \<Rightarrow> (mach_port_name_t list \<times> nat) \<times> ipc_kstate
     \<Rightarrow> (bool \<times> (mach_port_name_t list \<times> nat) \<times> ipc_kstate) option" where
  "gst_tree_entry k pset maxnames node as =
     do { te \<leftarrow> st_tree_entries (snd as) (snd node);
          kassert (IE_BITS_TYPE (ite_bits te) \<noteq> MACH_PORT_TYPE_NONE);
          as1 \<leftarrow> (if has_bits (ite_bits te) MACH_PORT_TYPE_RECEIVE
                  then mach_port_gst_helper k pset (ite_object te) maxnames as
                  else Some as);
          Some (False, as1) }"

partial_function (option) set_status_loop ::
  "ipc_kernel \<Rightarrow> port_calls \<Rightarrow> mach_port_name_t \<Rightarrow> u32 \<Rightarrow> ipc_kstate
     \<Rightarrow> ((kern_return_t + mach_port_name_t list) \<times> ipc_kstate) option" where
  "set_status_loop k c name sz s =
     (if \<not> vm_allocate c 1 sz s then Some (Inl KERN_RESOURCE_SHORTAGE, s)
      else do {
        kassert (vm_map_wire c 1 sz s);
        (r, s1) \<leftarrow> ipc_right_lookup_write name s;
        case r of
          Inl kr \<Rightarrow> Some (Inl kr, s1)
        | Inr entry \<Rightarrow> do {
            e \<leftarrow> entry_at s1 entry;
            if IE_BITS_TYPE (ie_bits e) \<noteq> MACH_PORT_TYPE_PORT_SET
            then do { s2 \<leftarrow> is_write_unlock s1; Some (Inl KERN_INVALID_RIGHT, s2) }
            else do {
              let pset = ie_object e;
              kassert (pset \<noteq> IO_NULL);
              let maxnames = unat sz div 4;
              as \<leftarrow> gst_table k pset maxnames [0..<length (space_table s1)] ((replicate maxnames 0, 0), s1);
              (as1, tree) \<leftarrow> ipc_splay_traverse (traverse_option (gst_tree_entry k pset maxnames)) (is_tree (st_space (snd as))) (Some as);
              ((names, actual), s2) \<leftarrow> as1;
              s3 \<leftarrow> is_write_unlock (put_tree tree s2);
              if actual \<le> maxnames then Some (Inr (take actual names), s3)
              else set_status_loop k c name (round_page (of_nat actual * 4) + of_nat PAGE_SIZE) (others k s3) } } })"

definition mach_port_get_set_status ::
  "ipc_kernel \<Rightarrow> port_calls \<Rightarrow> ipc_space_t \<Rightarrow> mach_port_name_t \<Rightarrow> ipc_kstate
     \<Rightarrow> ((kern_return_t + mach_port_name_t list) \<times> ipc_kstate) option" where
  "mach_port_get_set_status k c space name = with_space space (Inl KERN_INVALID_TASK) (\<lambda>s.
     if \<not> MACH_PORT_VALID name then Some (Inl KERN_INVALID_RIGHT, s)
     else set_status_loop k c name (of_nat PAGE_SIZE) s)"

definition move_to_set ::
  "ipc_kernel \<Rightarrow> ipc_port_t \<Rightarrow> ipc_pset_t \<Rightarrow> ipc_kstate \<Rightarrow> (kern_return_t \<times> ipc_kstate) option" where
  "move_to_set k port nset s =
     do { s1 \<leftarrow> ip_lock port s;
          (_, s2) \<leftarrow> ipc_pset_remove_from_all k port s1;
          (kr, s5) \<leftarrow> (if nset \<noteq> IO_NULL
                     then do { s3 \<leftarrow> io_lock nset s2;
                               (kr, s4) \<leftarrow> ipc_pset_add k nset port s3;
                               s5 \<leftarrow> io_unlock nset s4;
                               Some (kr, s5) }
                     else Some (KERN_SUCCESS, s2));
          s6 \<leftarrow> ip_unlock port s5;
          s7 \<leftarrow> is_write_unlock s6;
          Some (kr, s7) }"

definition mach_port_move_member ::
  "ipc_kernel \<Rightarrow> ipc_space_t \<Rightarrow> mach_port_name_t \<Rightarrow> mach_port_name_t \<Rightarrow> ipc_kstate \<Rightarrow> (kern_return_t \<times> ipc_kstate) option" where
  "mach_port_move_member k space member after_name = with_space space KERN_INVALID_TASK (\<lambda>s.
     if \<not> MACH_PORT_VALID member then Some (KERN_INVALID_RIGHT, s)
     else if after_name = MACH_PORT_DEAD then Some (KERN_INVALID_RIGHT, s)
     else do {
       (r, s1) \<leftarrow> ipc_right_lookup_write member s;
       case r of
         Inl kr \<Rightarrow> Some (kr, s1)
       | Inr entry \<Rightarrow> do {
           e \<leftarrow> entry_at s1 entry;
           if \<not> has_bits (ie_bits e) MACH_PORT_TYPE_RECEIVE
           then do { s2 \<leftarrow> is_write_unlock s1; Some (KERN_INVALID_RIGHT, s2) }
           else do {
             let port = ie_object e;
             kassert (port \<noteq> IP_NULL);
             if after_name = MACH_PORT_NULL then move_to_set k port IO_NULL s1
             else do {
               (r2, s2) \<leftarrow> ipc_entry_lookup s1 after_name;
               case r2 of
                 None \<Rightarrow> do { s3 \<leftarrow> is_write_unlock s2; Some (KERN_INVALID_NAME, s3) }
               | Some entry2 \<Rightarrow> do {
                   e2 \<leftarrow> entry_at s2 entry2;
                   if \<not> has_bits (ie_bits e2) MACH_PORT_TYPE_PORT_SET
                   then do { s3 \<leftarrow> is_write_unlock s2; Some (KERN_INVALID_RIGHT, s3) }
                   else do { kassert (ie_object e2 \<noteq> IO_NULL); move_to_set k port (ie_object e2) s2 } } } } } })"

definition member_call ::
  "(ipc_pset_t \<Rightarrow> ipc_port_t \<Rightarrow> ipc_kstate \<Rightarrow> (kern_return_t \<times> ipc_kstate) option) \<Rightarrow> mach_port_name_t \<Rightarrow> mach_port_name_t
     \<Rightarrow> ipc_kstate \<Rightarrow> (kern_return_t \<times> ipc_kstate) option" where
  "member_call operation name psname s =
     (if \<not> MACH_PORT_VALID name \<or> \<not> MACH_PORT_VALID psname then Some (KERN_INVALID_RIGHT, s)
      else do {
        (r, s1) \<leftarrow> ipc_object_translate_two name MACH_PORT_RIGHT_RECEIVE psname MACH_PORT_RIGHT_PORT_SET s;
        case r of
          Inl kr \<Rightarrow> Some (kr, s1)
        | Inr (obj, psobj) \<Rightarrow> do {
            kassert (psobj \<noteq> IO_NULL \<and> obj \<noteq> IO_NULL);
            (kr, s2) \<leftarrow> operation psobj obj s1;
            s3 \<leftarrow> io_unlock psobj s2;
            s4 \<leftarrow> io_unlock obj s3;
            Some (kr, s4) } })"

definition mach_port_insert_member ::
  "ipc_kernel \<Rightarrow> ipc_space_t \<Rightarrow> mach_port_name_t \<Rightarrow> mach_port_name_t \<Rightarrow> ipc_kstate \<Rightarrow> (kern_return_t \<times> ipc_kstate) option" where
  "mach_port_insert_member k space name psname = with_space space KERN_INVALID_TASK (member_call (ipc_pset_add k) name psname)"

definition mach_port_extract_member ::
  "ipc_kernel \<Rightarrow> ipc_space_t \<Rightarrow> mach_port_name_t \<Rightarrow> mach_port_name_t \<Rightarrow> ipc_kstate \<Rightarrow> (kern_return_t \<times> ipc_kstate) option" where
  "mach_port_extract_member k space name psname = with_space space KERN_INVALID_TASK (member_call (ipc_pset_remove k) name psname)"

section \<open>Notifications and rights\<close>

definition MACH_NOTIFY_PORT_DESTROYED :: u32 where "MACH_NOTIFY_PORT_DESTROYED = 69"
definition MACH_NOTIFY_NO_SENDERS :: u32 where "MACH_NOTIFY_NO_SENDERS = 70"
definition MACH_NOTIFY_DEAD_NAME :: u32 where "MACH_NOTIFY_DEAD_NAME = 72"

text \<open>The result of a successful call is the previous send-once right.\<close>

definition mach_port_request_notification ::
  "ipc_kernel \<Rightarrow> ipc_space_t \<Rightarrow> mach_port_name_t \<Rightarrow> u32 \<Rightarrow> u32 \<Rightarrow> ipc_port_t \<Rightarrow> ipc_kstate
     \<Rightarrow> ((kern_return_t + ipc_port_t) \<times> ipc_kstate) option" where
  "mach_port_request_notification k space name msgid sync notify = with_space space (Inl KERN_INVALID_TASK) (\<lambda>s.
     if notify = IP_DEAD then Some (Inl KERN_INVALID_CAPABILITY, s)
     else if msgid = MACH_NOTIFY_PORT_DESTROYED
     then if sync \<noteq> 0 then Some (Inl KERN_INVALID_VALUE, s)
          else if \<not> MACH_PORT_VALID name then Some (Inl KERN_INVALID_RIGHT, s)
          else do {
            (r, s1) \<leftarrow> ipc_port_translate_receive name s;
            case r of
              Inl kr \<Rightarrow> Some (Inl kr, s1)
            | Inr port \<Rightarrow> map_option (map_prod Inr id) (ipc_port_pdrequest port notify s1) }
     else if msgid = MACH_NOTIFY_NO_SENDERS
     then if \<not> MACH_PORT_VALID name then Some (Inl KERN_INVALID_RIGHT, s)
          else do {
            (r, s1) \<leftarrow> ipc_port_translate_receive name s;
            case r of
              Inl kr \<Rightarrow> Some (Inl kr, s1)
            | Inr port \<Rightarrow> map_option (map_prod Inr id) (ipc_port_nsrequest k port sync notify s1) }
     else if msgid = MACH_NOTIFY_DEAD_NAME
     then if \<not> MACH_PORT_VALID name then Some (Inl KERN_INVALID_ARGUMENT, s)
          else ipc_right_dnrequest k name (sync \<noteq> 0) notify s
     else Some (Inl KERN_INVALID_VALUE, s))"

definition MACH_MSG_TYPE_PORT_ANY :: "mach_msg_type_name_t \<Rightarrow> bool" where
  "MACH_MSG_TYPE_PORT_ANY x \<longleftrightarrow> MACH_MSG_TYPE_MOVE_RECEIVE \<le> x \<and> x \<le> MACH_MSG_TYPE_MAKE_SEND_ONCE"

definition MACH_MSG_TYPE_PORT_ANY_RIGHT :: "mach_msg_type_name_t \<Rightarrow> bool" where
  "MACH_MSG_TYPE_PORT_ANY_RIGHT x \<longleftrightarrow> MACH_MSG_TYPE_MOVE_RECEIVE \<le> x \<and> x \<le> MACH_MSG_TYPE_MOVE_SEND_ONCE"

definition mach_port_insert_right ::
  "ipc_kernel \<Rightarrow> ipc_space_t \<Rightarrow> mach_port_name_t \<Rightarrow> ipc_port_t \<Rightarrow> mach_msg_type_name_t \<Rightarrow> ipc_kstate
     \<Rightarrow> (kern_return_t \<times> ipc_kstate) option" where
  "mach_port_insert_right k space name poly polyPoly = with_space space KERN_INVALID_TASK (\<lambda>s.
     if \<not> MACH_PORT_VALID name \<or> \<not> MACH_MSG_TYPE_PORT_ANY_RIGHT polyPoly then Some (KERN_INVALID_VALUE, s)
     else if \<not> IO_VALID poly then Some (KERN_INVALID_CAPABILITY, s)
     else ipc_object_copyout_name k poly polyPoly False name s)"

definition mach_port_extract_right ::
  "ipc_kernel \<Rightarrow> ipc_space_t \<Rightarrow> mach_port_name_t \<Rightarrow> mach_msg_type_name_t \<Rightarrow> ipc_kstate
     \<Rightarrow> ((kern_return_t + ipc_port_t \<times> mach_msg_type_name_t) \<times> ipc_kstate) option" where
  "mach_port_extract_right k space name msgt_name = with_space space (Inl KERN_INVALID_TASK) (\<lambda>s.
     if \<not> MACH_MSG_TYPE_PORT_ANY msgt_name then Some (Inl KERN_INVALID_VALUE, s)
     else if \<not> MACH_PORT_VALID name then Some (Inl KERN_INVALID_RIGHT, s)
     else do {
       (r, s1) \<leftarrow> ipc_object_copyin k name msgt_name s;
       Some (map_sum id (\<lambda>poly. (poly, ipc_object_copyin_type msgt_name)) r, s1) })"

section \<open>Attributes\<close>

definition MACH_PORT_LIMITS_INFO :: u32 where "MACH_PORT_LIMITS_INFO = 1"
definition MACH_PORT_RECEIVE_STATUS :: u32 where "MACH_PORT_RECEIVE_STATUS = 2"
definition MACH_PORT_DNREQUESTS_SIZE :: u32 where "MACH_PORT_DNREQUESTS_SIZE = 3"
definition MACH_PORT_LIMITS_INFO_COUNT :: u32 where "MACH_PORT_LIMITS_INFO_COUNT = 1"
definition MACH_PORT_RECEIVE_STATUS_COUNT :: u32 where "MACH_PORT_RECEIVE_STATUS_COUNT = 10"
definition MACH_PORT_DNREQUESTS_SIZE_COUNT :: u32 where "MACH_PORT_DNREQUESTS_SIZE_COUNT = 1"
definition MACH_PORT_QLIMIT_MAX :: u32 where "MACH_PORT_QLIMIT_MAX = 16"

record mach_port_status =
  mps_pset :: u32
  mps_seqno :: u32
  mps_mscount :: u32
  mps_qlimit :: u32
  mps_msgcount :: u32
  mps_sorights :: u32
  mps_srights :: bool
  mps_pdrequest :: bool
  mps_nsrequest :: bool
  mps_flags :: u32

text \<open>What a call writes to the caller's array, if it writes to it.\<close>

datatype mach_port_info = Limits u32 | Receive_status mach_port_status | Dnrequests_size nat

definition receive_status :: "port_calls \<Rightarrow> ipc_port_t \<Rightarrow> ipc_port \<Rightarrow> ipc_kstate \<Rightarrow> mach_port_status" where
  "receive_status c port p s =
     \<lparr>mps_pset = ip_pset_count p, mps_seqno = imq_seqno p, mps_mscount = ip_mscount p, mps_qlimit = c_mqueue_qlimit c port s,
      mps_msgcount = c_mqueue_msgcount c port s, mps_sorights = ip_sorights p, mps_srights = ip_srights p > 0,
      mps_pdrequest = ip_pdrequest p \<noteq> IP_NULL, mps_nsrequest = ip_nsrequest p \<noteq> IP_NULL, mps_flags = 0\<rparr>"

definition get_port_info ::
  "(ipc_port_t \<Rightarrow> ipc_port \<Rightarrow> ipc_kstate \<Rightarrow> mach_port_info option) \<Rightarrow> u32 \<Rightarrow> mach_port_name_t \<Rightarrow> ipc_kstate
     \<Rightarrow> ((kern_return_t + mach_port_info option \<times> u32) \<times> ipc_kstate) option" where
  "get_port_info f cnt name s =
     do { (r, s1) \<leftarrow> ipc_port_translate_receive name s;
          case r of
            Inl kr \<Rightarrow> Some (Inl kr, s1)
          | Inr port \<Rightarrow> do { p \<leftarrow> st_objects s1 port;
                            info \<leftarrow> f port p s1;
                            s2 \<leftarrow> ip_unlock port s1;
                            Some (Inr (Some info, cnt), s2) } }"

definition mach_port_get_attributes ::
  "port_calls \<Rightarrow> ipc_space_t \<Rightarrow> mach_port_name_t \<Rightarrow> u32 \<Rightarrow> u32 \<Rightarrow> ipc_kstate
     \<Rightarrow> ((kern_return_t + mach_port_info option \<times> u32) \<times> ipc_kstate) option" where
  "mach_port_get_attributes c space name flavor cnt = with_space space (Inl KERN_INVALID_TASK) (\<lambda>s.
     if flavor = MACH_PORT_LIMITS_INFO
     then if cnt < MACH_PORT_LIMITS_INFO_COUNT then Some (Inl KERN_FAILURE, s)
          else if \<not> MACH_PORT_VALID name then Some (Inr (None, 0), s)
          else get_port_info (\<lambda>port p s1. Some (Limits (c_mqueue_qlimit c port s1))) MACH_PORT_LIMITS_INFO_COUNT name s
     else if flavor = MACH_PORT_RECEIVE_STATUS
     then if cnt < MACH_PORT_RECEIVE_STATUS_COUNT then Some (Inl KERN_FAILURE, s)
          else if \<not> MACH_PORT_VALID name then Some (Inl KERN_INVALID_RIGHT, s)
          else get_port_info (\<lambda>port p s1. Some (Receive_status (receive_status c port p s1))) MACH_PORT_RECEIVE_STATUS_COUNT name s
     else if flavor = MACH_PORT_DNREQUESTS_SIZE
     then if cnt < MACH_PORT_DNREQUESTS_SIZE_COUNT then Some (Inl KERN_FAILURE, s)
          else if \<not> MACH_PORT_VALID name then Some (Inr (Some (Dnrequests_size 0), cnt), s)
          else get_port_info (\<lambda>port p s1.
                 if ip_dnrequests p = IPR_NULL then Some (Dnrequests_size 0)
                 else do { t \<leftarrow> st_requests s1 (ip_dnrequests p);
                           n \<leftarrow> nth_opt ipc_table_dnrequests (ipr_size t);
                           Some (Dnrequests_size n) })
               MACH_PORT_DNREQUESTS_SIZE_COUNT name s
     else Some (Inl KERN_INVALID_ARGUMENT, s))"

text \<open>The first word of the caller's array is \<open>info\<close>.\<close>

definition mach_port_set_attributes ::
  "ipc_kernel \<Rightarrow> port_calls \<Rightarrow> ipc_space_t \<Rightarrow> mach_port_name_t \<Rightarrow> u32 \<Rightarrow> u32 \<Rightarrow> u32 \<Rightarrow> ipc_kstate
     \<Rightarrow> (kern_return_t \<times> ipc_kstate) option" where
  "mach_port_set_attributes k c space name flavor info cnt = with_space space KERN_INVALID_TASK (\<lambda>s.
     if flavor = MACH_PORT_LIMITS_INFO
     then if cnt < MACH_PORT_LIMITS_INFO_COUNT then Some (KERN_FAILURE, s)
          else if info > MACH_PORT_QLIMIT_MAX then Some (KERN_INVALID_VALUE, s)
          else if \<not> MACH_PORT_VALID name then Some (KERN_INVALID_RIGHT, s)
          else do {
            (r, s1) \<leftarrow> ipc_port_translate_receive name s;
            case r of
              Inl kr \<Rightarrow> Some (kr, s1)
            | Inr port \<Rightarrow> do { s2 \<leftarrow> ip_unlock port (c_mqueue_set_qlimit c port info s1); Some (KERN_SUCCESS, s2) } }
     else if flavor = MACH_PORT_DNREQUESTS_SIZE
     then if cnt < MACH_PORT_DNREQUESTS_SIZE_COUNT then Some (KERN_FAILURE, s)
          else if \<not> MACH_PORT_VALID name then Some (KERN_INVALID_RIGHT, s)
          else do {
            (r, s1) \<leftarrow> ipc_port_translate_receive name s;
            case r of Inl kr \<Rightarrow> Some (kr, s1) | Inr port \<Rightarrow> ipc_port_dngrow k port (unat info) s1 }
     else Some (KERN_INVALID_ARGUMENT, s))"

end
