(* ===== verification/Mach_Port_Names.thy ===== *)
theory Mach_Port_Names
  imports Mach_Port Ipc_Space_Inv Ipc_Right_Laws
begin

text \<open>
  What the kernel calls on names show of a space: \<open>mach_port_names\<close> is an accurate snapshot and stays
  within its buffers.
\<close>

section \<open>Pages\<close>

lemma unat_round_page:
  assumes "unat x < 2 ^ 32 - 4096"
  shows "unat (round_page x) = (unat x + 4095) div 4096 * 4096"
proof -
  have eq: "of_nat PAGE_SIZE - 1 = (mask 12 :: u32)" by (simp add: PAGE_SIZE_def mask_eq_exp_minus_1)
  have "(x + mask 12) AND NOT (mask 12) = push_bit 12 (drop_bit 12 (x + mask 12))"
    by (rule bit_word_eqI) (auto simp: bit_simps)
  moreover have "unat (x + mask 12) = unat x + 4095"
    using assms by (simp add: unat_word_ariths mask_eq_exp_minus_1)
  moreover have "unat (push_bit 12 (y :: u32)) = unat y * 4096" if "unat y < 2 ^ 20" for y
    using that by (simp add: push_bit_eq_mult unat_word_ariths)
  ultimately show ?thesis
    using assms unfolding round_page_def eq by (simp add: unat_drop_bit_eq drop_bit_eq_div unat_div_distrib)
qed

lemma round_page_room:
  assumes "n < 2 ^ 29" shows "n \<le> unat (round_page (of_nat n * 4)) div 4"
    "unat (round_page (of_nat n * 4)) < 2 ^ 32 - 4096"
proof -
  have "unat (of_nat n * 4 :: u32) = n * 4" using assms by (simp add: unat_word_ariths unat_of_nat)
  then show "n \<le> unat (round_page (of_nat n * 4)) div 4" "unat (round_page (of_nat n * 4)) < 2 ^ 32 - 4096"
    using assms unat_round_page [of "of_nat n * 4"] by auto
qed

lemma round_page_mono:
  assumes "n \<le> m" "m < 2 ^ 29" shows "unat (round_page (of_nat n * 4)) \<le> unat (round_page (of_nat m * 4))"
proof -
  have "unat (of_nat n * 4 :: u32) = n * 4" "unat (of_nat m * 4 :: u32) = m * 4"
    using assms by (simp_all add: unat_word_ariths unat_of_nat)
  then show ?thesis using assms unat_round_page [of "of_nat n * 4"] unat_round_page [of "of_nat m * 4"]
    by (auto intro: div_le_mono)
qed

section \<open>Filling the arrays\<close>

definition arrays_hold :: "name_arrays \<Rightarrow> nat \<Rightarrow> (mach_port_name_t \<times> u32) list \<Rightarrow> bool" where
  "arrays_hold a cap xs \<longleftrightarrow>
     length (na_names a) = cap \<and> length (na_types a) = cap \<and> na_actual a = length xs \<and> length xs \<le> cap \<and>
     take (na_actual a) (na_names a) = map fst xs \<and> take (na_actual a) (na_types a) = map snd xs"

lemma store_name_holds:
  assumes "arrays_hold a cap xs" "length xs < cap"
  shows "\<exists>a'. store_name name type a = Some a' \<and> arrays_hold a' cap (xs @ [(name, type)])"
  using assms by (auto simp: arrays_hold_def store_name_def take_Suc_conv_app_nth)

text \<open>The type that \<open>mach_port_names\<close> reports for an entry.\<close>

definition died_before :: "u32 \<Rightarrow> ipc_kstate \<Rightarrow> ipc_entry \<Rightarrow> bool" where
  "died_before timestamp s e \<longleftrightarrow>
     has_bits (ie_bits e) MACH_PORT_TYPE_SEND_RIGHTS \<and>
     (case st_objects s (ie_object e) of None \<Rightarrow> False
      | Some p \<Rightarrow> \<not> ip_active p \<and> IP_TIMESTAMP_ORDER (ip_timestamp p) timestamp)"

definition reported :: "u32 \<Rightarrow> ipc_kstate \<Rightarrow> ipc_entry \<Rightarrow> u32" where
  "reported timestamp s e =
     (if died_before timestamp s e then MACH_PORT_TYPE_DEAD_NAME
      else if ie_request e \<noteq> 0 then IE_BITS_TYPE (ie_bits e) OR MACH_PORT_TYPE_DNREQUEST
      else IE_BITS_TYPE (ie_bits e))"

text \<open>The entries with send rights have ports, which the caller may lock.\<close>

definition port_there :: "ipc_kstate \<Rightarrow> ipc_entry \<Rightarrow> bool" where
  "port_there s e \<longleftrightarrow>
     (has_bits (ie_bits e) MACH_PORT_TYPE_SEND_RIGHTS \<longrightarrow>
        ie_object e \<noteq> IP_NULL \<and> IE_BITS_UREFS (ie_bits e) < MACH_PORT_UREFS_MAX \<and>
        (\<exists>p. st_objects s (ie_object e) = Some p \<and> \<not> io_lock_data p))"

lemma type_increment:
  assumes "IE_BITS_UREFS bits < MACH_PORT_UREFS_MAX"
  shows "IE_BITS_TYPE (bits + 1) = IE_BITS_TYPE bits"
proof -
  have type: "IE_BITS_TYPE x = push_bit 16 (drop_bit 16 x AND mask 5)" for x
    by (rule bit_word_eqI) (auto simp: IE_BITS_TYPE_def IE_BITS_TYPE_MASK_def bit_simps bit_facts)
  have "IE_BITS_UREFS bits = take_bit 16 bits"
    by (simp add: IE_BITS_UREFS_def IE_BITS_UREFS_MASK_def take_bit_eq_mask mask_eq_exp_minus_1)
  then have u: "unat bits mod 65536 < 65535"
    using assms by (simp add: MACH_PORT_UREFS_MAX_def word_less_nat_alt take_bit_eq_mod unat_mod_distrib)
  have "unat bits < 2 ^ LENGTH(32)" by (rule unsigned_less)
  moreover have "unat bits \<noteq> 2 ^ 32 - 1" using u by auto
  ultimately have l: "unat bits + 1 < 2 ^ 32" by simp
  have d: "(unat bits + 1) div 65536 = unat bits div 65536"
  proof (rule div_nat_eqI)
    show "65536 * (unat bits div 65536) \<le> unat bits + 1" using mult_div_mod_eq [of 65536 "unat bits"] by linarith
    show "unat bits + 1 < 65536 * Suc (unat bits div 65536)" using u mult_div_mod_eq [of 65536 "unat bits"] unfolding mult_Suc_right by linarith
  qed
  have "drop_bit 16 (bits + 1) = drop_bit 16 bits"
  proof (rule word_eq_iff_unsigned [where ?'a = nat, THEN iffD2])
    have "unat (bits + 1) = unat bits + 1" using l by (simp add: unat_word_ariths)
    then show "unat (drop_bit 16 (bits + 1)) = unat (drop_bit 16 bits)"
      using d by (simp add: drop_bit_eq_div unat_div_distrib)
  qed
  then show ?thesis by (simp only: type)
qed

lemma names_bits_dead:
  assumes "IE_BITS_UREFS (ie_bits e) < MACH_PORT_UREFS_MAX"
  shows "IE_BITS_TYPE (fst (names_bits True e)) = MACH_PORT_TYPE_DEAD_NAME" "snd (names_bits True e) = 0"
proof -
  let ?b = "(ie_bits e AND NOT IE_BITS_TYPE_MASK) OR MACH_PORT_TYPE_DEAD_NAME"
  have "IE_BITS_UREFS ?b = IE_BITS_UREFS (ie_bits e)" "IE_BITS_TYPE ?b = MACH_PORT_TYPE_DEAD_NAME"
    by (rule bit_word_eqI; auto simp: bits_defs bit_simps bit_facts)+
  moreover from this have "IE_BITS_TYPE (?b + 1) = IE_BITS_TYPE ?b" using assms type_increment by simp
  ultimately show "IE_BITS_TYPE (fst (names_bits True e)) = MACH_PORT_TYPE_DEAD_NAME" "snd (names_bits True e) = 0"
    by (simp_all add: names_bits_def Let_def)
qed

lemma helper_reports:
  assumes "port_there s e"
  shows "mach_port_names_helper timestamp e name (a, s) =
    do { a1 \<leftarrow> store_name name (reported timestamp s e) a; Some (a1, s) }"
proof (cases "has_bits (ie_bits e) MACH_PORT_TYPE_SEND_RIGHTS")
  case True
  then obtain p where p: "st_objects s (ie_object e) = Some p" "\<not> io_lock_data p" "ie_object e \<noteq> 0"
    "IE_BITS_UREFS (ie_bits e) < MACH_PORT_UREFS_MAX"
    using assms by (auto simp: port_there_def IO_NULL_def)
  have "p\<lparr>io_lock_data := False\<rparr> = p" using p(2) by (cases p) simp
  then have same: "s\<lparr>st_objects := (st_objects s)(ie_object e \<mapsto> p\<lparr>io_lock_data := False\<rparr>)\<rparr> = s"
    using io_put_same [OF p(1)] by simp
  show ?thesis
    using p True names_bits_dead [OF p(4)] same
    by (cases "died_before timestamp s e")
      (auto simp: mach_port_names_helper_def reported_def died_before_def IO_NULL_def Let_def
        names_bits_def [of False] split: prod.splits)
next
  case False
  then show ?thesis
    by (auto simp: mach_port_names_helper_def reported_def died_before_def names_bits_def)
qed

lemma names_table_fills:
  assumes "arrays_hold a cap xs" "\<forall>i\<in>set is. port_there s (space_table s ! i)"
    and "ys = map (\<lambda>i. (MACH_PORT_MAKE (of_nat i) (IE_BITS_GEN (ie_bits (space_table s ! i))), reported timestamp s (space_table s ! i)))
           (filter (\<lambda>i. IE_BITS_TYPE (ie_bits (space_table s ! i)) \<noteq> 0) is)"
    and "length xs + length ys \<le> cap"
  shows "\<exists>a'. names_table timestamp is (a, s) = Some (a', s) \<and> arrays_hold a' cap (xs @ ys)"
  using assms
proof (induction "is" arbitrary: a xs ys)
  case (Cons i "is")
  show ?case
  proof (cases "IE_BITS_TYPE (ie_bits (space_table s ! i)) = 0")
    case True
    then show ?thesis using Cons.IH [OF Cons.prems(1) _ refl] Cons.prems by (simp add: MACH_PORT_TYPE_NONE_def)
  next
    case False
    let ?n = "MACH_PORT_MAKE (of_nat i) (IE_BITS_GEN (ie_bits (space_table s ! i)))"
    let ?t = "reported timestamp s (space_table s ! i)"
    obtain a1 where a1: "store_name ?n ?t a = Some a1" "arrays_hold a1 cap (xs @ [(?n, ?t)])"
      using store_name_holds [OF Cons.prems(1), of ?n ?t] Cons.prems False by auto
    show ?thesis
      using Cons.IH [OF a1(2) _ refl] Cons.prems False helper_reports [of s "space_table s ! i"] a1(1)
      by (simp add: MACH_PORT_TYPE_NONE_def)
  qed
qed simp

definition tree_entry :: "ipc_kstate \<Rightarrow> ipc_tree_entry_t node \<Rightarrow> ipc_tree_entry" where
  "tree_entry s x = the (st_tree_entries s (snd x))"

lemma names_tree_fills:
  assumes "arrays_hold a cap xs"
    and "\<forall>x\<in>set nodes. \<exists>te. st_tree_entries s (snd x) = Some te \<and> IE_BITS_TYPE (ite_bits te) \<noteq> 0 \<and>
           ipc_tree_entry.ite_name te = fst x \<and> port_there s (ite_entry te)"
    and "length xs + length nodes \<le> cap"
  shows "\<exists>a'. visit_nodes (traverse_option (names_tree_entry timestamp)) nodes (Some (a, s)) = (Some (a', s), nodes) \<and>
    arrays_hold a' cap (xs @ map (\<lambda>x. (fst x, reported timestamp s (ite_entry (tree_entry s x)))) nodes)"
  using assms
proof (induction nodes arbitrary: a xs)
  case (Cons x nodes)
  obtain te where te: "st_tree_entries s (snd x) = Some te" "IE_BITS_TYPE (ite_bits te) \<noteq> 0"
    "ipc_tree_entry.ite_name te = fst x" "port_there s (ite_entry te)" using Cons.prems(2) by auto
  let ?t = "reported timestamp s (ite_entry te)"
  obtain a1 where a1: "store_name (fst x) ?t a = Some a1" "arrays_hold a1 cap (xs @ [(fst x, ?t)])"
    using store_name_holds [OF Cons.prems(1), of "fst x" ?t] Cons.prems by auto
  show ?case
    using Cons.IH [OF a1(2)] Cons.prems te a1(1) helper_reports [OF te(4)]
    by (auto simp: names_tree_entry_def tree_entry_def MACH_PORT_TYPE_NONE_def)
qed simp

section \<open>The list of names\<close>

definition table_names :: "u32 \<Rightarrow> ipc_kstate \<Rightarrow> (mach_port_name_t \<times> u32) list" where
  "table_names timestamp s =
     map (\<lambda>i. (MACH_PORT_MAKE (of_nat i) (IE_BITS_GEN (ie_bits (space_table s ! i))), reported timestamp s (space_table s ! i)))
       (filter (\<lambda>i. IE_BITS_TYPE (ie_bits (space_table s ! i)) \<noteq> 0) [0..<length (space_table s)])"

definition tree_names :: "u32 \<Rightarrow> ipc_kstate \<Rightarrow> (mach_port_name_t \<times> u32) list" where
  "tree_names timestamp s = map (\<lambda>x. (fst x, reported timestamp s (ite_entry (tree_entry s x)))) (tree_nodes s)"

lemma inv_parts:
  assumes "space_inv s {}"
  shows "tree_ok s {}" "length (space_table s) < 2 ^ 24"
    "\<And>x. x \<in> set (tree_nodes s) \<Longrightarrow> \<exists>te. st_tree_entries s (snd x) = Some te \<and> IE_BITS_TYPE (ite_bits te) \<noteq> 0 \<and>
       ipc_tree_entry.ite_name te = fst x"
proof -
  show t: "tree_ok s {}" and "length (space_table s) < 2 ^ 24"
    using assms by (auto simp: space_inv_def table_ok_def)
  show "\<exists>te. st_tree_entries s (snd x) = Some te \<and> IE_BITS_TYPE (ite_bits te) \<noteq> 0 \<and> ipc_tree_entry.ite_name te = fst x"
    if "x \<in> set (tree_nodes s)" for x
    using tree_okD(5) [OF t, of "fst x" "snd x"] that by (auto simp: node_ok_def)
qed

lemma made_name:
  assumes "i < 2 ^ 24"
  shows "unat (MACH_PORT_INDEX (MACH_PORT_MAKE (of_nat i) (IE_BITS_GEN bits))) = i"
    "MACH_PORT_GEN (MACH_PORT_MAKE (of_nat i) (IE_BITS_GEN bits)) = IE_BITS_GEN bits"
  using make_name_facts(1,2) [OF assms] by (simp_all add: IE_BITS_GEN_def and.assoc)

lemma table_names_denote:
  assumes "space_inv s {}"
  shows "(n, t) \<in> set (table_names timestamp s) \<longleftrightarrow>
    (\<exists>i. denotes s n (In_table i) \<and> t = reported timestamp s (space_table s ! i))"
proof -
  have i: "i < length (space_table s) \<Longrightarrow> i < 2 ^ 24" for i using inv_parts(2) [OF assms] by simp
  have n: "n = MACH_PORT_MAKE (of_nat (unat (MACH_PORT_INDEX n))) (MACH_PORT_GEN n)"
    by (simp add: make_index_gen)
  show ?thesis
  proof
    assume "(n, t) \<in> set (table_names timestamp s)"
    then obtain i where "i < length (space_table s)" "IE_BITS_TYPE (ie_bits (space_table s ! i)) \<noteq> 0"
      "n = MACH_PORT_MAKE (of_nat i) (IE_BITS_GEN (ie_bits (space_table s ! i)))" "t = reported timestamp s (space_table s ! i)"
      by (auto simp: table_names_def)
    then show "\<exists>i. denotes s n (In_table i) \<and> t = reported timestamp s (space_table s ! i)"
      using made_name [OF i] by (intro exI [of _ i]) simp
  next
    assume "\<exists>i. denotes s n (In_table i) \<and> t = reported timestamp s (space_table s ! i)"
    then show "(n, t) \<in> set (table_names timestamp s)"
      unfolding table_names_def using n by (auto intro!: image_eqI [of _ _ "unat (MACH_PORT_INDEX n)"])
  qed
qed

lemma tree_names_denote:
  assumes "space_inv s {}"
  shows "(n, t) \<in> set (tree_names timestamp s) \<longleftrightarrow>
    (\<exists>p te. denotes s n (In_tree p) \<and> st_tree_entries s p = Some te \<and> t = reported timestamp s (ite_entry te))"
proof
  assume "(n, t) \<in> set (tree_names timestamp s)"
  then obtain p where p: "(n, p) \<in> set (tree_nodes s)" "t = reported timestamp s (ite_entry (tree_entry s (n, p)))"
    by (auto simp: tree_names_def)
  then show "\<exists>p te. denotes s n (In_tree p) \<and> st_tree_entries s p = Some te \<and> t = reported timestamp s (ite_entry te)"
    using inv_parts(3) [OF assms p(1)] by (auto simp: tree_entry_def)
next
  assume "\<exists>p te. denotes s n (In_tree p) \<and> st_tree_entries s p = Some te \<and> t = reported timestamp s (ite_entry te)"
  then obtain p te where p: "(n, p) \<in> set (tree_nodes s)" "st_tree_entries s p = Some te" "t = reported timestamp s (ite_entry te)"
    by auto
  then show "(n, t) \<in> set (tree_names timestamp s)"
    unfolding tree_names_def set_map by (intro image_eqI [of _ _ "(n, p)"]) (simp_all add: tree_entry_def)
qed

lemma names_denote:
  assumes "space_inv s {}"
  shows "(n, t) \<in> set (table_names timestamp s @ tree_names timestamp s) \<longleftrightarrow>
    (\<exists>e v. denotes s n e \<and> entry_at s e = Some v \<and> t = reported timestamp s v)"
proof
  assume "(n, t) \<in> set (table_names timestamp s @ tree_names timestamp s)"
  then consider "(n, t) \<in> set (table_names timestamp s)" | "(n, t) \<in> set (tree_names timestamp s)" by auto
  then show "\<exists>e v. denotes s n e \<and> entry_at s e = Some v \<and> t = reported timestamp s v"
  proof cases
    case 1
    then obtain i where i: "denotes s n (In_table i)" "t = reported timestamp s (space_table s ! i)"
      using table_names_denote [OF assms] by blast
    moreover have "entry_at s (In_table i) = Some (space_table s ! i)" using i(1) by (simp add: nth_opt_def)
    ultimately show ?thesis by blast
  next
    case 2
    then obtain p te where p: "denotes s n (In_tree p)" "st_tree_entries s p = Some te" "t = reported timestamp s (ite_entry te)"
      using tree_names_denote [OF assms] by blast
    moreover have "entry_at s (In_tree p) = Some (ite_entry te)" using p(2) by simp
    ultimately show ?thesis by blast
  qed
next
  assume "\<exists>e v. denotes s n e \<and> entry_at s e = Some v \<and> t = reported timestamp s v"
  then obtain e v where e: "denotes s n e" "entry_at s e = Some v" "t = reported timestamp s v" by blast
  then show "(n, t) \<in> set (table_names timestamp s @ tree_names timestamp s)"
  proof (cases e)
    case (In_table i)
    then have "v = space_table s ! i" using e(2) by (simp add: nth_opt_def split: if_splits)
    then show ?thesis using table_names_denote [OF assms, of n t] e In_table by (metis UnI1 set_append)
  next
    case (In_tree p)
    then show ?thesis using tree_names_denote [OF assms, of n t] e by (metis (no_types, lifting) UnI2 set_append entry_at.simps(2) map_option_eq_Some)
  qed
qed

lemma names_distinct:
  assumes "space_inv s {}"
  shows "distinct (map fst (table_names timestamp s @ tree_names timestamp s))"
proof -
  have i: "i < length (space_table s) \<Longrightarrow> i < 2 ^ 24" for i using inv_parts(2) [OF assms] by simp
  have "distinct (map fst (table_names timestamp s))"
    unfolding table_names_def map_map distinct_map comp_def fst_conv by (auto intro!: inj_onI) (metis i made_name(1))
  moreover have "map fst (tree_names timestamp s) = map fst (tree_nodes s)" by (simp add: tree_names_def)
  then have "distinct (map fst (tree_names timestamp s))"
    using splay_tree.distinct_names tree_okD(1) [OF inv_parts(1) [OF assms]] by simp
  moreover have "False" if "(n, t) \<in> set (table_names timestamp s)" "(n, t') \<in> set (tree_names timestamp s)" for n t t'
    using that table_names_denote [OF assms, of n t] tree_names_denote [OF assms, of n t']
      denotes_unique [OF inv_parts(1) [OF assms], of n] by blast
  then have "set (map fst (table_names timestamp s)) \<inter> set (map fst (tree_names timestamp s)) = {}" by auto
  ultimately show ?thesis by (simp only: map_append distinct_append)
qed

lemma names_length:
  assumes "space_inv s {}"
  shows "length (table_names timestamp s @ tree_names timestamp s) \<le> length (space_table s) + is_tree_total (st_space s)"
proof -
  have "length (table_names timestamp s) \<le> length (space_table s)"
    unfolding table_names_def length_map by (rule order_trans [OF length_filter_le]) simp
  moreover have "length (tree_names timestamp s) = is_tree_total (st_space s)"
    using tree_okD(2) [OF inv_parts(1) [OF assms]] by (simp add: tree_names_def)
  ultimately show ?thesis by simp
qed

definition ports_there :: "ipc_kstate \<Rightarrow> bool" where
  "ports_there s \<longleftrightarrow> (\<forall>name e v. denotes s name e \<and> entry_at s e = Some v \<longrightarrow> port_there s v)"

lemma ports_there_parts:
  assumes "space_inv s {}" "ports_there s"
  shows "i < length (space_table s) \<Longrightarrow> port_there s (space_table s ! i)"
    "x \<in> set (tree_nodes s) \<Longrightarrow> \<exists>te. st_tree_entries s (snd x) = Some te \<and> IE_BITS_TYPE (ite_bits te) \<noteq> 0 \<and>
       ipc_tree_entry.ite_name te = fst x \<and> port_there s (ite_entry te)"
proof -
  show "port_there s (space_table s ! i)" if i: "i < length (space_table s)"
  proof (cases "IE_BITS_TYPE (ie_bits (space_table s ! i)) = 0")
    case True
    then show ?thesis using type_bits(6) [of "ie_bits (space_table s ! i)"] by (simp add: port_there_def)
  next
    case False
    have lt: "i < 2 ^ 24" using inv_parts(2) [OF assms(1)] i by simp
    have "denotes s (MACH_PORT_MAKE (of_nat i) (IE_BITS_GEN (ie_bits (space_table s ! i)))) (In_table i)"
      using made_name [OF lt, of "ie_bits (space_table s ! i)"] i False by simp
    moreover have "entry_at s (In_table i) = Some (space_table s ! i)" using i by (simp add: nth_opt_def)
    ultimately show ?thesis using assms(2) unfolding ports_there_def by blast
  qed
  show "\<exists>te. st_tree_entries s (snd x) = Some te \<and> IE_BITS_TYPE (ite_bits te) \<noteq> 0 \<and>
       ipc_tree_entry.ite_name te = fst x \<and> port_there s (ite_entry te)" if x: "x \<in> set (tree_nodes s)"
  proof -
    obtain te where te: "st_tree_entries s (snd x) = Some te" "IE_BITS_TYPE (ite_bits te) \<noteq> 0" "ipc_tree_entry.ite_name te = fst x"
      using inv_parts(3) [OF assms(1) x] by blast
    then have "denotes s (fst x) (In_tree (snd x))" "entry_at s (In_tree (snd x)) = Some (ite_entry te)" using x by simp_all
    then show ?thesis using te assms(2) unfolding ports_there_def by blast
  qed
qed

lemma names_collect_law:
  assumes inv: "space_inv s {}" "ports_there s" and l: "st_locked s"
    and room: "length (space_table s) + is_tree_total (st_space s) \<le> unat sz div 4"
    and ts: "timestamp = ipc_port_timestamp_data s" and L: "L = table_names timestamp s @ tree_names timestamp s"
  shows "\<exists>tree. names_collect sz s =
      Some ((map fst L, map snd L), (put_tree tree (s\<lparr>ipc_port_timestamp_data := timestamp + 1\<rparr>))\<lparr>st_locked := False\<rparr>) \<and>
    splay_nodes tree = tree_nodes s \<and> splay_inv tree"
proof -
  let ?s = "s\<lparr>ipc_port_timestamp_data := timestamp + 1\<rparr>" and ?cap = "unat sz div 4"
  let ?a = "\<lparr>na_names = replicate ?cap 0, na_types = replicate ?cap 0, na_actual = 0\<rparr>"
  have there: "port_there ?s = port_there s" "reported timestamp ?s = reported timestamp s" "tree_entry ?s = tree_entry s"
    by (simp_all add: port_there_def reported_def died_before_def tree_entry_def fun_eq_iff)
  have len: "length (table_names timestamp s) + length (tree_names timestamp s) \<le> ?cap"
    using names_length [OF inv(1), of timestamp] room by simp
  obtain a1 where a1: "names_table timestamp [0..<length (space_table s)] (?a, ?s) = Some (a1, ?s)"
    "arrays_hold a1 ?cap (table_names timestamp s)"
    using names_table_fills [of ?a ?cap "[]" "[0..<length (space_table s)]" ?s "table_names timestamp s" timestamp]
      ports_there_parts(1) [OF inv] len by (auto simp: arrays_hold_def table_names_def there)
  obtain a2 where a2: "visit_nodes (traverse_option (names_tree_entry timestamp)) (tree_nodes s) (Some (a1, ?s)) = (Some (a2, ?s), tree_nodes s)"
    "arrays_hold a2 ?cap L"
    using names_tree_fills [OF a1(2), of "tree_nodes s" ?s timestamp] ports_there_parts(2) [OF inv] len
    by (auto simp: L tree_names_def there)
  obtain tree where "ipc_splay_traverse (traverse_option (names_tree_entry timestamp)) (is_tree (st_space s)) (Some (a1, ?s)) =
      Some (Some (a2, ?s), tree)" "splay_nodes tree = tree_nodes s" "splay_inv tree"
    using traverse_spec [OF tree_okD(1) [OF inv_parts(1) [OF inv(1)]], of "traverse_option (names_tree_entry timestamp)" "Some (a1, ?s)"] a2(1)
    by auto
  then show ?thesis
    using a1(1) a2(2) l ts
    by (intro exI [of _ tree]) (auto simp: names_collect_def ipc_port_timestamp_def is_write_unlock_def arrays_hold_def)
qed

text \<open>The lock of the space and the clock do not matter for what names denote.\<close>

lemma space_inv_ghost [simp]:
  "space_inv (s\<lparr>st_locked := b\<rparr>) E = space_inv (s :: ipc_kstate) E"
  "space_inv (s\<lparr>ipc_port_timestamp_data := t\<rparr>) E = space_inv s E"
  by (simp_all add: space_inv_def tree_ok_def node_ok_def small_indices_def next_ok_def hash_ok_def hash_inv_def
      global_inv_def own_entries_def global_entries_def IH_GLOBAL_HASH_def grev_contents_def)

lemma denotes_ghost [simp]:
  "denotes (s\<lparr>st_locked := b\<rparr>) n e = denotes (s :: ipc_kstate) n e" "entry_at (s\<lparr>st_locked := b\<rparr>) e = entry_at s e"
  "denotes (s\<lparr>ipc_port_timestamp_data := t\<rparr>) n e = denotes s n e" "entry_at (s\<lparr>ipc_port_timestamp_data := t\<rparr>) e = entry_at s e"
  by (cases e; simp)+

lemma reported_ghost [simp]:
  "reported timestamp (s\<lparr>st_locked := b\<rparr>) = reported timestamp s" "port_there (s\<lparr>st_locked := b\<rparr>) = port_there s"
  by (simp_all add: reported_def died_before_def port_there_def fun_eq_iff)

text \<open>
  A space that nobody else makes larger than \<open>n\<close> entries: in the invariant, active, unlocked, with its
  ports unlocked.
\<close>

definition calm :: "nat \<Rightarrow> ipc_kstate \<Rightarrow> bool" where
  "calm n s \<longleftrightarrow>
     space_inv s {} \<and> ports_there s \<and> is_active (st_space s) \<and> \<not> st_locked s \<and>
     length (space_table s) + is_tree_total (st_space s) \<le> n"

definition names_of :: "ipc_kstate \<Rightarrow> (mach_port_name_t \<times> u32) list" where
  "names_of t = table_names (ipc_port_timestamp_data t) t @ tree_names (ipc_port_timestamp_data t) t"

lemma names_loop_law:
  assumes calm: "calm n s" "\<And>s. calm n s \<Longrightarrow> calm n (others k s)" and n: "n < 2 ^ 29"
    and vm: "\<And>i z s. vm_allocate c i z s" "\<And>i z s. vm_map_wire c i z s"
  shows "\<exists>i tree. let t = (others k ^^ i) s in
    names_loop k c sz s = Some (Inr (map fst (names_of t), map snd (names_of t)),
      (put_tree tree (t\<lparr>st_locked := True, ipc_port_timestamp_data := ipc_port_timestamp_data t + 1\<rparr>))\<lparr>st_locked := False\<rparr>) \<and>
    splay_nodes tree = tree_nodes t \<and> splay_inv tree \<and> calm n t"
  using calm(1)
proof (induction "unat (round_page (of_nat n * 4)) - unat sz" arbitrary: sz s rule: less_induct)
  case less
  let ?s = "s\<lparr>st_locked := True\<rparr>"
  let ?m = "length (space_table s) + is_tree_total (st_space s)"
  let ?z = "round_page (of_nat ?m * 4)"
  have m: "?m < 2 ^ 29" "?m \<le> n" using less.prems n by (auto simp: calm_def)
  have "s\<lparr>st_locked := False\<rparr> = s" using less.prems by (simp add: calm_def)
  then have un: "others k (s\<lparr>st_locked := False\<rparr>) = others k s" by (rule arg_cong)
  show ?case
  proof (cases "?z \<le> sz")
    case True
    then have "?m \<le> unat sz div 4" using round_page_room(1) [OF m(1)] by (meson div_le_mono order_trans word_le_nat_alt)
    moreover have "ports_there ?s" using less.prems by (simp add: calm_def ports_there_def)
    ultimately obtain tree where "names_collect sz ?s = Some ((map fst (names_of s), map snd (names_of s)),
        (put_tree tree (?s\<lparr>ipc_port_timestamp_data := ipc_port_timestamp_data s + 1\<rparr>))\<lparr>st_locked := False\<rparr>)"
      "splay_nodes tree = tree_nodes s" "splay_inv tree"
      using names_collect_law [of ?s sz "ipc_port_timestamp_data s" "names_of s"] less.prems
      by (auto simp: calm_def names_of_def table_names_def tree_names_def tree_entry_def)
    then show ?thesis
      using True less.prems by (intro exI [of _ 0] exI [of _ tree])
        (simp add: names_loop.simps [of k c sz s] is_write_lock_def calm_def)
  next
    case False
    then have "unat (round_page (of_nat n * 4)) - unat ?z < unat (round_page (of_nat n * 4)) - unat sz"
      using round_page_mono [OF m(2) n] by (simp add: word_le_nat_alt)
    from less.hyps [OF this calm(2) [OF less.prems]] obtain i tree where
      "names_loop k c ?z (others k s) = Some (Inr (map fst (names_of ((others k ^^ i) (others k s))), map snd (names_of ((others k ^^ i) (others k s)))),
        (put_tree tree ((others k ^^ i) (others k s)\<lparr>st_locked := True,
            ipc_port_timestamp_data := ipc_port_timestamp_data ((others k ^^ i) (others k s)) + 1\<rparr>))\<lparr>st_locked := False\<rparr>)"
      "splay_nodes tree = tree_nodes ((others k ^^ i) (others k s))" "splay_inv tree" "calm n ((others k ^^ i) (others k s))"
      by (auto simp: Let_def)
    moreover have "names_loop k c sz s = names_loop k c ?z (others k s)"
      using False less.prems un vm
      by (subst names_loop.simps) (simp add: is_write_lock_def is_write_unlock_def calm_def)
    ultimately show ?thesis
      by (intro exI [of _ "Suc i"] exI [of _ tree]) (simp add: Let_def funpow_swap1)
  qed
qed

text \<open>
  Claim C8.  \<open>mach_port_names\<close> returns an accurate snapshot of the space.  While the call has the space
  unlocked other threads may change it in any way that keeps its invariant and a bound on its size.
  The call ends; the arrays it allocated from the bound on the number of names hold what it writes;
  no name is listed twice; and the names and types are exactly those of the space at one moment, in
  which the call leaves it: a name is listed if and only if it denotes an entry then, with the type
  of the right and the flag of a request, or as a dead name if its port has died before.
\<close>

theorem names_snapshot:
  assumes "calm n s" "\<And>s. calm n s \<Longrightarrow> calm n (others k s)" "n < 2 ^ 29"
    and "\<And>i z s. vm_allocate c i z s" "\<And>i z s. vm_map_wire c i z s"
    and "space \<noteq> IS_NULL" "space = st_self s"
  shows "\<exists>i names types s'. let t = (others k ^^ i) s in
    mach_port_names k c space s = Some (Inr (names, types), s') \<and>
    length types = length names \<and> distinct names \<and> space_inv s' {} \<and> \<not> st_locked s' \<and>
    same_caps t s' \<and> st_objects s' = st_objects t \<and>
    (\<forall>name type. (name, type) \<in> set (zip names types) \<longleftrightarrow>
       (\<exists>e v. denotes t name e \<and> entry_at t e = Some v \<and> type = reported (ipc_port_timestamp_data t) t v))"
proof -
  obtain i tree where r: "names_loop k c 0 s = Some (Inr (map fst (names_of ((others k ^^ i) s)), map snd (names_of ((others k ^^ i) s))),
      (put_tree tree ((others k ^^ i) s\<lparr>st_locked := True,
         ipc_port_timestamp_data := ipc_port_timestamp_data ((others k ^^ i) s) + 1\<rparr>))\<lparr>st_locked := False\<rparr>)"
    "splay_nodes tree = tree_nodes ((others k ^^ i) s)" "splay_inv tree" "calm n ((others k ^^ i) s)"
    using names_loop_law [of n s k c 0] assms by (auto simp: Let_def)
  define t where "t = (others k ^^ i) s"
  note r = r [folded t_def]
  let ?t = "t\<lparr>st_locked := True, ipc_port_timestamp_data := ipc_port_timestamp_data t + 1\<rparr>"
  let ?s' = "(put_tree tree ?t)\<lparr>st_locked := False\<rparr>"
  have inv: "space_inv t {}" "splay_inv (is_tree (st_space ?t))"
    using r(4) tree_okD(1) [OF inv_parts(1)] by (auto simp: calm_def)
  have nodes: "splay_nodes tree = tree_nodes ?t" using r(2) by simp
  have "space_inv ?t {}" using inv(1) by simp
  then have "space_inv ?s' {}" using put_tree_same(1) [OF nodes r(3) inv(2), of "{}"] by (simp only: space_inv_ghost(1))
  moreover have "denotes ?s' m e = denotes t m e" "entry_at ?s' e = entry_at t e" for m e
    unfolding denotes_ghost put_tree_same(2,3) [OF nodes r(3)] by (rule refl)+
  then have "same_caps t ?s'" unfolding same_caps_def capability_at_def by presburger
  moreover have "mach_port_names k c space s = Some (Inr (map fst (names_of t), map snd (names_of t)), ?s')"
    using r(1) assms(6,7) by (simp add: mach_port_names_def with_space_def)
  ultimately show ?thesis
    using names_distinct [OF inv(1)] names_denote [OF inv(1)]
    by (intro exI [of _ i] exI [of _ "map fst (names_of t)"] exI [of _ "map snd (names_of t)"] exI [of _ ?s'])
      (simp add: names_of_def t_def [symmetric] zip_map_fst_snd del: set_append map_append)
qed

definition sample_calls :: port_calls where
  "sample_calls = \<lparr>vm_allocate = \<lambda>_ _ _. True, vm_map_wire = \<lambda>_ _ _. True, c_kmsg_alloc = \<lambda>_ _. 0x700,
     c_mqueue_set_qlimit = \<lambda>_ _ s. s, c_mqueue_qlimit = \<lambda>_ _. 5, c_mqueue_msgcount = \<lambda>_ _. 0\<rparr>"

lemma blank_calm: "calm 0x1000000 blank_kstate"
proof -
  have "\<not> capability_at (blank_kstate\<lparr>st_space := st_space blank_kstate\<rparr>) n c" for n c
    by (rule created_empty [OF blank_kstate_create])
  then have "\<not> capability_at blank_kstate n c" for n c by simp
  then have "\<not> (denotes blank_kstate n e \<and> entry_at blank_kstate e = Some v)" for n e v
    unfolding capability_at_def by blast
  then have "ports_there blank_kstate" unfolding ports_there_def by blast
  moreover have "is_tree_total (st_space blank_kstate) = 0" "is_active (st_space blank_kstate)" "\<not> st_locked blank_kstate"
    by (simp_all add: blank_kstate_def created_def)
  ultimately show ?thesis
    using blank_kstate_inv inv_parts(2) [OF blank_kstate_inv] by (simp add: calm_def)
qed

lemma quiet_others: "(others quiet_kernel ^^ i) t = t" by (induction i) simp_all

theorem names_snapshot_witness:
  "\<exists>names types s'. mach_port_names quiet_kernel sample_calls 0x200 blank_kstate = Some (Inr (names, types), s') \<and>
     space_inv s' {} \<and> distinct names"
proof -
  have vm: "vm_allocate sample_calls i z t" "vm_map_wire sample_calls i z t" for i z t by (simp_all add: sample_calls_def)
  have sp: "(0x200 :: u32) \<noteq> IS_NULL" "(0x200 :: u32) = st_self blank_kstate" by (simp_all add: blank_kstate_def IS_NULL_def)
  have n: "0x1000000 < (2 ^ 29 :: nat)" by simp
  have calm: "calm 0x1000000 (others quiet_kernel t)" if "calm 0x1000000 t" for t using that by simp
  show ?thesis using names_snapshot [OF blank_calm calm n vm sp] unfolding Let_def by blast
qed

end
