(* ===== verification/Mach_Port_Laws.thy ===== *)
theory Mach_Port_Laws
  imports Mach_Port_Names
begin

text \<open>
  What the kernel calls do to the names of a space: allocation, and the type and references of a name.
\<close>

section \<open>Entering a right\<close>

text \<open>An entry in transition gets a right that the reverse hash tables do not hold.\<close>

lemma enter_table_inv:
  assumes inv: "space_inv s (insert (In_table i) E)" "In_table i \<notin> E"
    and e: "IE_BITS_TYPE (ie_bits (space_table s ! i)) = 0"
    and v: "IE_BITS_TYPE (ie_bits v) \<noteq> 0" "IE_BITS_TYPE (ie_bits v) \<noteq> MACH_PORT_TYPE_SEND"
      "IE_BITS_GEN (ie_bits v) = IE_BITS_GEN (ie_bits (space_table s ! i))" "ie_bits v AND IE_BITS_COLLISION = 0"
      "ie_index v = ie_index (space_table s ! i)"
  shows "space_inv (set_table (\<lambda>_. (space_table s)[i := v]) s) E"
proof -
  let ?t = "space_table s" and ?t' = "(space_table s)[i := v]" and ?P = "{i. In_table i \<in> E}" and ?Q = "{p. In_tree p \<in> E}"
  have sets: "{j. In_table j \<in> insert (In_table i) E} = insert i ?P" "{p. In_tree p \<in> insert (In_table i) E} = ?Q" by auto
  have ok: "table_ok ?t (insert i ?P)" "tree_ok s ?Q" "next_ok s" "hash_ok s (insert (In_table i) E)"
    using inv(1) unfolding space_inv_def sets by blast+
  have P: "insert i ?P \<subseteq> {i. 0 < i \<and> i < length ?t \<and> ie_object (?t ! i) = 0}"
    and z: "\<And>k. k < length ?t \<Longrightarrow> k \<noteq> 0 \<and> IE_BITS_TYPE (ie_bits (?t ! k)) = 0 \<Longrightarrow>
      ie_object (?t ! k) = 0 \<and> ie_bits (?t ! k) AND NOT IE_BITS_GEN_MASK = 0"
    and h: "?t \<noteq> []" "length ?t < 2 ^ 24 - 1" "IE_BITS_TYPE (ie_bits (?t ! 0)) = 0" "ie_object (?t ! 0) = 0"
    using ok(1) unfolding table_ok_def by blast+
  have i: "0 < i" "i < length ?t" using P by auto
  have coll: "ie_bits (?t ! i) AND IE_BITS_COLLISION = 0"
    using z [of i] i e pure_gen [of "ie_bits (?t ! i)"] by simp
  have at: "?t' ! k = (if k = i then v else ?t ! k)" for k using i(2) by (simp add: nth_list_update)
  have "table_ok ?t' ?P"
  proof -
    obtain fl where fl: "free_chain ?t 0 fl" "distinct fl"
      "set fl = {k. 0 < k \<and> k < length ?t \<and> IE_BITS_TYPE (ie_bits (?t ! k)) = 0} - insert i ?P"
      using ok(1) unfolding table_ok_def by blast
    have fc: "free_chain ?t' 0 fl"
      using fl(1) fl(3) i by (subst free_chain_cong [of _ ?t]) (auto simp: at)
    have sf: "set fl = {k. 0 < k \<and> k < length ?t' \<and> IE_BITS_TYPE (ie_bits (?t' ! k)) = 0} - ?P"
      unfolding fl(3) at using v(1) by auto
    have zs: "ie_object (?t' ! k) = 0 \<and> ie_bits (?t' ! k) AND NOT IE_BITS_GEN_MASK = 0"
      if "k < length ?t'" "k \<noteq> 0 \<and> IE_BITS_TYPE (ie_bits (?t' ! k)) = 0" for k
      using that z [of k] v(1) unfolding at by (cases "k = i") simp_all
    have PP: "?P \<subseteq> {k. 0 < k \<and> k < length ?t' \<and> ie_object (?t' ! k) = 0}"
      using P inv(2) unfolding at by auto
    have hd: "?t' ! 0 = ?t ! 0" "?t' \<noteq> []" "length ?t' < 2 ^ 24 - 1" using i(1) h(1,2) by simp_all
    show ?thesis unfolding table_ok_def hd(1) using hd(2,3) h(3,4) zs PP fc fl(2) sf by blast
  qed
  moreover have "tree_ok (set_table (\<lambda>_. ?t') s) ?Q"
    by (rule tree_ok_table_cong [OF _ _ _ _ ok(2)]) (use v coll in \<open>auto simp: at\<close>)
  moreover have "hash_ok (set_table (\<lambda>_. ?t') s) E"
  proof (rule hash_ok_table_cong [OF _ _ _ _ _ ok(4)])
    fix k assume "k \<in> hashed ?t"
    then have "k \<noteq> i" using ok(4) i(2) by (auto simp: hash_ok_def)
    then show "ie_object (?t' ! k) = ie_object (?t ! k)" by simp
  qed (use v e in \<open>auto simp: at type_values\<close>)
  moreover have "next_ok (set_table (\<lambda>_. ?t') s)" using ok(3) by (simp add: next_ok_def)
  ultimately show ?thesis by (simp add: space_inv_def)
qed

lemma enter_table_caps:
  assumes "i < length (space_table s)" "i < 2 ^ 24"
    and "IE_BITS_TYPE (ie_bits (space_table s ! i)) = 0" "IE_BITS_TYPE (ie_bits v) \<noteq> 0"
  shows "capability_at (set_table (\<lambda>_. (space_table s)[i := v]) s) name c \<longleftrightarrow>
    name = MACH_PORT_MAKE (of_nat i) (IE_BITS_GEN (ie_bits v)) \<and> c = entry_cap v \<or> capability_at s name c"
    (is "capability_at ?s name c \<longleftrightarrow> ?new \<or> _")
proof -
  have at: "space_table ?s ! k = (if k = i then v else space_table s ! k)" for k using assms(1) by simp
  have made: "name = MACH_PORT_MAKE (of_nat (unat (MACH_PORT_INDEX name))) (MACH_PORT_GEN name)" by (simp add: make_index_gen)
  have "denotes ?s name e \<longleftrightarrow> (if e = In_table i then name = MACH_PORT_MAKE (of_nat i) (IE_BITS_GEN (ie_bits v)) else denotes s name e)" for e
  proof (cases e)
    case (In_table k)
    show ?thesis
    proof (cases "k = i")
      case True
      then show ?thesis
        using In_table assms made_name [OF assms(2), of "ie_bits v"] made by auto
    next
      case False
      then show ?thesis using In_table by simp
    qed
  qed simp
  moreover have "entry_at ?s e = (if e = In_table i then Some v else entry_at s e)" for e
    using assms(1) by (cases e) (auto simp: nth_opt_def)
  moreover have "\<not> denotes s name (In_table i)" using assms(3) by auto
  ultimately show ?thesis unfolding capability_at_def by (metis option.inject)
qed

lemma capability_ghost [simp]: "capability_at (s\<lparr>st_locked := b\<rparr>) n c = capability_at (s :: ipc_kstate) n c"
  by (simp add: capability_at_def)

lemma dead_name_bits:
  assumes "IE_BITS_GEN gen = gen"
  shows "IE_BITS_TYPE (gen OR (MACH_PORT_TYPE_DEAD_NAME OR 1)) = MACH_PORT_TYPE_DEAD_NAME"
    "IE_BITS_GEN (gen OR (MACH_PORT_TYPE_DEAD_NAME OR 1)) = gen"
    "(gen OR (MACH_PORT_TYPE_DEAD_NAME OR 1)) AND IE_BITS_COLLISION = 0"
    "(gen OR (MACH_PORT_TYPE_DEAD_NAME OR 1)) AND IE_BITS_RIGHT_MASK = MACH_PORT_TYPE_DEAD_NAME OR 1"
    "IE_BITS_TYPE gen = 0"
proof -
  obtain b where b: "gen = b AND IE_BITS_GEN_MASK" using assms by (metis IE_BITS_GEN_def)
  show "IE_BITS_TYPE (gen OR (MACH_PORT_TYPE_DEAD_NAME OR 1)) = MACH_PORT_TYPE_DEAD_NAME"
    "IE_BITS_GEN (gen OR (MACH_PORT_TYPE_DEAD_NAME OR 1)) = gen"
    "(gen OR (MACH_PORT_TYPE_DEAD_NAME OR 1)) AND IE_BITS_COLLISION = 0"
    "(gen OR (MACH_PORT_TYPE_DEAD_NAME OR 1)) AND IE_BITS_RIGHT_MASK = MACH_PORT_TYPE_DEAD_NAME OR 1"
    "IE_BITS_TYPE gen = 0"
    unfolding b by (simp_all add: bits_defs bit.conj_disj_distrib2 and.assoc)
qed

lemma set_table_at: "set_table (\<lambda>t. t[i := f (t ! i)]) s = set_table (\<lambda>_. (space_table s)[i := f (space_table s ! i)]) s"
  by (cases "st_space s") simp

lemma alloc_dead_law:
  assumes inv: "space_inv s {}" and s: "is_active (st_space s)" "\<not> st_locked s" "ie_next (space_table s ! 0) \<noteq> 0"
  shows "\<exists>n s'. ipc_object_alloc_dead k s = Some (Inr n, s') \<and> MACH_PORT_VALID n \<and> (\<forall>c. \<not> capability_at s n c) \<and>
    space_inv s' {} \<and> \<not> st_locked s' \<and> st_self s' = st_self s \<and>
    is_active (st_space s') \<and> is_fast (st_space s') = is_fast (st_space s) \<and>
    (\<forall>m c. capability_at s' m c \<longleftrightarrow> m = n \<and> c = (IO_NULL, MACH_PORT_TYPE_DEAD_NAME OR 1, 0) \<or> capability_at s m c)"
proof -
  let ?s = "s\<lparr>st_locked := True\<rparr>"
  have "space_inv ?s {}" using inv by simp
  from entry_get_spec [OF this] s(3) obtain i gen s1 v where g: "ipc_entry_get ?s = Some (Inr (MACH_PORT_MAKE (of_nat i) gen, In_table i), s1)"
      "0 < i" "i < 2 ^ 24 - 1" "IE_BITS_GEN gen = gen" "space_inv s1 (insert (In_table i) {})" "same_caps ?s s1"
      "\<forall>c. \<not> capability_at ?s (MACH_PORT_MAKE (of_nat i) gen) c"
      and v: "entry_at s1 (In_table i) = Some v" "ie_object v = 0" "ie_bits v = gen" "ie_request v = 0" by auto
  note bits = dead_name_bits [OF g(4)]
  have i: "i < length (space_table s1)" "space_table s1 ! i = v" using v(1) by (auto simp: nth_opt_def split: if_splits)
  let ?v = "v\<lparr>ie_bits := gen OR (MACH_PORT_TYPE_DEAD_NAME OR 1)\<rparr>"
  let ?s1 = "set_table (\<lambda>_. (space_table s1)[i := ?v]) s1"
  have l: "st_locked s1" "st_self s1 = st_self s" "is_active (st_space s1)" "is_fast (st_space s1) = is_fast (st_space s)"
    using g(1) s(1) by (auto simp: ipc_entry_get_def Let_def bind_eq_Some_conv split: if_splits)
  have up: "ie_bits_update (\<lambda>b. b OR (MACH_PORT_TYPE_DEAD_NAME OR 1)) v = ?v" using v(3) by (cases v) simp
  have "ipc_object_alloc_dead k s = Some (Inr (MACH_PORT_MAKE (of_nat i) gen), ?s1\<lparr>st_locked := False\<rparr>)"
    using s g(1) i l v
    by (simp add: ipc_object_alloc_dead_def ipc_entry_alloc_def entry_alloc_loop.simps [of _ ?s] is_write_lock_def is_write_unlock_def
        set_table_at IO_NULL_def nth_opt_def up)
  moreover have "space_inv (?s1\<lparr>st_locked := False\<rparr>) {}"
  proof -
    have "MACH_PORT_TYPE_DEAD_NAME \<noteq> 0" by (simp add: type_values)
    then have "space_inv ?s1 {}" by (intro enter_table_inv [OF g(5)]) (simp_all add: i(2) v(3) bits g(4))
    then show ?thesis by (simp only: space_inv_ghost(1))
  qed
  moreover have "capability_at (?s1\<lparr>st_locked := False\<rparr>) m c \<longleftrightarrow>
      m = MACH_PORT_MAKE (of_nat i) gen \<and> c = (IO_NULL, MACH_PORT_TYPE_DEAD_NAME OR 1, 0) \<or> capability_at s m c" for m c
  proof -
    have "MACH_PORT_TYPE_DEAD_NAME \<noteq> 0" "i < 2 ^ 24" using g(3) by (simp_all add: type_values)
    then have "capability_at ?s1 m c \<longleftrightarrow> m = MACH_PORT_MAKE (of_nat i) gen \<and> c = entry_cap ?v \<or> capability_at s1 m c"
      using enter_table_caps [OF i(1), of ?v m c] i(2) v(3) bits by simp
    moreover have "capability_at s1 m c = capability_at s m c" using g(6) unfolding same_caps_def capability_ghost by blast
    moreover have "entry_cap ?v = (IO_NULL, MACH_PORT_TYPE_DEAD_NAME OR 1, 0)" using v bits(4) by (simp add: entry_cap_def IO_NULL_def)
    ultimately show ?thesis by (simp only: capability_ghost)
  qed
  moreover have "\<forall>c. \<not> capability_at s (MACH_PORT_MAKE (of_nat i) gen) c" using g(7) unfolding capability_ghost .
  moreover have "MACH_PORT_VALID (MACH_PORT_MAKE (of_nat i) gen)" using make_name_facts(3) [of i gen] g(2,3) by simp
  moreover have "\<not> st_locked (?s1\<lparr>st_locked := False\<rparr>)" "st_self (?s1\<lparr>st_locked := False\<rparr>) = st_self s"
    "is_active (st_space (?s1\<lparr>st_locked := False\<rparr>))" "is_fast (st_space (?s1\<lparr>st_locked := False\<rparr>)) = is_fast (st_space s)"
    using l by simp_all
  ultimately show ?thesis by blast
qed

text \<open>
  Claim C10.  \<open>mach_port_allocate_name\<close> is to allocate the right under the name the caller gives, and to
  report \<open>KERN_NAME_EXISTS\<close> when the name is in use.  For dead names it does neither: whatever name is
  given, in use or not, the call succeeds and enters the dead name under a name of the kernel's
  choice, the one that \<open>mach_port_allocate\<close> would return, and the caller never learns it.
\<close>

theorem allocate_name_ignored:
  assumes "space_inv s {}" "is_active (st_space s)" "\<not> st_locked s" "ie_next (space_table s ! 0) \<noteq> 0"
    and "\<not> is_fast (st_space s)" "space \<noteq> IS_NULL" "space = st_self s"
  shows "\<exists>n s'. mach_port_allocate k c space MACH_PORT_RIGHT_DEAD_NAME s = Some (Inr n, s') \<and>
    MACH_PORT_VALID n \<and> (\<forall>cap. \<not> capability_at s n cap) \<and> space_inv s' {} \<and> \<not> st_locked s' \<and>
    (\<forall>m cap. capability_at s' m cap \<longleftrightarrow> m = n \<and> cap = (IO_NULL, MACH_PORT_TYPE_DEAD_NAME OR 1, 0) \<or> capability_at s m cap) \<and>
    (\<forall>name. MACH_PORT_VALID name \<longrightarrow>
       mach_port_allocate_name k c space MACH_PORT_RIGHT_DEAD_NAME name s = Some (KERN_SUCCESS, s'))"
proof -
  obtain n s' where n: "ipc_object_alloc_dead k s = Some (Inr n, s')" "MACH_PORT_VALID n" "\<forall>c. \<not> capability_at s n c"
    "space_inv s' {}" "\<not> st_locked s'"
    "\<forall>m c. capability_at s' m c \<longleftrightarrow> m = n \<and> c = (IO_NULL, MACH_PORT_TYPE_DEAD_NAME OR 1, 0) \<or> capability_at s m c"
    using alloc_dead_law [OF assms(1-4)] by blast
  moreover have "mach_port_allocate k c space MACH_PORT_RIGHT_DEAD_NAME s = Some (Inr n, s')"
    using n(1) assms(6,7)
    by (simp add: mach_port_allocate_def mach_port_allocate_full_def with_space_def qos_template_def right_values)
  moreover have "mach_port_allocate_name k c space MACH_PORT_RIGHT_DEAD_NAME name s = Some (KERN_SUCCESS, s')"
    if "MACH_PORT_VALID name" for name
    using n(1) assms(5-7) that
    by (simp add: mach_port_allocate_name_def mach_port_allocate_full_def with_space_def qos_template_def right_values)
  ultimately show ?thesis by blast
qed

definition fresh_kstate :: ipc_kstate where
  "fresh_kstate = blank_kstate\<lparr>st_space := created False 1\<rparr>"

lemma fresh_kstate_simps:
  "space_inv fresh_kstate {}" "is_active (st_space fresh_kstate)" "\<not> st_locked fresh_kstate"
  "ie_next (space_table fresh_kstate ! 0) \<noteq> 0" "\<not> is_fast (st_space fresh_kstate)"
  "(0x200 :: u32) \<noteq> IS_NULL" "(0x200 :: u32) = st_self fresh_kstate" "\<not> capability_at fresh_kstate m cap"
proof -
  have sp: "ipc_space_create True True False 1 = Some (Inr (created False 1))"
    by (simp add: create_Some_iff ipc_table_entries_size_def)
  show "space_inv fresh_kstate {}"
    unfolding fresh_kstate_def
    using created_space_inv [OF _ blank_kstate_global sp] by (simp add: ipc_table_entries_size_def)
  show "\<not> capability_at fresh_kstate m cap" unfolding fresh_kstate_def by (rule created_empty [OF sp])
  have "ipc_table_entries ! 0 < ipc_table_entries ! 1" "0 < ipc_table_entries ! 0"
    using ipc_table_entries_less [of 0 1] ipc_table_entries_range(1) [of 0] by simp_all
  then show "ie_next (space_table fresh_kstate ! 0) \<noteq> 0"
    by (simp add: fresh_kstate_def created_def nth_create_table)
qed (simp_all add: fresh_kstate_def blank_kstate_def created_def IS_NULL_def)

theorem allocate_name_ignored_witness:
  "\<exists>s' n. mach_port_allocate_name quiet_kernel sample_calls 0x200 MACH_PORT_RIGHT_DEAD_NAME 0x1203 fresh_kstate = Some (KERN_SUCCESS, s') \<and>
     mach_port_allocate_name quiet_kernel sample_calls 0x200 MACH_PORT_RIGHT_DEAD_NAME 0x3403 fresh_kstate = Some (KERN_SUCCESS, s') \<and>
     (\<forall>m cap. capability_at s' m cap \<longrightarrow> m = n)"
proof -
  have "MACH_PORT_VALID 0x1203" "MACH_PORT_VALID 0x3403"
    by (simp_all add: MACH_PORT_VALID_def MACH_PORT_NULL_def MACH_PORT_DEAD_def)
  moreover obtain n s' where n: "\<forall>m cap. capability_at s' m cap \<longleftrightarrow> m = n \<and> cap = (IO_NULL, MACH_PORT_TYPE_DEAD_NAME OR 1, 0) \<or> capability_at fresh_kstate m cap"
    "\<forall>name. MACH_PORT_VALID name \<longrightarrow>
       mach_port_allocate_name quiet_kernel sample_calls 0x200 MACH_PORT_RIGHT_DEAD_NAME name fresh_kstate = Some (KERN_SUCCESS, s')"
    using allocate_name_ignored [OF fresh_kstate_simps(1-7), of quiet_kernel sample_calls] by blast
  ultimately show ?thesis using fresh_kstate_simps(8) by blast
qed

section \<open>Looking up a right\<close>





section \<open>Well-typed entries\<close>










end
