(* ===== verification/Spec2Isabelle.thy ===== *)
theory Spec2Isabelle
  imports Ipc_Space_Inv Ipc_Requests Ipc_Circularity Ipc_Copy_Laws Ipc_Kmsg Mach_Port_Laws
begin

text \<open>
  Mach IPC of \<open>xnu-792\<close>: names, spaces, ports and rights (\<open>src/xnu-792/osfmk/ipc/\<close>).

  \<^bold>\<open>The program.\<close>  A task names its port rights by 32-bit names.  Its space (\<open>ipc_space.c\<close>) maps a name
  to an entry, which lives in a table indexed by the upper bits of the name or, when the name does not
  fit, in a splay tree (\<open>ipc_splay.c\<close>); \<open>ipc_entry.c\<close> allocates, frees and moves entries and grows the
  table through the sizes of \<open>ipc_table.c\<close>.  Two reverse hash tables (\<open>ipc_hash.c\<close>) lead from a port
  to the entry with the send right for it.  An entry holds a right, a count of user references and
  maybe a dead-name request; \<open>ipc_right.c\<close> changes rights, \<open>ipc_object.c\<close> moves them between spaces
  and messages, \<open>ipc_port.c\<close> and \<open>ipc_pset.c\<close> own the ports and port sets, and \<open>ipc_notify.c\<close> reports
  the events that a task has asked for.  \<open>mach_port.c\<close> offers all this to tasks as kernel calls.

  \<^bold>\<open>The state.\<close>  The model is for the 32-bit kernel with assertions on.  Words are \<open>32 word\<close>, so
  counters wrap as in C.  \<open>ipc_state\<close> (\<open>Ipc_Space\<close>) is one space: its lock, its table as a list of
  entries, its splay tree with the pointers between the nodes as the unassembled form of a tree, the
  store of tree entries and the global hash table.  \<open>ipc_kstate\<close> (\<open>Ipc_Object\<close>) adds the objects,
  the tables of dead-name requests, the timestamps and the notifications sent.  Pointers are words
  that index these stores.  A routine is a function on the state; its result is \<open>None\<close> for what must
  not happen (an invalid pointer, a failed assertion, a lock taken twice or released by a thread that
  does not hold it, a loop without end) and a sum with \<open>kern_return_t\<close> on the left for errors.

  \<^bold>\<open>Concurrency and callees.\<close>  While a routine has released its locks other threads run: the field
  \<open>env_others\<close> of the environment is an arbitrary step of theirs, and the routine then rechecks what
  it knew, as the code does.  \<open>ipc_kernel\<close> collects what is called outside: the generated senders of
  notifications, message queues, kernel objects and allocators.  \<open>quiet_kernel\<close> is a concrete instance.

  \<^bold>\<open>Theories.\<close>
  \<^item> \<open>Ipc_Prelude\<close>: lemmas on words, lists, options and cycles of positions.
  \<^item> \<open>Ipc_Names\<close>: \<open>mach/port.h\<close>, \<open>ipc/port.h\<close> and the bits of an entry (\<open>ipc_entry.h\<close>).
  \<^item> \<open>Ipc_Table\<close>: the sizes of tables, \<open>ipc_table.c\<close>.
  \<^item> \<open>Ipc_Splay\<close>, \<open>Ipc_Traverse\<close>, \<open>Ipc_Name_Tree\<close>: \<open>ipc_splay.c\<close>, the unassembled trees, the traversal
    that reverses pointers, and the interface \<open>name_tree\<close>, interpreted on the splay trees.
  \<^item> \<open>Ipc_Space\<close>: entries, spaces and the state.
  \<^item> \<open>Ipc_Hash_Local\<close>, \<open>Ipc_Hash\<close>, \<open>Ipc_Hash_Space\<close>: \<open>ipc_hash.c\<close>, with the interface \<open>reverse_map\<close>,
    interpreted on the local table, the global table and both together.
  \<^item> \<open>Ipc_Entry\<close>, \<open>Ipc_Entry_Inv\<close>: \<open>ipc_entry.c\<close>, and the invariant \<open>space_inv\<close> of a space.
  \<^item> \<open>Ipc_Object\<close>, \<open>Ipc_Port\<close>, \<open>Ipc_Pset\<close>: \<open>ipc_object.h\<close>, \<open>ipc_port.c\<close>, \<open>ipc_notify.c\<close>, \<open>ipc_pset.c\<close>.
  \<^item> \<open>Ipc_Requests\<close>: tables of dead-name requests, with the interface \<open>slot_store\<close>.
  \<^item> \<open>Ipc_Circularity\<close>: chains of ports in transit.
  \<^item> \<open>Ipc_Right\<close>, \<open>Ipc_Right_Delta\<close>, \<open>Ipc_Copy\<close>: \<open>ipc_right.c\<close>; \<open>Ipc_Right_Laws\<close>: what the changes of user
    references keep; \<open>Ipc_Copy_Laws\<close>: the check before a copyin predicts its result.
  \<^item> \<open>Ipc_Kmsg\<close>: queues of messages (\<open>ipc_kmsg.h\<close>, \<open>ipc_kmsg.c\<close>), with the interface \<open>fifo\<close>.
  \<^item> \<open>Ipc_Object_Ops\<close>: \<open>ipc_object.c\<close> and the allocation of ports and port sets.
  \<^item> \<open>Mach_Port\<close>: the kernel calls of \<open>mach_port.c\<close>; \<open>Mach_Port_Names\<close>: \<open>mach_port_names\<close> is a snapshot;
    \<open>Mach_Port_Laws\<close>: what the calls do to the names of a space.
  \<^item> \<open>Ipc_Space_Ops\<close>, \<open>Ipc_Space_Inv\<close>: \<open>ipc_space.c\<close>, and what the operations on a space keep.

  \<^bold>\<open>What is shown.\<close>  The splay tree is a map from names, for every operation and for the traversal,
  which ends.  The hash tables are maps from objects to entries, and deletion undoes insertion.  The
  arrays of sizes keep their contract.  The macros on names and counts convert and guard exactly.  A
  new space is in the invariant; a lookup finds exactly what a name denotes; an allocated name
  denoted nothing before.  Dead-name requests are kept apart, can be taken back, and find room after
  the table has grown.  The check for circularity ends and is exact.  A queue of messages, a ring of
  pointers, behaves as a list.  The call for all names of a space ends with an exact snapshot and
  stays within its buffers; the calls for the type and the references of a name cannot fail on
  well-typed entries.  Some theorems state faults of the code: the name 255 cannot be
  looked up, \<open>task_set_port_space\<close> may release a lock twice, \<open>ipc_space_clean\<close> abandons entries,
  \<open>ipc_port_dngrow\<close> ignores a target size, and \<open>mach_port_allocate_name\<close> ignores the name of a dead name.

  \<^bold>\<open>Loops.\<close>  No definition has fuel.  Loops over data are recursive functions; loops that end only on
  well-formed data are partial functions with result \<open>None\<close> for divergence, and the theorems say that
  they return.

  \<^bold>\<open>Not modelled.\<close>  Message bodies (\<open>ipc_kmsg.c\<close>, \<open>mach_msg.c\<close>), message queues and threads
  (\<open>ipc_mqueue.c\<close>, wait queues), the memory in which \<open>mach_port.c\<close> returns arrays to the caller, debugging and statistics, the
  rest of the kernel and the user-space libraries of the repository.
\<close>

end
